(* ===== verification/Go_Prelude.thy ===== *)
theory Go_Prelude
  imports Main "HOL-Library.Word" "HOL-Library.Sublist"
begin

text \<open>
  What the nine modules share of the Go language and its small helpers: durations, the
  wrap-around of 64-bit integers, decimal formatting as \<open>fmt.Sprintf\<close> prints it with
  \<open>%d\<close>, ASCII case mapping, and the collections of rewrite rules the component theories use.

  A \<open>string\<close> is a list of bytes, as in Go. A \<open>time.Duration\<close> is a count of nanoseconds.
\<close>

named_theorems cfg_defs \<open>definitions of the Config accessors\<close>
named_theorems go_laws \<open>laws of the operations of a component, one per field\<close>

section \<open>Integers and durations\<close>

type_synonym duration = int
type_synonym chan = nat

abbreviation microsecond :: duration where "microsecond \<equiv> 1000"
abbreviation millisecond :: duration where "millisecond \<equiv> 1000000"
abbreviation second :: duration where "second \<equiv> 1000000000"
abbreviation minute :: duration where "minute \<equiv> 60000000000"

text \<open>Go's \<open>int\<close> on a 64-bit target: two's complement, arithmetic wraps.\<close>

definition wrap64 :: "int \<Rightarrow> int" where
  "wrap64 x = (x + 2 ^ 63) mod 2 ^ 64 - 2 ^ 63"

definition is_int64 :: "int \<Rightarrow> bool" where
  "is_int64 x \<longleftrightarrow> - (2 ^ 63) \<le> x \<and> x < 2 ^ 63"

lemma wrap64_range: "is_int64 (wrap64 x)"
  by (simp add: wrap64_def is_int64_def)

lemma wrap64_id: "is_int64 x \<Longrightarrow> wrap64 x = x"
  by (simp add: wrap64_def is_int64_def)

text \<open>\<open>Duration.Milliseconds\<close>: integer division, truncating towards zero.\<close>

definition milliseconds :: "duration \<Rightarrow> int" where
  "milliseconds d = (if d < 0 then - ((- d) div millisecond) else d div millisecond)"

section \<open>Decimal formatting\<close>

definition digit :: "nat \<Rightarrow> char" where
  "digit n = ''0123456789'' ! n"

fun show_nat :: "nat \<Rightarrow> string" where
  "show_nat n = (if n < 10 then [digit n] else show_nat (n div 10) @ [digit (n mod 10)])"

declare show_nat.simps [simp del]

definition show_int :: "int \<Rightarrow> string" where
  "show_int i = (if i < 0 then CHR ''-'' # show_nat (nat (- i)) else show_nat (nat i))"

definition digits :: "char set" where
  "digits = set ''0123456789''"

lemma digit_in: "n < 10 \<Longrightarrow> digit n \<in> digits"
  unfolding digit_def digits_def by (rule nth_mem) simp

lemma not_digits [simp]: "CHR ''-'' \<notin> digits" "CHR '':'' \<notin> digits"
  by (simp_all add: digits_def)

lemma digit_inj: "m < 10 \<Longrightarrow> n < 10 \<Longrightarrow> digit m = digit n \<Longrightarrow> m = n"
  unfolding digit_def
  by (rule nth_eq_iff_index_eq [THEN iffD1, of "''0123456789''"]) simp_all

lemma show_nat_digits: "set (show_nat n) \<subseteq> digits"
proof (induction n rule: show_nat.induct)
  case (1 n)
  show ?case
  proof (cases "n < 10")
    case True
    then show ?thesis using digit_in [of n] by (subst show_nat.simps) simp
  next
    case False
    then show ?thesis using 1 digit_in [of "n mod 10"] by (subst show_nat.simps) simp
  qed
qed

lemma show_nat_ne [simp]: "show_nat n \<noteq> []" "[] \<noteq> show_nat n"
  by (subst show_nat.simps, simp)+

lemma show_nat_inj: "show_nat m = show_nat n \<Longrightarrow> m = n"
proof (induction m arbitrary: n rule: show_nat.induct)
  case (1 m)
  consider (both) "m < 10" "n < 10" | (left) "m < 10" "\<not> n < 10"
    | (right) "\<not> m < 10" "n < 10" | (none) "\<not> m < 10" "\<not> n < 10" by blast
  then show ?case
  proof cases
    case both
    with "1.prems" show ?thesis
      by (simp add: show_nat.simps [of m] show_nat.simps [of n] digit_inj)
  next
    case left
    with "1.prems" show ?thesis
      by (simp add: show_nat.simps [of m] show_nat.simps [of n] show_nat_ne)
  next
    case right
    with "1.prems" show ?thesis
      by (simp add: show_nat.simps [of m] show_nat.simps [of n] show_nat_ne)
  next
    case none
    with "1.prems" have "show_nat (m div 10) = show_nat (n div 10)"
      and "digit (m mod 10) = digit (n mod 10)"
      by (simp_all add: show_nat.simps [of m] show_nat.simps [of n])
    with none "1.IH" have "m div 10 = n div 10" and "m mod 10 = n mod 10"
      by (simp_all add: digit_inj)
    then show ?thesis by (metis div_mult_mod_eq)
  qed
qed

lemma show_int_no_colon [simp]: "CHR '':'' \<notin> set (show_int i)"
proof -
  have "CHR '':'' \<notin> set (show_nat n)" for n
    using show_nat_digits [of n] not_digits(2) by blast
  then show ?thesis by (simp add: show_int_def)
qed

lemma show_nat_no_minus [simp]:
  "show_nat n \<noteq> CHR ''-'' # xs" "CHR ''-'' # xs \<noteq> show_nat n"
proof -
  have "CHR ''-'' \<notin> set (show_nat n)"
    using show_nat_digits [of n] not_digits(1) by blast
  then show "show_nat n \<noteq> CHR ''-'' # xs" by (metis list.set_intros(1))
  then show "CHR ''-'' # xs \<noteq> show_nat n" by (rule not_sym)
qed

lemma show_int_inj: "show_int i = show_int j \<Longrightarrow> i = j"
proof -
  assume eq: "show_int i = show_int j"
  consider (neg) "i < 0" "j < 0" | (pos) "\<not> i < 0" "\<not> j < 0"
    | (mixed) "(i < 0) \<noteq> (j < 0)" by blast
  then show "i = j"
  proof cases
    case neg
    with eq have "nat (- i) = nat (- j)" by (simp add: show_int_def show_nat_inj)
    with neg show ?thesis by simp
  next
    case pos
    with eq have "nat i = nat j" by (simp add: show_int_def show_nat_inj)
    with pos show ?thesis by simp
  next
    case mixed
    with eq show ?thesis by (simp add: show_int_def split: if_splits)
  qed
qed

text \<open>A text without a separator, then the separator, then digits: the split is unique.\<close>

lemma append_sep_inj:
  assumes "xs @ c # ys = xs' @ c # ys'" and "c \<notin> set ys" and "c \<notin> set ys'"
  shows "xs = xs' \<and> ys = ys'"
  using assms
proof (induction xs arbitrary: xs')
  case Nil
  then show ?case by (cases xs') auto
next
  case (Cons x xs)
  then show ?case by (cases xs') auto
qed

text \<open>\<open>fmt.Sprintf("%s:%d", host, port)\<close>, which every \<open>addr\<close> of the modules uses.\<close>

definition host_port :: "string \<Rightarrow> int \<Rightarrow> string" where
  "host_port host port = host @ '':'' @ show_int port"

lemma host_port_inj: "host_port h p = host_port h' p' \<longleftrightarrow> h = h' \<and> p = p'"
proof
  assume eq: "host_port h p = host_port h' p'"
  with append_sep_inj [of h "CHR '':''" "show_int p" h' "show_int p'"]
  show "h = h' \<and> p = p'" by (simp add: host_port_def show_int_inj)
qed simp

section \<open>Strings\<close>

definition upper_char :: "char \<Rightarrow> char" where
  "upper_char c = (if 97 \<le> (of_char c :: nat) \<and> (of_char c :: nat) \<le> 122
     then char_of ((of_char c :: nat) - 32) else c)"

definition lower_char :: "char \<Rightarrow> char" where
  "lower_char c = (if 65 \<le> (of_char c :: nat) \<and> (of_char c :: nat) \<le> 90
     then char_of ((of_char c :: nat) + 32) else c)"

definition to_upper :: "string \<Rightarrow> string" where "to_upper s = map upper_char s"
definition to_lower :: "string \<Rightarrow> string" where "to_lower s = map lower_char s"

fun contains :: "string \<Rightarrow> string \<Rightarrow> bool" where
  "contains [] sub = (sub = [])"
| "contains (c # s) sub = (prefix sub (c # s) \<or> contains s sub)"

lemma contains_iff: "contains s sub \<longleftrightarrow> (\<exists>p q. s = p @ sub @ q)"
proof (induction s)
  case (Cons c s)
  have "(\<exists>p q. c # s = p @ sub @ q) \<longleftrightarrow>
      (\<exists>q. c # s = sub @ q) \<or> (\<exists>p q. s = p @ sub @ q)"
    by (metis append_Cons append_Nil list.inject neq_Nil_conv)
  with Cons show ?case by (simp add: prefix_def)
qed simp

lemma of_char_bound: "(of_char c :: nat) < 256"
  using of_char_mod_256 [of c] by (metis mod_less_divisor zero_less_numeral)

lemma upper_char_idem [simp]: "upper_char (upper_char c) = upper_char c"
  using of_char_bound [of c] by (auto simp: upper_char_def)

lemma to_upper_idem [simp]: "to_upper (to_upper s) = to_upper s"
  by (simp add: to_upper_def)

text \<open>A fold over functional options leaves alone what each option leaves alone.\<close>

lemma fold_options:
  "(\<And>n c. f (opt n c) = f c) \<Longrightarrow> f (fold (\<lambda>opt c. opt c) (map opt ns) c) = f c"
  by (induction ns arbitrary: c) simp_all

end
