(* ===== verification/Go_Errors.thy ===== *)
theory Go_Errors
  imports Go_Prelude
begin

text \<open>
  Go error values. A sentinel is a package variable made by \<open>errors.New\<close>: it is compared by
  identity, which its qualified name stands for. \<open>Errorf\<close> is a value made by \<open>fmt.Errorf\<close>:
  the format text, the arguments printed by the verbs other than \<open>%w\<close>, and the errors the
  \<open>%w\<close> verbs wrap, in order. The remaining constructors are the error types of the
  libraries that the source inspects with a type assertion or with \<open>errors.As\<close>, each with
  the field the source reads, and \<open>Foreign\<close> is any other error value.

  \<open>errors.Is\<close> and \<open>errors.As\<close> walk the tree of wrapped errors in pre-order.
\<close>

datatype fmt_arg = AStr string | AInt int

datatype goerr =
    Sentinel string
  | Errorf string "fmt_arg list" "goerr list"
  | HttpResponse int "goerr list"
  | AmqpError int
  | FiberError int string
  | StatusError int string
  | Foreign nat

type_synonym 'a result = "goerr + 'a"

fun err_chain :: "goerr \<Rightarrow> goerr list" where
  "err_chain (Errorf f as ws) = Errorf f as ws # concat (map err_chain ws)"
| "err_chain (HttpResponse n ws) = HttpResponse n ws # concat (map err_chain ws)"
| "err_chain e = [e]"

definition errors_is :: "goerr \<Rightarrow> goerr \<Rightarrow> bool" where
  "errors_is e target \<longleftrightarrow> target \<in> set (err_chain e)"

text \<open>\<open>errors.Is(err, target)\<close> on an \<open>error\<close> that may be nil; the target never is.\<close>

definition errors_is_opt :: "goerr option \<Rightarrow> goerr \<Rightarrow> bool" where
  "errors_is_opt e target \<longleftrightarrow> (case e of None \<Rightarrow> False | Some e' \<Rightarrow> errors_is e' target)"

definition errors_as :: "(goerr \<Rightarrow> bool) \<Rightarrow> goerr \<Rightarrow> goerr option" where
  "errors_as is_type e = List.find is_type (err_chain e)"

lemma err_chain_self [simp]: "e \<in> set (err_chain e)"
  by (cases e) simp_all

lemma errors_is_refl [simp]: "errors_is e e"
  by (simp add: errors_is_def)

lemma errors_is_Errorf [simp]:
  "errors_is (Errorf f as ws) t \<longleftrightarrow> t = Errorf f as ws \<or> (\<exists>w \<in> set ws. errors_is w t)"
  by (auto simp: errors_is_def)

lemma errors_is_HttpResponse [simp]:
  "errors_is (HttpResponse n ws) t \<longleftrightarrow> t = HttpResponse n ws \<or> (\<exists>w \<in> set ws. errors_is w t)"
  by (auto simp: errors_is_def)

lemma errors_is_leaf [simp]:
  "errors_is (Sentinel s) t \<longleftrightarrow> t = Sentinel s"
  "errors_is (AmqpError n) t \<longleftrightarrow> t = AmqpError n"
  "errors_is (FiberError n m) t \<longleftrightarrow> t = FiberError n m"
  "errors_is (StatusError n m) t \<longleftrightarrow> t = StatusError n m"
  "errors_is (Foreign k) t \<longleftrightarrow> t = Foreign k"
  by (auto simp: errors_is_def)

lemma errors_is_opt_simps [simp]:
  "errors_is_opt None t \<longleftrightarrow> False"
  "errors_is_opt (Some e) t \<longleftrightarrow> errors_is e t"
  by (simp_all add: errors_is_opt_def)

text \<open>Wrapping once more keeps every error that was already in the chain.\<close>

lemma errors_is_wrap: "errors_is e t \<Longrightarrow> errors_is (Errorf f as [e]) t"
  by simp

lemma errors_as_chain: "errors_as P e = Some x \<Longrightarrow> P x \<and> errors_is e x"
  by (auto simp: errors_as_def errors_is_def find_Some_iff)

lemma errors_as_None: "errors_as P e = None \<longleftrightarrow> (\<forall>x. errors_is e x \<longrightarrow> \<not> P x)"
  by (auto simp: errors_as_def errors_is_def find_None_iff)

text \<open>Transitivity: an error wrapped by a wrapped error is in the chain.\<close>

lemma errors_is_trans: "errors_is a b \<Longrightarrow> errors_is b c \<Longrightarrow> errors_is a c"
proof (induction a rule: err_chain.induct)
  case (1 f as ws)
  then show ?case by auto
next
  case (2 n ws)
  then show ?case by auto
qed simp_all

end
