(* ===== verification/Observe.thy ===== *)
theory Observe
  imports Go_Errors
begin

text \<open>
  The pieces that the five data modules (redis, postgresql, sqlite, s3, rabbitmq) repeat
  around every operation: a log, the optional \<open>Config.OnOperation\<close> sink, \<open>record\<close>, which
  calls it and survives its panic, and the three shapes of \<open>observe\<close>.

  An operation takes and returns the pair of the world (log lines and sink calls so far) and
  the state of the driver, which is a parameter of the model. It returns Go's pair of a value
  and an error. The time an operation took is an argument, since \<open>time.Since\<close> may return
  anything. A log line keeps its level and its message, not its key/value arguments.
\<close>

datatype level = Debug | Info | Warn | Error

record world =
  w_log :: "(level \<times> string) list"
  w_obs :: "(string \<times> duration \<times> goerr option) list"

text \<open>
  A world only grows: the order in which a later one extends both the log and the observations of
  an earlier one.
\<close>

instantiation world_ext :: (order) order
begin

definition less_eq_world_ext :: "'a world_scheme \<Rightarrow> 'a world_scheme \<Rightarrow> bool" where
  "less_eq_world_ext w w' \<longleftrightarrow>
     prefix (w_log w) (w_log w') \<and> prefix (w_obs w) (w_obs w') \<and> world.more w \<le> world.more w'"

definition less_world_ext :: "'a world_scheme \<Rightarrow> 'a world_scheme \<Rightarrow> bool" where
  "less_world_ext w w' \<longleftrightarrow> w \<le> w' \<and> \<not> w' \<le> w"

instance
  by standard
    (auto simp: less_eq_world_ext_def less_world_ext_def intro: world.equality prefix_order.trans
      prefix_order.antisym order_trans antisym)

end

text \<open>The world before anything has been logged or observed.\<close>

abbreviation "world0 \<equiv> \<lparr>w_log = [], w_obs = []\<rparr>"

definition add_log :: "level \<Rightarrow> string \<Rightarrow> world \<Rightarrow> world" where
  "add_log l msg w = w\<lparr>w_log := w_log w @ [(l, msg)]\<rparr>"

datatype sink_outcome = SinkReturns | SinkPanics

type_synonym sink = "string \<Rightarrow> duration \<Rightarrow> goerr option \<Rightarrow> sink_outcome"
type_synonym 's st = "world \<times> 's"
type_synonym 'a ret = "'a \<times> goerr option"
type_synonym ('s, 'a) op = "'s st \<Rightarrow> 'a ret \<times> 's st"

text \<open>\<open>record\<close>: the sink is called when there is one; its panic becomes a log line.\<close>

definition record_op ::
  "string \<Rightarrow> sink option \<Rightarrow> string \<Rightarrow> duration \<Rightarrow> goerr option \<Rightarrow> world \<Rightarrow> world" where
  "record_op module sink op d err w =
     (case sink of
        None \<Rightarrow> w
      | Some f \<Rightarrow>
          (let w' = w\<lparr>w_obs := w_obs w @ [(op, d, err)]\<rparr>
           in case f op d err of
                SinkReturns \<Rightarrow> w'
              | SinkPanics \<Rightarrow> add_log Error (module @ '': metrics sink panicked'') w'))"

text \<open>\<open>observe\<close> of redis, postgresql and sqlite: fetches the handle and checks it.\<close>

definition observe_handle ::
  "string \<Rightarrow> goerr \<Rightarrow> sink option \<Rightarrow> 'h option \<Rightarrow> 'a \<Rightarrow> string \<Rightarrow> duration \<Rightarrow>
   ('h \<Rightarrow> ('s, 'a) op) \<Rightarrow> ('s, 'a) op" where
  "observe_handle module not_ready sink h zero op elapsed fn st =
     (case h of
        None \<Rightarrow> ((zero, Some not_ready),
                 (record_op module sink op 0 (Some not_ready) (fst st), snd st))
      | Some handle \<Rightarrow>
          (case fn handle st of
             ((v, err), (w, s)) \<Rightarrow> ((v, err), (record_op module sink op elapsed err w, s))))"

text \<open>The same around a body with a loop that may not end: then the call does not return.\<close>

definition observe_loop ::
  "string \<Rightarrow> goerr \<Rightarrow> sink option \<Rightarrow> 'h option \<Rightarrow> 'a \<Rightarrow> string \<Rightarrow> duration \<Rightarrow>
   ('h \<Rightarrow> 's st \<Rightarrow> ('a ret \<times> 's st) option) \<Rightarrow> 's st \<Rightarrow> ('a ret \<times> 's st) option" where
  "observe_loop module not_ready sink h zero op elapsed fn st =
     (case h of
        None \<Rightarrow> Some ((zero, Some not_ready),
                      (record_op module sink op 0 (Some not_ready) (fst st), snd st))
      | Some handle \<Rightarrow>
          (case fn handle st of
             None \<Rightarrow> None
           | Some ((v, err), (w, s)) \<Rightarrow>
               Some ((v, err), (record_op module sink op elapsed err w, s))))"

text \<open>\<open>observe\<close> of s3 and \<open>observePublish\<close> of rabbitmq: the check is inside the function.\<close>

definition observe_inside ::
  "string \<Rightarrow> goerr \<Rightarrow> sink option \<Rightarrow> string \<Rightarrow> duration \<Rightarrow> ('s, 'a) op \<Rightarrow> ('s, 'a) op" where
  "observe_inside module not_ready sink op elapsed fn st =
     (case fn st of
        ((v, err), (w, s)) \<Rightarrow>
          (let d = (if errors_is_opt err not_ready then 0 else elapsed)
           in ((v, err), (record_op module sink op d err w, s))))"

text \<open>\<open>observeTx\<close> of postgresql and sqlite: no handle, no not-ready path.\<close>

definition observe_plain ::
  "string \<Rightarrow> sink option \<Rightarrow> string \<Rightarrow> duration \<Rightarrow> ('s, 'a) op \<Rightarrow> ('s, 'a) op" where
  "observe_plain module sink op elapsed fn st =
     (case fn st of
        ((v, err), (w, s)) \<Rightarrow> ((v, err), (record_op module sink op elapsed err w, s)))"

text \<open>A driver call inside an operation: it leaves the world alone.\<close>

definition call :: "('s \<Rightarrow> 'r \<times> 's) \<Rightarrow> 's st \<Rightarrow> 'r \<times> 's st" where
  "call f st = (case f (snd st) of (r, s) \<Rightarrow> (r, (fst st, s)))"

text \<open>The common \<open>if err != nil { return zero, fmt.Errorf(...) }; return v, nil\<close>.\<close>

definition wrapped :: "string \<Rightarrow> fmt_arg list \<Rightarrow> 'a \<Rightarrow> 'a result \<Rightarrow> 'a ret" where
  "wrapped f as zero r = (case r of Inl e \<Rightarrow> (zero, Some (Errorf f as [e])) | Inr v \<Rightarrow> (v, None))"

section \<open>What instrumentation guarantees\<close>

text \<open>
  \<open>reports_once op ex\<close>: whatever the sink, running \<open>ex\<close> adds exactly one observation, which
  carries the fixed operation name and the error the caller gets, and with no sink none.
  \<open>sink_blind ex\<close>: the caller's result and the driver's state do not depend on the sink.
  Neither ever takes anything back. A body is \<open>silent\<close> when it makes no observation of its own.
\<close>

definition silent :: "('s, 'a) op \<Rightarrow> bool" where
  "silent fn \<longleftrightarrow> (\<forall>st. fst st \<le> fst (snd (fn st)) \<and> w_obs (fst (snd (fn st))) = w_obs (fst st))"

definition reports_once :: "string \<Rightarrow> (sink option \<Rightarrow> ('s, 'a) op) \<Rightarrow> bool" where
  "reports_once op ex \<longleftrightarrow>
     (\<forall>sink st. fst st \<le> fst (snd (ex sink st))) \<and>
     (\<forall>st. w_obs (fst (snd (ex None st))) = w_obs (fst st)) \<and>
     (\<forall>f st. \<exists>d. w_obs (fst (snd (ex (Some f) st))) =
        w_obs (fst st) @ [(op, d, snd (fst (ex (Some f) st)))])"

definition sink_blind :: "(sink option \<Rightarrow> ('s, 'a) op) \<Rightarrow> bool" where
  "sink_blind ex \<longleftrightarrow>
     (\<forall>f st. fst (ex f st) = fst (ex None st) \<and> snd (snd (ex f st)) = snd (snd (ex None st)))"

lemma add_log_obs [simp]: "w_obs (add_log l m w) = w_obs w"
  by (simp add: add_log_def)

lemma add_log_log [simp]: "w_log (add_log l m w) = w_log w @ [(l, m)]"
  by (simp add: add_log_def)

lemma record_op_None [simp]: "record_op m None op d e w = w"
  by (simp add: record_op_def)

lemma record_op_Some [simp]: "w_obs (record_op m (Some f) op d e w) = w_obs w @ [(op, d, e)]"
  by (simp add: record_op_def Let_def split: sink_outcome.split)

lemma record_op_logs:
  "w_log (record_op m sink op d e w) = w_log w \<or>
   w_log (record_op m sink op d e w) = w_log w @ [(Error, m @ '': metrics sink panicked'')]"
  by (simp add: record_op_def Let_def split: sink_outcome.split option.split)

lemma world_le: "(w :: world) \<le> w' \<longleftrightarrow> prefix (w_log w) (w_log w') \<and> prefix (w_obs w) (w_obs w')"
  by (cases w; cases w') (simp add: less_eq_world_ext_def)

lemma add_log_grows [simp]: "w \<le> add_log l m (w :: world)"
  by (simp add: world_le)

lemma record_op_grows [simp]: "w \<le> record_op m sink op d e w"
  by (auto simp: world_le record_op_def Let_def split: sink_outcome.split option.split)

lemma record_op_grows_from: "w \<le> w' \<Longrightarrow> w \<le> record_op m sink op d e w'"
  by (rule order_trans [OF _ record_op_grows])

lemma observe_handle_reports:
  "(\<And>h. silent (fn h)) \<Longrightarrow>
     reports_once op (\<lambda>sink. observe_handle m nr sink h z op el fn)"
  by (cases h) (simp_all add: reports_once_def silent_def record_op_grows_from observe_handle_def split_beta)

lemma observe_handle_blind: "sink_blind (\<lambda>sink. observe_handle m nr sink h z op el fn)"
  by (cases h) (auto simp: sink_blind_def observe_handle_def split: prod.splits)

lemma observe_inside_reports:
  "silent fn \<Longrightarrow> reports_once op (\<lambda>sink. observe_inside m nr sink op el fn)"
  by (simp add: reports_once_def silent_def record_op_grows_from observe_inside_def Let_def split_beta)

lemma observe_inside_blind: "sink_blind (\<lambda>sink. observe_inside m nr sink op el fn)"
  by (auto simp: sink_blind_def observe_inside_def Let_def split: prod.splits)

lemma observe_plain_reports:
  "silent fn \<Longrightarrow> reports_once op (\<lambda>sink. observe_plain m sink op el fn)"
  by (simp add: reports_once_def silent_def record_op_grows_from observe_plain_def split_beta)

lemma observe_plain_blind: "sink_blind (\<lambda>sink. observe_plain m sink op el fn)"
  by (auto simp: sink_blind_def observe_plain_def split: prod.splits)

lemmas observed = observe_handle_reports observe_handle_blind observe_inside_reports
  observe_inside_blind observe_plain_reports observe_plain_blind

text \<open>With no handle the driver is not touched and a zero duration is reported.\<close>

lemma observe_handle_not_ready:
  "observe_handle m nr sink None z op el fn (w, s) =
     ((z, Some nr), (record_op m sink op 0 (Some nr) w, s))"
  by (simp add: observe_handle_def)

text \<open>Where the body returns, the loop version is the plain one.\<close>

lemma observe_loop_Some:
  "fn h st = Some r \<Longrightarrow>
     observe_loop m nr sink (Some h) z op el fn st =
       Some (observe_handle m nr sink (Some h) z op el (\<lambda>_ _. r) st)"
  by (simp add: observe_loop_def observe_handle_def split_beta)

lemma observe_loop_not_ready:
  "observe_loop m nr sink None z op el fn (w, s) =
     Some ((z, Some nr), (record_op m sink op 0 (Some nr) w, s))"
  by (simp add: observe_loop_def)

lemma observe_handle_live:
  "observe_handle m nr sink (Some h) z op el fn st = (r, w, s) \<longleftrightarrow>
     (\<exists>w'. fn h st = (r, w', s) \<and> w = record_op m sink op el (snd r) w')"
  by (auto simp: observe_handle_def split: prod.splits)

lemma call_fst [simp]: "fst (snd (call f st)) = fst st"
  by (simp add: call_def split_beta)

lemma call_apply [simp]: "f s = (r, s') \<Longrightarrow> call f (w, s) = (r, w, s')"
  by (simp add: call_def)

lemma wrapped_simps [simp]:
  "wrapped f as z (Inl e) = (z, Some (Errorf f as [e]))"
  "wrapped f as z (Inr v) = (v, None)"
  by (simp_all add: wrapped_def)

end
