(* ===== verification/Lifecycle.thy ===== *)
theory Lifecycle
  imports Go_Errors
begin

text \<open>
  The Start/Stop protocol that redis, postgresql, sqlite, s3 and grpcclient share, as a system
  of goroutines over one component. A goroutine is a run of \<open>Start\<close> or of \<open>Stop\<close>; a step is
  one critical section under \<open>c.mu\<close>, one channel operation, or one driver call. Any number of
  runs interleave in any order.

  The component's own code enters through \<open>lc_ops\<close>: the critical section that opens
  \<open>Start\<close> (a fresh \<open>stopCh\<close>), the one that publishes the driver handle, and the one of
  \<open>Stop\<close> (a closed \<open>stopCh\<close> is put in place and the handle is taken out). The locales state
  what the protocol needs of the three: \<open>stop_signal\<close> of the channel, \<open>lifecycle\<close> of the handle,
  \<open>lifecycle_state\<close> of the other fields, \<open>health_checked\<close> of \<open>Health\<close>; each component theory
  interprets them on its own definitions.

  Channels and handles are numbered; a channel is closed when it is in \<open>closed\<close>. Closing a
  closed channel is Go's run-time panic, kept in \<open>panicked\<close>.
\<close>

type_synonym handle = nat

record 'c lc_ops =
  op_stop_ch :: "'c \<Rightarrow> chan"
  op_handle :: "'c \<Rightarrow> handle option"
  op_begin :: "chan \<Rightarrow> 'c \<Rightarrow> 'c"
  op_publish :: "handle \<Rightarrow> 'c \<Rightarrow> 'c"
  op_swap :: "chan \<Rightarrow> 'c \<Rightarrow> 'c"

text \<open>Where a goroutine stands: the first four are a \<open>Start\<close>, the last four a \<open>Stop\<close>.\<close>

datatype pc =
    Connecting chan
  | Published chan
  | Blocked chan
  | Returned "goerr option"
  | Swapped chan "handle option"
  | Closing chan "handle option"
  | Signalled "handle option"
  | Stopped

datatype event =
    StartBegin
  | ConnectOk nat
  | ConnectFail nat "goerr option"
  | CallReady nat
  | Wake nat
  | CtxDone nat
  | StopSwap
  | SignalCheck nat
  | SignalClose nat
  | Release nat

record 'c sys =
  comp :: 'c
  closed :: "chan set"
  next_chan :: chan
  next_handle :: handle
  pcs :: "pc list"
  released :: "handle list"
  readies :: "nat list"
  panicked :: bool

definition pc_at :: "'c sys \<Rightarrow> nat \<Rightarrow> pc option" where
  "pc_at s t = (if t < length (pcs s) then Some (pcs s ! t) else None)"

definition set_pc :: "nat \<Rightarrow> pc \<Rightarrow> 'c sys \<Rightarrow> 'c sys" where
  "set_pc t p s = s\<lparr>pcs := (pcs s)[t := p]\<rparr>"

text \<open>The channel a \<open>Start\<close> run waits on, the channel a \<open>Stop\<close> run still has to close, the
  handle a \<open>Stop\<close> run has taken and not yet released.\<close>

fun waits_on :: "pc \<Rightarrow> chan option" where
  "waits_on (Connecting ch) = Some ch"
| "waits_on (Published ch) = Some ch"
| "waits_on (Blocked ch) = Some ch"
| "waits_on _ = None"

fun holds :: "pc \<Rightarrow> chan option" where
  "holds (Swapped ch h) = Some ch"
| "holds (Closing ch h) = Some ch"
| "holds _ = None"

fun carries :: "pc \<Rightarrow> handle option" where
  "carries (Swapped ch h) = h"
| "carries (Closing ch h) = h"
| "carries (Signalled h) = h"
| "carries _ = None"

fun finished :: "pc \<Rightarrow> bool" where
  "finished (Returned e) = True"
| "finished Stopped = True"
| "finished _ = False"

text \<open>
  One step. With \<open>solo\<close> the schedule is one a supervisor produces: it calls \<open>Start\<close> only when
  no earlier \<open>Start\<close> is still running.
\<close>

fun sys_step :: "bool \<Rightarrow> 'c lc_ops \<Rightarrow> event \<Rightarrow> 'c sys \<Rightarrow> 'c sys option" where
  "sys_step solo ops StartBegin s =
     (if solo \<and> (\<exists>p \<in> set (pcs s). waits_on p \<noteq> None) then None
      else Some (s\<lparr>comp := op_begin ops (next_chan s) (comp s),
                   next_chan := Suc (next_chan s),
                   pcs := pcs s @ [Connecting (next_chan s)]\<rparr>))"
| "sys_step solo ops (ConnectOk t) s =
     (case pc_at s t of
        Some (Connecting ch) \<Rightarrow>
          Some (set_pc t (Published ch)
            (s\<lparr>comp := op_publish ops (next_handle s) (comp s), next_handle := Suc (next_handle s)\<rparr>))
      | _ \<Rightarrow> None)"
| "sys_step solo ops (ConnectFail t e) s =
     (case pc_at s t of
        Some (Connecting ch) \<Rightarrow> Some (set_pc t (Returned e) s)
      | _ \<Rightarrow> None)"
| "sys_step solo ops (CallReady t) s =
     (case pc_at s t of
        Some (Published ch) \<Rightarrow> Some (set_pc t (Blocked ch) (s\<lparr>readies := readies s @ [t]\<rparr>))
      | _ \<Rightarrow> None)"
| "sys_step solo ops (Wake t) s =
     (case pc_at s t of
        Some (Blocked ch) \<Rightarrow> if ch \<in> closed s then Some (set_pc t (Returned None) s) else None
      | _ \<Rightarrow> None)"
| "sys_step solo ops (CtxDone t) s =
     (case pc_at s t of
        Some (Blocked ch) \<Rightarrow> Some (set_pc t (Returned None) s)
      | _ \<Rightarrow> None)"
| "sys_step solo ops StopSwap s =
     Some (s\<lparr>comp := op_swap ops (next_chan s) (comp s),
             closed := insert (next_chan s) (closed s),
             next_chan := Suc (next_chan s),
             pcs := pcs s @ [Swapped (op_stop_ch ops (comp s)) (op_handle ops (comp s))]\<rparr>)"
| "sys_step solo ops (SignalCheck t) s =
     (case pc_at s t of
        Some (Swapped ch h) \<Rightarrow>
          Some (set_pc t (if ch \<in> closed s then Signalled h else Closing ch h) s)
      | _ \<Rightarrow> None)"
| "sys_step solo ops (SignalClose t) s =
     (case pc_at s t of
        Some (Closing ch h) \<Rightarrow>
          Some (set_pc t (Signalled h)
            (s\<lparr>closed := insert ch (closed s), panicked := panicked s \<or> ch \<in> closed s\<rparr>))
      | _ \<Rightarrow> None)"
| "sys_step solo ops (Release t) s =
     (case pc_at s t of
        Some (Signalled h) \<Rightarrow>
          Some (set_pc t Stopped
            (s\<lparr>released := (case h of None \<Rightarrow> released s | Some x \<Rightarrow> released s @ [x])\<rparr>))
      | _ \<Rightarrow> None)"

fun sys_run :: "bool \<Rightarrow> 'c lc_ops \<Rightarrow> event list \<Rightarrow> 'c sys \<Rightarrow> 'c sys option" where
  "sys_run solo ops [] s = Some s"
| "sys_run solo ops (e # es) s =
     (case sys_step solo ops e s of None \<Rightarrow> None | Some s' \<Rightarrow> sys_run solo ops es s')"

text \<open>\<open>New\<close> has made channel 0, open, and no goroutine runs.\<close>

definition init_sys :: "'c \<Rightarrow> 'c sys" where
  "init_sys c = \<lparr>comp = c, closed = {}, next_chan = 1, next_handle = 0, pcs = [],
                 released = [], readies = [], panicked = False\<rparr>"

inductive reachable :: "bool \<Rightarrow> 'c lc_ops \<Rightarrow> 'c \<Rightarrow> 'c sys \<Rightarrow> bool"
  for solo :: bool and ops :: "'c lc_ops" and c0 :: 'c where
  start: "reachable solo ops c0 (init_sys c0)"
| step: "reachable solo ops c0 s \<Longrightarrow> sys_step solo ops e s = Some s' \<Longrightarrow> reachable solo ops c0 s'"

lemma reachable_run:
  "reachable solo ops c0 s \<Longrightarrow> sys_run solo ops es s = Some s' \<Longrightarrow> reachable solo ops c0 s'"
  by (induction es arbitrary: s) (auto split: option.splits intro: reachable.step)

text \<open>What a step can be: one case for each kind, with the goroutine it moves.\<close>

lemma sys_step_cases [consumes 1, case_names Begin Publish Fail Ready Wake Swap Taken Check Close Drop]:
  assumes "sys_step solo ops e s = Some s'"
  obtains
    "e = StartBegin" "solo \<longrightarrow> (\<forall>p \<in> set (pcs s). waits_on p = None)"
      "s' = s\<lparr>comp := op_begin ops (next_chan s) (comp s), next_chan := Suc (next_chan s),
              pcs := pcs s @ [Connecting (next_chan s)]\<rparr>"
  | t ch where "t < length (pcs s)" "pcs s ! t = Connecting ch"
      "s' = set_pc t (Published ch)
        (s\<lparr>comp := op_publish ops (next_handle s) (comp s), next_handle := Suc (next_handle s)\<rparr>)"
  | t ch err where "t < length (pcs s)" "pcs s ! t = Connecting ch" "s' = set_pc t (Returned err) s"
  | t ch where "t < length (pcs s)" "pcs s ! t = Published ch"
      "s' = set_pc t (Blocked ch) (s\<lparr>readies := readies s @ [t]\<rparr>)"
  | t ch where "t < length (pcs s)" "pcs s ! t = Blocked ch" "s' = set_pc t (Returned None) s"
  | "e = StopSwap"
      "s' = s\<lparr>comp := op_swap ops (next_chan s) (comp s),
              closed := insert (next_chan s) (closed s), next_chan := Suc (next_chan s),
              pcs := pcs s @ [Swapped (op_stop_ch ops (comp s)) (op_handle ops (comp s))]\<rparr>"
  | t ch h where "t < length (pcs s)" "pcs s ! t = Swapped ch h" "ch \<in> closed s"
      "s' = set_pc t (Signalled h) s"
  | t ch h where "t < length (pcs s)" "pcs s ! t = Swapped ch h" "ch \<notin> closed s"
      "s' = set_pc t (Closing ch h) s"
  | t ch h where "t < length (pcs s)" "pcs s ! t = Closing ch h"
      "s' = set_pc t (Signalled h)
        (s\<lparr>closed := insert ch (closed s), panicked := panicked s \<or> ch \<in> closed s\<rparr>)"
  | t h where "t < length (pcs s)" "pcs s ! t = Signalled h"
      "s' = set_pc t Stopped
        (s\<lparr>released := (case h of None \<Rightarrow> released s | Some x \<Rightarrow> released s @ [x])\<rparr>)"
proof (cases e)
  case StartBegin
  with assms show ?thesis using that(1)
    by (auto simp: pc_at_def split: if_splits pc.splits)
next
  case (ConnectOk t)
  with assms show ?thesis using that(2)
    by (auto simp: pc_at_def split: if_splits pc.splits)
next
  case (ConnectFail t x)
  with assms show ?thesis using that(3)
    by (auto simp: pc_at_def split: if_splits pc.splits)
next
  case (CallReady t)
  with assms show ?thesis using that(4)
    by (auto simp: pc_at_def split: if_splits pc.splits)
next
  case (Wake t)
  with assms show ?thesis using that(5)
    by (auto simp: pc_at_def split: if_splits pc.splits)
next
  case (CtxDone t)
  with assms show ?thesis using that(5)
    by (auto simp: pc_at_def split: if_splits pc.splits)
next
  case StopSwap
  with assms show ?thesis using that(6)
    by (auto simp: pc_at_def split: if_splits pc.splits)
next
  case (SignalCheck t)
  with assms show ?thesis using that(7,8)
    by (auto simp: pc_at_def split: if_splits pc.splits)
next
  case (SignalClose t)
  with assms show ?thesis using that(9)
    by (auto simp: pc_at_def split: if_splits pc.splits)
next
  case (Release t)
  with assms show ?thesis using that(10)
    by (auto simp: pc_at_def split: if_splits pc.splits)
qed

section \<open>Invariants\<close>

text \<open>
  Who may close what: a channel that is still open is held by at most one \<open>Stop\<close>, and not
  while it is the component's own \<open>stopCh\<close>; a \<open>Stop\<close> about to close holds an open channel.
\<close>

definition holder :: "pc list \<Rightarrow> nat \<Rightarrow> chan \<Rightarrow> bool" where
  "holder ps t ch \<longleftrightarrow> t < length ps \<and> holds (ps ! t) = Some ch"

definition carrier :: "pc list \<Rightarrow> nat \<Rightarrow> handle \<Rightarrow> bool" where
  "carrier ps t h \<longleftrightarrow> t < length ps \<and> carries (ps ! t) = Some h"

definition closer :: "pc list \<Rightarrow> nat \<Rightarrow> chan \<Rightarrow> bool" where
  "closer ps t ch \<longleftrightarrow> t < length ps \<and> (\<exists>h. ps ! t = Closing ch h)"

definition chan_inv :: "'c lc_ops \<Rightarrow> 'c sys \<Rightarrow> bool" where
  "chan_inv ops s \<longleftrightarrow>
     op_stop_ch ops (comp s) < next_chan s \<and> (\<forall>ch \<in> closed s. ch < next_chan s) \<and>
     (\<forall>t ch. holder (pcs s) t ch \<longrightarrow> ch < next_chan s) \<and>
     (\<forall>t ch. holder (pcs s) t ch \<longrightarrow> ch \<notin> closed s \<longrightarrow> ch \<noteq> op_stop_ch ops (comp s)) \<and>
     (\<forall>t u ch. holder (pcs s) t ch \<longrightarrow> holder (pcs s) u ch \<longrightarrow> ch \<notin> closed s \<longrightarrow> t = u) \<and>
     (\<forall>t ch. closer (pcs s) t ch \<longrightarrow> ch \<notin> closed s)"

text \<open>A handle is the component's, or one \<open>Stop\<close>'s to release, or released, never two of these.\<close>

definition handle_inv :: "'c lc_ops \<Rightarrow> 'c sys \<Rightarrow> bool" where
  "handle_inv ops s \<longleftrightarrow>
     distinct (released s) \<and> (\<forall>h \<in> set (released s). h < next_handle s) \<and>
     (\<forall>h. op_handle ops (comp s) = Some h \<longrightarrow>
        h < next_handle s \<and> h \<notin> set (released s) \<and> (\<forall>t. \<not> carrier (pcs s) t h)) \<and>
     (\<forall>t h. carrier (pcs s) t h \<longrightarrow> h < next_handle s \<and> h \<notin> set (released s)) \<and>
     (\<forall>t u h. carrier (pcs s) t h \<longrightarrow> carrier (pcs s) u h \<longrightarrow> t = u)"

text \<open>The channel of a running \<open>Start\<close> is current, or closed, or some \<open>Stop\<close> will close it.\<close>

definition wake_inv :: "'c lc_ops \<Rightarrow> 'c sys \<Rightarrow> bool" where
  "wake_inv ops s \<longleftrightarrow>
     (\<forall>p \<in> set (pcs s). \<forall>ch. waits_on p = Some ch \<longrightarrow>
        ch = op_stop_ch ops (comp s) \<or> ch \<in> closed s \<or> (\<exists>u. holder (pcs s) u ch))"

text \<open>\<open>ready()\<close> is called at most once by a run, after it published, never by a failed one.\<close>

definition ready_inv :: "'c sys \<Rightarrow> bool" where
  "ready_inv s \<longleftrightarrow>
     distinct (readies s) \<and>
     (\<forall>t \<in> set (readies s). t < length (pcs s) \<and>
        ((\<exists>ch. pcs s ! t = Blocked ch) \<or> pcs s ! t = Returned None))"

lemma set_pc_sel [simp]:
  "comp (set_pc t p s) = comp s" "closed (set_pc t p s) = closed s"
  "next_chan (set_pc t p s) = next_chan s" "next_handle (set_pc t p s) = next_handle s"
  "released (set_pc t p s) = released s" "readies (set_pc t p s) = readies s"
  "panicked (set_pc t p s) = panicked s" "pcs (set_pc t p s) = (pcs s)[t := p]"
  by (simp_all add: set_pc_def)

lemma holder_simps [simp]:
  "holder (ps @ [p]) u ch \<longleftrightarrow> holder ps u ch \<or> u = length ps \<and> holds p = Some ch"
  "t < length ps \<Longrightarrow>
     holder (ps[t := p]) u ch \<longleftrightarrow> (if u = t then holds p = Some ch else holder ps u ch)"
  by (auto simp: holder_def nth_append less_Suc_eq)

lemma carrier_simps [simp]:
  "carrier (ps @ [p]) u h \<longleftrightarrow> carrier ps u h \<or> u = length ps \<and> carries p = Some h"
  "t < length ps \<Longrightarrow>
     carrier (ps[t := p]) u h \<longleftrightarrow> (if u = t then carries p = Some h else carrier ps u h)"
  by (auto simp: carrier_def nth_append less_Suc_eq)

lemma closer_simps [simp]:
  "closer (ps @ [p]) u ch \<longleftrightarrow> closer ps u ch \<or> u = length ps \<and> (\<exists>h. p = Closing ch h)"
  "t < length ps \<Longrightarrow>
     closer (ps[t := p]) u ch \<longleftrightarrow> (if u = t then \<exists>h. p = Closing ch h else closer ps u ch)"
  by (auto simp: closer_def nth_append less_Suc_eq)

lemma in_set_updateD: "p \<in> set (ps[t := q]) \<Longrightarrow> p = q \<or> p \<in> set ps"
  by (metis insertE set_update_subset_insert subsetD)

lemma closer_holder: "closer ps t ch \<Longrightarrow> holder ps t ch"
  by (auto simp: closer_def holder_def)

lemma at_length [simp]: "\<not> holder ps (length ps) ch" "\<not> carrier ps (length ps) h"
  "\<not> closer ps (length ps) ch"
  by (simp_all add: holder_def carrier_def closer_def)

text \<open>
  What the protocol promises, of any component that runs it and for every interleaving: no channel
  is closed twice; no handle is closed twice, and the component never holds a closed one; a run
  signals ready at most once, and not if it fails; a \<open>Stop\<close> that has not returned always has a next
  step of its own, whatever the others do. Under a supervisor that starts no run while another is
  in progress, a blocked \<open>Start\<close> whose channel was replaced can return once every \<open>Stop\<close> is past its
  signal. What an operation does with a handle it fetched before a \<open>Stop\<close> is not part of this.
\<close>

definition lifecycle_contract :: "'c lc_ops \<Rightarrow> 'c \<Rightarrow> bool" where
  "lifecycle_contract ops c0 \<longleftrightarrow>
     (\<forall>solo s. reachable solo ops c0 s \<longrightarrow>
        \<not> panicked s \<and> distinct (released s) \<and>
        (\<forall>h. op_handle ops (comp s) = Some h \<longrightarrow> h \<notin> set (released s)) \<and> distinct (readies s) \<and>
        (\<forall>t < length (pcs s). \<forall>e. pcs s ! t = Returned (Some e) \<longrightarrow> t \<notin> set (readies s))) \<and>
     (\<forall>s t ch. reachable True ops c0 s \<longrightarrow> t < length (pcs s) \<longrightarrow> pcs s ! t = Blocked ch \<longrightarrow>
        ch \<noteq> op_stop_ch ops (comp s) \<longrightarrow> (\<forall>p \<in> set (pcs s). holds p = None) \<longrightarrow>
        sys_step True ops (Wake t) s = Some (set_pc t (Returned None) s)) \<and>
     (\<forall>solo s t. t < length (pcs s) \<longrightarrow> waits_on (pcs s ! t) = None \<longrightarrow> \<not> finished (pcs s ! t) \<longrightarrow>
        (\<exists>e s'. sys_step solo ops e s = Some s' \<and> pcs s' ! t \<noteq> pcs s ! t))"

text \<open>The gap: after these events every run has finished, and handle 0 is left unreleased.\<close>

definition early_stop :: "event list" where
  "early_stop = [StartBegin, StopSwap, SignalCheck 1, SignalClose 1, Release 1,
                 ConnectOk 0, CallReady 0, Wake 0]"

definition leaks_on_early_stop :: "'c lc_ops \<Rightarrow> 'c \<Rightarrow> bool" where
  "leaks_on_early_stop ops c0 \<longleftrightarrow>
     (\<exists>s. sys_run True ops early_stop (init_sys c0) = Some s \<and>
        (\<forall>p \<in> set (pcs s). finished p) \<and> op_handle ops (comp s) = Some 0 \<and>
        released s = [] \<and> readies s = [0])"

text \<open>
  The signalling half of the protocol: what the three sections do to the stop channel. It is all
  that is needed for channels to be closed once, for \<open>ready\<close>, and for a \<open>Stop\<close> to be heard.
\<close>

locale stop_signal =
  fixes ops :: "'c lc_ops" and c0 :: 'c
  assumes new_stop_ch: "op_stop_ch ops c0 = 0"
    and begin_stop_ch: "op_stop_ch ops (op_begin ops ch c) = ch"
    and publish_stop_ch: "op_stop_ch ops (op_publish ops h c) = op_stop_ch ops c"
    and swap_stop_ch: "op_stop_ch ops (op_swap ops ch c) = ch"
begin

lemmas signal_laws = new_stop_ch begin_stop_ch publish_stop_ch swap_stop_ch

lemma chan_inv_init: "chan_inv ops (init_sys c0)"
  by (simp add: chan_inv_def init_sys_def signal_laws holder_def closer_def)

lemma chan_inv_step:
  assumes "sys_step solo ops e s = Some s'" and inv: "chan_inv ops s"
  shows "chan_inv ops s'"
  using assms(1)
proof (cases rule: sys_step_cases)
  case Begin
  then show ?thesis using inv by (auto simp: chan_inv_def signal_laws less_Suc_eq)
next
  case (Publish t ch)
  then show ?thesis using inv by (auto simp: chan_inv_def signal_laws)
next
  case (Fail t ch err)
  then show ?thesis using inv by (auto simp: chan_inv_def signal_laws)
next
  case (Ready t ch)
  then show ?thesis using inv by (auto simp: chan_inv_def signal_laws)
next
  case (Wake t ch)
  then show ?thesis using inv by (auto simp: chan_inv_def signal_laws)
next
  case Swap
  have "\<not> closer (pcs s) u (next_chan s)" for u
    using inv closer_holder [of "pcs s" u "next_chan s"] by (auto simp: chan_inv_def)
  with Swap show ?thesis using inv by (auto simp: chan_inv_def signal_laws less_Suc_eq)
next
  case (Taken t ch h)
  then show ?thesis using inv by (auto simp: chan_inv_def signal_laws)
next
  case (Check t ch h)
  then have "holder (pcs s) t ch" by (simp add: holder_def)
  with Check show ?thesis using inv by (auto simp: chan_inv_def)
next
  case (Close t ch h)
  then have "holder (pcs s) t ch" by (simp add: holder_def)
  moreover have "u = t" if "closer (pcs s) u ch" for u
    using that closer_holder [OF that] calculation inv by (auto simp: chan_inv_def)
  ultimately show ?thesis using Close inv by (auto simp: chan_inv_def)
next
  case (Drop t h)
  then show ?thesis using inv by (auto simp: chan_inv_def signal_laws)
qed

lemma no_panic_step:
  assumes "sys_step solo ops e s = Some s'" and "chan_inv ops s" and "\<not> panicked s"
  shows "\<not> panicked s'"
  using assms(1)
proof (cases rule: sys_step_cases)
  case (Close t ch h)
  then have "closer (pcs s) t ch" by (simp add: closer_def)
  with assms(2) have "ch \<notin> closed s" by (auto simp: chan_inv_def)
  with Close assms(3) show ?thesis by simp
qed (use assms(3) in simp_all)

lemma ready_inv_init: "ready_inv (init_sys c0)"
  by (simp add: ready_inv_def init_sys_def)

lemma ready_inv_step:
  assumes "sys_step solo ops e s = Some s'" and "ready_inv s"
  shows "ready_inv s'"
  using assms(1)
  by (cases rule: sys_step_cases)
    (use assms(2) in \<open>auto simp: ready_inv_def nth_append nth_list_update\<close>)

lemma wake_inv_init: "wake_inv ops (init_sys c0)"
  by (simp add: wake_inv_def init_sys_def)

lemma wake_inv_step:
  assumes "sys_step True ops e s = Some s'" and inv: "wake_inv ops s"
  shows "wake_inv ops s'"
  using assms(1)
proof (cases rule: sys_step_cases)
  case Begin
  then show ?thesis by (auto simp: wake_inv_def signal_laws)
next
  case (Publish t ch)
  then have "Connecting ch \<in> set (pcs s)" "\<And>x. \<not> holder (pcs s) t x"
    by (auto simp: holder_def) (metis nth_mem)
  with Publish show ?thesis using inv
    by (fastforce simp: wake_inv_def signal_laws dest!: in_set_updateD)
next
  case (Fail t ch err)
  then have "\<And>x. \<not> holder (pcs s) t x" by (auto simp: holder_def)
  with Fail show ?thesis using inv by (fastforce simp: wake_inv_def dest!: in_set_updateD)
next
  case (Ready t ch)
  then have "Published ch \<in> set (pcs s)" "\<And>x. \<not> holder (pcs s) t x"
    by (auto simp: holder_def) (metis nth_mem)
  with Ready show ?thesis using inv by (fastforce simp: wake_inv_def dest!: in_set_updateD)
next
  case (Wake t ch)
  then have "\<And>x. \<not> holder (pcs s) t x" by (auto simp: holder_def)
  with Wake show ?thesis using inv by (fastforce simp: wake_inv_def dest!: in_set_updateD)
next
  case Swap
  then show ?thesis using inv by (fastforce simp: wake_inv_def signal_laws)
next
  case (Taken t ch h)
  then have "holder (pcs s) t x \<longleftrightarrow> x = ch" for x by (auto simp: holder_def)
  with Taken show ?thesis using inv by (fastforce simp: wake_inv_def dest!: in_set_updateD)
next
  case (Check t ch h)
  then have "holder (pcs s) t x \<longleftrightarrow> x = ch" for x by (auto simp: holder_def)
  with Check show ?thesis using inv by (fastforce simp: wake_inv_def dest!: in_set_updateD)
next
  case (Close t ch h)
  then have "holder (pcs s) t x \<longleftrightarrow> x = ch" for x by (auto simp: holder_def)
  with Close show ?thesis using inv by (fastforce simp: wake_inv_def dest!: in_set_updateD)
next
  case (Drop t h)
  then have "\<And>x. \<not> holder (pcs s) t x" by (auto simp: holder_def)
  with Drop show ?thesis using inv by (fastforce simp: wake_inv_def dest!: in_set_updateD)
qed

text \<open>The invariants hold in every reachable state.\<close>

lemma reachable_signal:
  "reachable solo ops c0 s \<Longrightarrow> chan_inv ops s \<and> \<not> panicked s \<and> ready_inv s"
proof (induction rule: reachable.induct)
  case start
  show ?case using chan_inv_init ready_inv_init by (simp add: init_sys_def)
next
  case (step s e s')
  then show ?case using chan_inv_step no_panic_step ready_inv_step by blast
qed

lemma reachable_wake_inv: "reachable True ops c0 s \<Longrightarrow> wake_inv ops s"
  by (induction rule: reachable.induct) (auto intro: wake_inv_init wake_inv_step)

text \<open>No interleaving of any number of runs closes a channel twice.\<close>

lemma never_panics: "reachable solo ops c0 s \<Longrightarrow> \<not> panicked s"
  using reachable_signal by blast

lemma ready_once:
  "reachable solo ops c0 s \<Longrightarrow>
     distinct (readies s) \<and> (\<forall>t < length (pcs s). \<forall>e. pcs s ! t = Returned (Some e) \<longrightarrow> t \<notin> set (readies s))"
  using reachable_signal unfolding ready_inv_def by fastforce

text \<open>
  \<open>Stop\<close> is heard: under a supervisor, once a \<open>Stop\<close> has replaced the \<open>stopCh\<close> of a blocked
  \<open>Start\<close> and every \<open>Stop\<close> has got past its signal, that \<open>Start\<close> can return nil.
\<close>

lemma stop_wakes_start:
  assumes "reachable True ops c0 s" and "t < length (pcs s)" and "pcs s ! t = Blocked ch"
    and "ch \<noteq> op_stop_ch ops (comp s)" and "\<forall>p \<in> set (pcs s). holds p = None"
  shows "sys_step True ops (Wake t) s = Some (set_pc t (Returned None) s)"
proof -
  from assms(2,3) have "Blocked ch \<in> set (pcs s)" by (metis nth_mem)
  moreover have "\<not> holder (pcs s) u ch" for u
    using assms(5) by (auto simp: holder_def)
  ultimately have "ch \<in> closed s"
    using reachable_wake_inv [OF assms(1)] assms(4) by (fastforce simp: wake_inv_def)
  with assms(2,3) show ?thesis by (simp add: pc_at_def)
qed

text \<open>A \<open>Stop\<close> never waits for another goroutine: until it is finished it has a next step.\<close>

lemma stop_progress:
  assumes "t < length (pcs s)" and "waits_on (pcs s ! t) = None" and "\<not> finished (pcs s ! t)"
  shows "\<exists>e s'. sys_step solo ops e s = Some s' \<and> pcs s' ! t \<noteq> pcs s ! t"
proof (cases "pcs s ! t")
  case (Swapped ch h)
  then show ?thesis using assms(1) by (intro exI [of _ "SignalCheck t"]) (simp add: pc_at_def)
next
  case (Closing ch h)
  then show ?thesis using assms(1) by (intro exI [of _ "SignalClose t"]) (simp add: pc_at_def)
next
  case (Signalled h)
  then show ?thesis using assms(1) by (intro exI [of _ "Release t"]) (simp add: pc_at_def)
qed (use assms in simp_all)

end

text \<open>The protocol of a component that holds a handle: what the sections do to it.\<close>

locale lifecycle = stop_signal +
  assumes new_handle: "op_handle ops c0 = None"
    and begin_handle: "op_handle ops (op_begin ops ch c) = op_handle ops c"
    and publish_handle: "op_handle ops (op_publish ops h c) = Some h"
    and swap_handle: "op_handle ops (op_swap ops ch c) = None"
begin

lemmas laws = signal_laws new_handle begin_handle publish_handle swap_handle

lemma handle_inv_init: "handle_inv ops (init_sys c0)"
  by (simp add: handle_inv_def init_sys_def laws carrier_def)

lemma handle_inv_step:
  assumes "sys_step solo ops e s = Some s'" and inv: "handle_inv ops s"
  shows "handle_inv ops s'"
  using assms(1)
proof (cases rule: sys_step_cases)
  case Begin
  then show ?thesis using inv by (auto simp: handle_inv_def laws)
next
  case (Publish t ch)
  then show ?thesis using inv by (auto simp: handle_inv_def laws less_Suc_eq)
next
  case (Fail t ch err)
  then show ?thesis using inv by (auto simp: handle_inv_def laws)
next
  case (Ready t ch)
  then show ?thesis using inv by (auto simp: handle_inv_def laws)
next
  case (Wake t ch)
  then show ?thesis using inv by (auto simp: handle_inv_def laws)
next
  case Swap
  then show ?thesis using inv by (auto simp: handle_inv_def laws)
next
  case (Taken t ch h)
  then have "h = Some x \<Longrightarrow> carrier (pcs s) t x" for x by (simp add: carrier_def)
  with Taken show ?thesis using inv by (cases h) (auto simp: handle_inv_def)
next
  case (Check t ch h)
  then have "h = Some x \<Longrightarrow> carrier (pcs s) t x" for x by (simp add: carrier_def)
  with Check show ?thesis using inv by (cases h) (auto simp: handle_inv_def)
next
  case (Close t ch h)
  then have "h = Some x \<Longrightarrow> carrier (pcs s) t x" for x by (simp add: carrier_def)
  with Close show ?thesis using inv by (cases h) (auto simp: handle_inv_def)
next
  case (Drop t h)
  then have "h = Some x \<Longrightarrow> carrier (pcs s) t x" for x by (simp add: carrier_def)
  with Drop show ?thesis using inv by (cases h) (auto simp: handle_inv_def)
qed

lemma reachable_handle_inv: "reachable solo ops c0 s \<Longrightarrow> handle_inv ops s"
  by (induction rule: reachable.induct) (auto intro: handle_inv_init handle_inv_step)

text \<open>No driver handle is closed twice, and the component's own handle is not a closed one.\<close>

lemma released_once:
  "reachable solo ops c0 s \<Longrightarrow>
     distinct (released s) \<and> (\<forall>h. op_handle ops (comp s) = Some h \<longrightarrow> h \<notin> set (released s))"
  using reachable_handle_inv unfolding handle_inv_def by blast

text \<open>
  The one gap of the protocol: a \<open>Stop\<close> that runs while \<open>Start\<close> is still connecting finds no
  handle. \<open>Start\<close> then publishes its handle, signals ready and returns at once; the handle
  stays in the component, unreleased, although every run has finished.
\<close>

lemma early_stop_leaks: "leaks_on_early_stop ops c0"
  by (simp add: leaks_on_early_stop_def early_stop_def init_sys_def pc_at_def set_pc_def laws)

lemma contract: "lifecycle_contract ops c0"
  unfolding lifecycle_contract_def
  using never_panics released_once ready_once stop_wakes_start stop_progress by blast

text \<open>
  A \<open>Stop\<close> that comes when a handle is published takes it: the component holds none
  afterwards, and this \<open>Stop\<close> carries it to its release.
\<close>

lemma stop_takes_handle:
  assumes "sys_step solo ops StopSwap s = Some s'"
  shows "op_handle ops (comp s') = None \<and>
    carries (pcs s' ! length (pcs s)) = op_handle ops (comp s)"
  using assms by (auto simp: laws)

end

text \<open>
  What else a module's sections keep: its configuration, and fields that go with the handle.
\<close>

locale lifecycle_state = lifecycle +
  fixes keeps :: "'c \<Rightarrow> bool"
  assumes new_keeps: "keeps c0"
    and begin_keeps: "keeps c \<Longrightarrow> keeps (op_begin ops ch c)"
    and publish_keeps: "keeps c \<Longrightarrow> keeps (op_publish ops h c)"
    and swap_keeps: "keeps c \<Longrightarrow> keeps (op_swap ops ch c)"
begin

lemma step_keeps: "sys_step solo ops e s = Some s' \<Longrightarrow> keeps (comp s) \<Longrightarrow> keeps (comp s')"
  by (cases rule: sys_step_cases) (auto intro: begin_keeps publish_keeps swap_keeps)

lemma reachable_keeps: "reachable solo ops c0 s \<Longrightarrow> keeps (comp s)"
  by (induction rule: reachable.induct) (auto simp: init_sys_def intro: new_keeps step_keeps)

end

text \<open>
  What \<open>Health\<close> promises of a component under the protocol: it passes only while the component
  holds a handle that some \<open>Start\<close> has opened and no \<open>Stop\<close> has closed or is about to close; so it
  fails from a \<open>Stop\<close> on until a \<open>Start\<close> has published again.
\<close>

definition health_contract ::
  "'c lc_ops \<Rightarrow> 'c \<Rightarrow> ('c \<Rightarrow> bool) \<Rightarrow> ('c \<Rightarrow> 'x \<Rightarrow> goerr option) \<Rightarrow> bool" where
  "health_contract ops c0 keeps health \<longleftrightarrow>
     (\<forall>solo s x. reachable solo ops c0 s \<longrightarrow>
        keeps (comp s) \<and>
        (health (comp s) x = None \<longrightarrow>
           (\<exists>h. op_handle ops (comp s) = Some h \<and> h < next_handle s \<and> h \<notin> set (released s) \<and>
              (\<forall>p \<in> set (pcs s). carries p \<noteq> Some h))) \<and>
        (\<forall>s'. sys_step solo ops StopSwap s = Some s' \<longrightarrow> health (comp s') x \<noteq> None))"

locale health_checked = lifecycle_state +
  fixes health :: "'c \<Rightarrow> 'x \<Rightarrow> goerr option"
  assumes needs_handle: "op_handle ops c = None \<Longrightarrow> health c x \<noteq> None"
begin

lemma healthy_handle:
  assumes "reachable solo ops c0 s" and "health (comp s) x = None"
  obtains h where "op_handle ops (comp s) = Some h" "h < next_handle s" "h \<notin> set (released s)"
    "\<forall>p \<in> set (pcs s). carries p \<noteq> Some h"
proof -
  from assms(2) needs_handle [of "comp s" x] obtain h where h: "op_handle ops (comp s) = Some h" by auto
  with reachable_handle_inv [OF assms(1)]
  have "h < next_handle s \<and> h \<notin> set (released s) \<and> (\<forall>t. \<not> carrier (pcs s) t h)"
    by (simp add: handle_inv_def)
  with h that show ?thesis by (metis carrier_def in_set_conv_nth)
qed

lemma stopped_unhealthy: "sys_step solo ops StopSwap s = Some s' \<Longrightarrow> health (comp s') x \<noteq> None"
  by (rule needs_handle) (auto simp: swap_handle)

lemma checked: "health_contract ops c0 keeps health"
  unfolding health_contract_def
  using reachable_keeps stopped_unhealthy by (meson healthy_handle)

end

end
