(* ===== verification/Tls.thy ===== *)
theory Tls
  imports Go_Errors
begin

text \<open>
  What the TLS builders of redis, grpc and grpcclient use of \<open>crypto/tls\<close>, \<open>crypto/x509\<close>
  and \<open>os\<close>. Reading a file and loading a key pair depend on the file system: they are the
  fields of an environment record, an argument of the builders.
\<close>

datatype tls_version = VersionTLS12 | VersionTLS13

datatype client_auth = NoClientCert | RequireAndVerifyClientCert

record tls_config =
  tc_InsecureSkipVerify :: bool
  tc_MinVersion :: tls_version
  tc_ServerName :: string
  tc_RootCAs :: "string option"
  tc_Certificates :: "nat list"
  tc_ClientCAs :: "string option"
  tc_ClientAuth :: client_auth

record tls_env =
  os_ReadFile :: "string \<Rightarrow> string result"
  pem_has_certs :: "string \<Rightarrow> bool"
  tls_LoadX509KeyPair :: "string \<Rightarrow> string \<Rightarrow> nat result"

text \<open>The \<open>switch c.TLSMinVersion\<close> all three builders contain; None is its default branch.\<close>

definition min_version :: "string \<Rightarrow> tls_version option" where
  "min_version v =
     (if v = '''' \<or> v = ''1.2'' then Some VersionTLS12
      else if v = ''1.3'' then Some VersionTLS13 else None)"

text \<open>Reading a CA bundle and adding it to a fresh pool; the two errors carry the caller's text.\<close>

definition load_pool :: "tls_env \<Rightarrow> string \<Rightarrow> string \<Rightarrow> string \<Rightarrow> string result" where
  "load_pool env read_err none_err file =
     (case os_ReadFile env file of
        Inl e \<Rightarrow> Inl (Errorf read_err [AStr file] [e])
      | Inr pem \<Rightarrow>
          if \<not> pem_has_certs env pem then Inl (Errorf none_err [AStr file] []) else Inr pem)"

lemma min_version_cases:
  "min_version v = None \<longleftrightarrow> v \<noteq> '''' \<and> v \<noteq> ''1.2'' \<and> v \<noteq> ''1.3''"
  by (simp add: min_version_def)

lemma load_pool_Inr: "load_pool env r n f = Inr p \<Longrightarrow> os_ReadFile env f = Inr p \<and> pem_has_certs env p"
  by (simp add: load_pool_def split: sum.splits if_splits)

end
