(* ===== verification/Paging.thy ===== *)
theory Paging
  imports Observe
begin

text \<open>
  Listings that arrive in pages. The \<open>SCAN\<close> of redis and the \<open>ListObjectsV2\<close> of s3 answer with some
  keys and a cursor for the next request, or with the end; the modules loop over them. The
  specification is the relation \<open>paged\<close>, which has nothing to say of a listing without an end; the
  locale \<open>paging\<close> is the interface of a loop that implements it, exactly.
\<close>

type_synonym ('c, 'a, 's) fetcher = "'c \<Rightarrow> 's \<Rightarrow> (goerr + 'a list \<times> 'c option) \<times> 's"

text \<open>
  \<open>paged fetch c s res s'\<close>: asking from cursor \<open>c\<close> on until an answer carries no cursor, or is an
  error, gives all the keys in order, or that error, and leaves the state \<open>s'\<close>.
\<close>

inductive paged :: "('c, 'a, 's) fetcher \<Rightarrow> 'c \<Rightarrow> 's \<Rightarrow> 'a list result \<Rightarrow> 's \<Rightarrow> bool"
  for fetch :: "('c, 'a, 's) fetcher" where
  fails: "fetch c s = (Inl e, s') \<Longrightarrow> paged fetch c s (Inl e) s'"
| ends: "fetch c s = (Inr (xs, None), s') \<Longrightarrow> paged fetch c s (Inr xs) s'"
| goes_on: "fetch c s = (Inr (xs, Some c'), s1) \<Longrightarrow> paged fetch c' s1 res s' \<Longrightarrow>
     paged fetch c s (map_sum id (\<lambda>ys. xs @ ys) res) s'"

text \<open>A result by its shape, and what one answer makes of the listing.\<close>

inductive_simps paged_iff: "paged fetch c s res s'"

lemma paged_answer:
  "fetch c s = (Inl e, s1) \<Longrightarrow> paged fetch c s res s' \<longleftrightarrow> res = Inl e \<and> s' = s1"
  "fetch c s = (Inr (xs, None), s1) \<Longrightarrow> paged fetch c s res s' \<longleftrightarrow> res = Inr xs \<and> s' = s1"
  "fetch c s = (Inr (xs, Some c'), s1) \<Longrightarrow> paged fetch c s res s' \<longleftrightarrow>
     (\<exists>r. res = map_sum id (\<lambda>ys. xs @ ys) r \<and> paged fetch c' s1 r s')"
  by (subst paged_iff; auto)+

text \<open>A set of requests from which every answer leads to another one of the set.\<close>

definition endless :: "('c, 'a, 's) fetcher \<Rightarrow> ('c \<Rightarrow> 's \<Rightarrow> bool) \<Rightarrow> bool" where
  "endless fetch I \<longleftrightarrow>
     (\<forall>c s. I c s \<longrightarrow> (\<exists>xs c' s'. fetch c s = (Inr (xs, Some c'), s') \<and> I c' s'))"

lemma endless_answer:
  assumes "endless fetch I" and "I c s" and "fetch c s = (ans, s')"
  shows "\<exists>xs c'. ans = Inr (xs, Some c') \<and> I c' s'"
proof -
  from assms(1,2) obtain xs c' s1 where "fetch c s = (Inr (xs, Some c'), s1)" "I c' s1"
    unfolding endless_def by blast
  with assms(3) show ?thesis by auto
qed

lemma endless_no_result: "paged fetch c s res s' \<Longrightarrow> endless fetch I \<Longrightarrow> \<not> I c s"
  by (induction rule: paged.induct) (auto dest: endless_answer)

lemma paged_unique: "paged fetch c s res s' \<Longrightarrow> paged fetch c s res2 s2 \<Longrightarrow> res = res2 \<and> s' = s2"
proof (induction arbitrary: res2 s2 rule: paged.induct)
  case (goes_on c s xs c' s1 res s')
  from goes_on.prems obtain r where "res2 = map_sum id (\<lambda>ys. xs @ ys) r" "paged fetch c' s1 r s2"
    unfolding paged_answer(3) [of fetch c s, OF goes_on.hyps(1)] by blast
  with goes_on.IH show ?case by blast
qed (simp_all add: paged_answer)

text \<open>What the caller of a paged operation gets: on an error no keys, and the error wrapped.\<close>

fun page_ret :: "(goerr \<Rightarrow> goerr) \<Rightarrow> 'a list \<Rightarrow> 'a list result \<Rightarrow> 'a list ret" where
  "page_ret wrap acc (Inl e) = ([], Some (wrap e))"
| "page_ret wrap acc (Inr xs) = (acc @ xs, None)"

lemma page_ret_prepend [simp]:
  "page_ret wrap acc (map_sum id (\<lambda>ys. xs @ ys) res) = page_ret wrap (acc @ xs) res"
  by (cases res) simp_all

text \<open>One turn of the loop, \<open>next\<close> being the rest of it.\<close>

definition page_turn ::
  "('c, 'a, 's) fetcher \<Rightarrow> (goerr \<Rightarrow> goerr) \<Rightarrow>
   ('c \<Rightarrow> 'a list \<Rightarrow> 's \<Rightarrow> ('a list ret \<times> 's) option) \<Rightarrow>
   'c \<Rightarrow> 'a list \<Rightarrow> 's \<Rightarrow> ('a list ret \<times> 's) option" where
  "page_turn fetch wrap next c acc s =
     (case fetch c s of
        (Inl e, s') \<Rightarrow> Some (([], Some (wrap e)), s')
      | (Inr (xs, None), s') \<Rightarrow> Some ((acc @ xs, None), s')
      | (Inr (xs, Some c'), s') \<Rightarrow> next c' (acc @ xs) s')"

text \<open>
  The interface: the loop is a fixed point of its turn, and the least one, so that whatever holds of
  every way to return holds of its returns.
\<close>

locale paging =
  fixes fetch :: "('c, 'a, 's) fetcher" and wrap :: "goerr \<Rightarrow> goerr"
    and loop :: "'c \<Rightarrow> 'a list \<Rightarrow> 's \<Rightarrow> ('a list ret \<times> 's) option"
  assumes turn: "loop c acc s = page_turn fetch wrap loop c acc s"
    and least: "\<lbrakk>\<And>next c acc s r. \<lbrakk>\<And>c acc s r. next c acc s = Some r \<Longrightarrow> P c acc s r;
        page_turn fetch wrap next c acc s = Some r\<rbrakk> \<Longrightarrow> P c acc s r; loop c acc s = Some r\<rbrakk> \<Longrightarrow> P c acc s r"
begin

lemma complete: "paged fetch c s res s' \<Longrightarrow> loop c acc s = Some (page_ret wrap acc res, s')"
  by (induction arbitrary: acc rule: paged.induct) (simp_all add: turn page_turn_def)

lemma sound: "loop c acc s = Some r \<Longrightarrow> \<exists>res s'. paged fetch c s res s' \<and> r = (page_ret wrap acc res, s')"
proof (rule least [where P = "\<lambda>c acc s r. \<exists>res s'. paged fetch c s res s' \<and> r = (page_ret wrap acc res, s')"])
  fix "next" c acc s r
  assume IH: "\<And>c acc s r. next c acc s = Some r \<Longrightarrow>
      \<exists>res s'. paged fetch c s res s' \<and> r = (page_ret wrap acc res, s')"
    and eq: "page_turn fetch wrap next c acc s = Some r"
  obtain ans s1 where fetch: "fetch c s = (ans, s1)" by fastforce
  consider (err) e where "ans = Inl e" | (last) xs where "ans = Inr (xs, None)"
    | (more) xs c' where "ans = Inr (xs, Some c')"
    by (metis surj_pair option.exhaust sum.exhaust)
  then show "\<exists>res s'. paged fetch c s res s' \<and> r = (page_ret wrap acc res, s')"
  proof cases
    case err
    with fetch eq show ?thesis
      using paged.fails [of fetch c s e s1] by (auto simp: page_turn_def intro!: exI [of _ "Inl e"])
  next
    case last
    with fetch eq show ?thesis
      using paged.ends [of fetch c s xs s1] by (auto simp: page_turn_def intro!: exI [of _ "Inr xs"])
  next
    case more
    with fetch eq have "next c' (acc @ xs) s1 = Some r" by (simp add: page_turn_def)
    from IH [OF this] obtain res s' where "paged fetch c' s1 res s'" "r = (page_ret wrap (acc @ xs) res, s')"
      by blast
    with paged.goes_on [of fetch c s xs c' s1] fetch more show ?thesis
      by (intro exI [of _ "map_sum id (\<lambda>ys. xs @ ys) res"] exI [of _ s']) simp
  qed
qed

text \<open>The loop returns exactly what the specification says, and exactly when it says something.\<close>

theorem returns_iff:
  "loop c acc s = Some (r, s') \<longleftrightarrow> (\<exists>res. paged fetch c s res s' \<and> r = page_ret wrap acc res)"
  using complete sound by blast

theorem diverges_iff: "loop c acc s = None \<longleftrightarrow> \<not> (\<exists>res s'. paged fetch c s res s')"
proof
  assume "loop c acc s = None"
  then show "\<not> (\<exists>res s'. paged fetch c s res s')" by (metis complete option.distinct(1))
next
  assume "\<not> (\<exists>res s'. paged fetch c s res s')"
  then show "loop c acc s = None" using sound [of c acc s] by (cases "loop c acc s") auto
qed

theorem endless_diverges: "endless fetch I \<Longrightarrow> I c s \<Longrightarrow> loop c acc s = None"
  using diverges_iff [of c acc s] endless_no_result [of fetch c s] by metis

end

end
