(* ===== verification/Redis.thy ===== *)
theory Redis
  imports Observe Lifecycle Tls Paging
begin

text \<open>
  The redis module: \<open>Config\<close> and its accessors, the TLS builder, \<open>Start\<close>, \<open>Stop\<close>,
  \<open>Health\<close>, the driver options, and the ten operations of the \<open>KV\<close> interface with the two
  SCAN loops. go-redis is a parameter, the record \<open>redis_driver\<close> of its calls on an opaque
  state.
\<close>

section \<open>Configuration\<close>

record redis_config =
  rd_Host :: string
  rd_Port :: int
  rd_DB :: int
  rd_User :: string
  rd_Pass :: string
  rd_ConnectTimeout :: duration
  rd_DialTimeout :: duration
  rd_ReadTimeout :: duration
  rd_WriteTimeout :: duration
  rd_PoolSize :: int
  rd_TLS :: bool
  rd_TLSCAFile :: string
  rd_TLSCertFile :: string
  rd_TLSKeyFile :: string
  rd_TLSServerName :: string
  rd_TLSInsecureSkipVerify :: bool
  rd_TLSMinVersion :: string
  rd_OnOperation :: "sink option"

definition redis_addr :: "redis_config \<Rightarrow> string" where
  "redis_addr c =
     (let host = (if rd_Host c = '''' then ''localhost'' else rd_Host c);
          port = (if rd_Port c = 0 then 6379 else rd_Port c)
      in host_port host port)"

definition redis_onOperation :: "redis_config \<Rightarrow> sink option" where
  "redis_onOperation c = rd_OnOperation c"

definition redis_connectTimeout :: "redis_config \<Rightarrow> duration" where
  "redis_connectTimeout c = (if rd_ConnectTimeout c > 0 then rd_ConnectTimeout c else 10 * second)"

definition redis_tlsConfig :: "tls_env \<Rightarrow> redis_config \<Rightarrow> tls_config option result" where
  "redis_tlsConfig env c =
     (if \<not> rd_TLS c then Inr None
      else case min_version (rd_TLSMinVersion c) of
        None \<Rightarrow> Inl (Errorf ''redis: unsupported TLSMinVersion %q (want \"1.2\" or \"1.3\")''
                   [AStr (rd_TLSMinVersion c)] [])
      | Some v \<Rightarrow>
          (let server = (if rd_TLSServerName c \<noteq> '''' then rd_TLSServerName c else rd_Host c);
               cfg = \<lparr>tc_InsecureSkipVerify = rd_TLSInsecureSkipVerify c, tc_MinVersion = v,
                      tc_ServerName = server, tc_RootCAs = None, tc_Certificates = [],
                      tc_ClientCAs = None, tc_ClientAuth = NoClientCert\<rparr>
           in case (if rd_TLSCAFile c = '''' then Inr None
                    else map_sum id Some (load_pool env ''redis: read TLSCAFile %q: %w''
                      ''redis: TLSCAFile %q: no PEM certificates found'' (rd_TLSCAFile c))) of
                Inl e \<Rightarrow> Inl e
              | Inr pool \<Rightarrow>
                  (let cfg = cfg\<lparr>tc_RootCAs := pool\<rparr>
                   in if rd_TLSCertFile c \<noteq> '''' \<and> rd_TLSKeyFile c \<noteq> '''' then
                        (case tls_LoadX509KeyPair env (rd_TLSCertFile c) (rd_TLSKeyFile c) of
                           Inl e \<Rightarrow> Inl (Errorf ''redis: load TLS client cert/key: %w'' [] [e])
                         | Inr cert \<Rightarrow> Inr (Some (cfg\<lparr>tc_Certificates := [cert]\<rparr>)))
                      else if rd_TLSCertFile c \<noteq> '''' \<or> rd_TLSKeyFile c \<noteq> '''' then
                        Inl (Errorf ''redis: TLSCertFile and TLSKeyFile must both be set or both empty'' [] [])
                      else Inr (Some cfg))))"

section \<open>The component\<close>

record redis_options =
  ro_Addr :: string
  ro_Username :: string
  ro_Password :: string
  ro_DB :: int
  ro_DialTimeout :: duration
  ro_ReadTimeout :: duration
  ro_WriteTimeout :: duration
  ro_PoolSize :: int
  ro_TLSConfig :: "tls_config option"
  ro_Other :: "(string \<times> int) list"

record redis_comp =
  rc_cfg :: redis_config
  rc_name :: string
  rc_opts :: "(redis_options \<Rightarrow> redis_options) list"
  rc_client :: "handle option"
  rc_stopCh :: chan

definition redis_New :: "redis_config \<Rightarrow> (redis_comp \<Rightarrow> redis_comp) list \<Rightarrow> redis_comp" where
  "redis_New cfg opts =
     fold (\<lambda>opt c. opt c) opts
       \<lparr>rc_cfg = cfg, rc_name = ''redis'', rc_opts = [], rc_client = None, rc_stopCh = 0\<rparr>"

definition redis_WithName :: "string \<Rightarrow> redis_comp \<Rightarrow> redis_comp" where
  "redis_WithName name c = c\<lparr>rc_name := name\<rparr>"

definition redis_Name :: "redis_comp \<Rightarrow> string" where
  "redis_Name c = rc_name c"

definition redis_getClient :: "redis_comp \<Rightarrow> handle option" where
  "redis_getClient c = rc_client c"
definition redis_Client :: "redis_comp \<Rightarrow> handle option" where "redis_Client c = redis_getClient c"

definition redis_AddOption :: "(redis_options \<Rightarrow> redis_options) \<Rightarrow> redis_comp \<Rightarrow> redis_comp" where
  "redis_AddOption opt c = c\<lparr>rc_opts := rc_opts c @ [opt]\<rparr>"

definition redis_driverOptions :: "redis_comp \<Rightarrow> (redis_options \<Rightarrow> redis_options) list" where
  "redis_driverOptions c = rc_opts c"

text \<open>go-redis: each call takes the driver's state and returns its result and the new state.\<close>

type_synonym gval = string

record 's redis_driver =
  d_NewClient :: "redis_options \<Rightarrow> 's \<Rightarrow> handle \<times> 's"
  d_Ping :: "handle \<Rightarrow> 's \<Rightarrow> goerr option \<times> 's"
  d_Close :: "handle \<Rightarrow> 's \<Rightarrow> goerr option \<times> 's"
  d_Set :: "handle \<Rightarrow> string \<Rightarrow> gval \<Rightarrow> duration \<Rightarrow> 's \<Rightarrow> goerr option \<times> 's"
  d_SetArgsNX :: "handle \<Rightarrow> string \<Rightarrow> gval \<Rightarrow> duration \<Rightarrow> 's \<Rightarrow> goerr option \<times> 's"
  d_Get :: "handle \<Rightarrow> string \<Rightarrow> 's \<Rightarrow> string result \<times> 's"
  d_Del :: "handle \<Rightarrow> string list \<Rightarrow> 's \<Rightarrow> int result \<times> 's"
  d_Exists :: "handle \<Rightarrow> string list \<Rightarrow> 's \<Rightarrow> int result \<times> 's"
  d_Incr :: "handle \<Rightarrow> string \<Rightarrow> 's \<Rightarrow> int result \<times> 's"
  d_Expire :: "handle \<Rightarrow> string \<Rightarrow> duration \<Rightarrow> 's \<Rightarrow> bool result \<times> 's"
  d_TTL :: "handle \<Rightarrow> string \<Rightarrow> 's \<Rightarrow> duration result \<times> 's"
  d_Scan :: "handle \<Rightarrow> 64 word \<Rightarrow> string \<Rightarrow> int \<Rightarrow> 's \<Rightarrow> (string list \<times> 64 word) result \<times> 's"

section \<open>Start, Stop, Health\<close>

definition redis_begin :: "chan \<Rightarrow> redis_comp \<Rightarrow> redis_comp" where
  "redis_begin ch c = c\<lparr>rc_stopCh := ch\<rparr>"

definition redis_publish :: "handle \<Rightarrow> redis_comp \<Rightarrow> redis_comp" where
  "redis_publish h c = c\<lparr>rc_client := Some h\<rparr>"

definition redis_swap :: "chan \<Rightarrow> redis_comp \<Rightarrow> redis_comp" where
  "redis_swap ch c = c\<lparr>rc_stopCh := ch, rc_client := None\<rparr>"

definition redis_options_of :: "redis_comp \<Rightarrow> tls_config option \<Rightarrow> redis_options" where
  "redis_options_of c tls =
     fold (\<lambda>opt o'. opt o') (redis_driverOptions c)
       \<lparr>ro_Addr = redis_addr (rc_cfg c), ro_Username = rd_User (rc_cfg c),
        ro_Password = rd_Pass (rc_cfg c), ro_DB = rd_DB (rc_cfg c),
        ro_DialTimeout = rd_DialTimeout (rc_cfg c), ro_ReadTimeout = rd_ReadTimeout (rc_cfg c),
        ro_WriteTimeout = rd_WriteTimeout (rc_cfg c), ro_PoolSize = rd_PoolSize (rc_cfg c),
        ro_TLSConfig = tls, ro_Other = []\<rparr>"

text \<open>What \<open>Start\<close> does between its two critical sections: a connected client, or an error.\<close>

definition redis_connect ::
  "tls_env \<Rightarrow> 's redis_driver \<Rightarrow> redis_comp \<Rightarrow> 's st \<Rightarrow> handle result \<times> 's st" where
  "redis_connect env d c st =
     (case redis_tlsConfig env (rc_cfg c) of
        Inl e \<Rightarrow> (Inl e, st)
      | Inr tls \<Rightarrow>
          (let w = (case tls of
                      None \<Rightarrow> fst st
                    | Some t \<Rightarrow> if tc_InsecureSkipVerify t
                        then add_log Warn ''redis: TLS certificate verification disabled (InsecureSkipVerify=true)'' (fst st)
                        else fst st);
               (h, s) = d_NewClient d (redis_options_of c tls) (snd st);
               (err, s) = d_Ping d h s
           in case err of
                Some e \<Rightarrow> (Inl (Errorf ''redis: ping failed: %w'' [] [e]), (w, snd (d_Close d h s)))
              | None \<Rightarrow> (Inr h, (w, s))))"

text \<open>
  A whole \<open>Start\<close>, nothing else touching the component while it connects: the error it
  returns, whether it called \<open>ready\<close>, and the component. After \<open>ready\<close> it only waits.
\<close>

definition redis_Start ::
  "tls_env \<Rightarrow> 's redis_driver \<Rightarrow> chan \<Rightarrow> redis_comp \<Rightarrow> 's st \<Rightarrow>
   goerr option \<times> bool \<times> redis_comp \<times> 's st" where
  "redis_Start env d ch c st =
     (let c = redis_begin ch c
      in case redis_connect env d c st of
           (Inl e, st) \<Rightarrow> (Some e, False, c, st)
         | (Inr h, (w, s)) \<Rightarrow>
             (None, True, redis_publish h c, (add_log Info ''redis: connected'' w, s)))"

text \<open>
  \<open>Stop\<close>: \<open>fresh\<close> is the channel it makes and closes, \<open>cl\<close> the set of closed channels, and
  \<open>expired\<close> says whether the context ended before the client was closed.
\<close>

definition redis_Stop ::
  "'s redis_driver \<Rightarrow> chan \<Rightarrow> bool \<Rightarrow> redis_comp \<Rightarrow> chan set \<Rightarrow> 's st \<Rightarrow>
   goerr option \<times> redis_comp \<times> chan set \<times> 's st" where
  "redis_Stop d fresh expired c cl st =
     (let ch = rc_stopCh c; client = rc_client c;
          c = redis_swap fresh c; cl = insert fresh cl;
          cl = (if ch \<in> cl then cl else insert ch cl)
      in case client of
           None \<Rightarrow> (None, c, cl, st)
         | Some h \<Rightarrow>
             (let (err, s) = d_Close d h (snd st)
              in if expired
                 then (None, c, cl, (add_log Warn ''redis: client close timed out during shutdown'' (fst st), s))
                 else (map_option (\<lambda>e. Errorf ''redis: close: %w'' [] [e]) err, c, cl, (fst st, s))))"

definition redis_ErrNotReady :: goerr where
  "redis_ErrNotReady = Sentinel ''redis: client not initialised''"

definition redis_ErrNil :: goerr where
  "redis_ErrNil = Sentinel ''redis: nil''"

definition redis_Health :: "'s redis_driver \<Rightarrow> redis_comp \<Rightarrow> 's \<Rightarrow> goerr option \<times> 's" where
  "redis_Health d c s =
     (case redis_getClient c of
        None \<Rightarrow> (Some redis_ErrNotReady, s)
      | Some h \<Rightarrow> (case d_Ping d h s of
          (err, s) \<Rightarrow> (map_option (\<lambda>e. Errorf ''redis: ping: %w'' [] [e]) err, s)))"

section \<open>The KV operations\<close>

abbreviation "opSet \<equiv> ''redis.set''"
abbreviation "opSetNX \<equiv> ''redis.setnx''"
abbreviation "opGet \<equiv> ''redis.get''"
abbreviation "opDel \<equiv> ''redis.del''"
abbreviation "opExists \<equiv> ''redis.exists''"
abbreviation "opIncr \<equiv> ''redis.incr''"
abbreviation "opExpire \<equiv> ''redis.expire''"
abbreviation "opTTL \<equiv> ''redis.ttl''"
abbreviation "opScan \<equiv> ''redis.scan''"
abbreviation "opScanFunc \<equiv> ''redis.scanfunc''"

definition scanBatchSize :: int where "scanBatchSize = 100"

definition redis_record ::
  "redis_comp \<Rightarrow> string \<Rightarrow> duration \<Rightarrow> goerr option \<Rightarrow> world \<Rightarrow> world" where
  "redis_record c = record_op ''redis'' (redis_onOperation (rc_cfg c))"

definition redis_observe ::
  "redis_comp \<Rightarrow> 'a \<Rightarrow> string \<Rightarrow> duration \<Rightarrow> (handle \<Rightarrow> ('s, 'a) op) \<Rightarrow> ('s, 'a) op" where
  "redis_observe c zero =
     observe_handle ''redis'' redis_ErrNotReady (redis_onOperation (rc_cfg c)) (redis_getClient c) zero"

definition redis_observeErr ::
  "redis_comp \<Rightarrow> string \<Rightarrow> duration \<Rightarrow> (handle \<Rightarrow> 's st \<Rightarrow> goerr option \<times> 's st) \<Rightarrow> ('s, unit) op" where
  "redis_observeErr c op el fn =
     redis_observe c () op el (\<lambda>h st. case fn h st of (e, st') \<Rightarrow> (((), e), st'))"

definition redis_Set ::
  "'s redis_driver \<Rightarrow> redis_comp \<Rightarrow> string \<Rightarrow> gval \<Rightarrow> duration \<Rightarrow> duration \<Rightarrow> ('s, unit) op" where
  "redis_Set d c key v ttl el =
     redis_observeErr c opSet el (\<lambda>h st. case call (d_Set d h key v ttl) st of
       (err, st) \<Rightarrow> (map_option (\<lambda>e. Errorf ''redis set %q: %w'' [AStr key] [e]) err, st))"

definition redis_SetNX ::
  "'s redis_driver \<Rightarrow> redis_comp \<Rightarrow> string \<Rightarrow> gval \<Rightarrow> duration \<Rightarrow> duration \<Rightarrow> ('s, bool) op" where
  "redis_SetNX d c key v ttl el =
     redis_observe c False opSetNX el (\<lambda>h st. case call (d_SetArgsNX d h key v ttl) st of
       (err, st) \<Rightarrow>
         (if errors_is_opt err redis_ErrNil then (False, None)
          else case err of
            Some e \<Rightarrow> (False, Some (Errorf ''redis setnx %q: %w'' [AStr key] [e]))
          | None \<Rightarrow> (True, None), st))"

definition redis_Get ::
  "'s redis_driver \<Rightarrow> redis_comp \<Rightarrow> string \<Rightarrow> duration \<Rightarrow> ('s, string) op" where
  "redis_Get d c key el =
     redis_observe c '''' opGet el (\<lambda>h st. case call (d_Get d h key) st of
       (r, st) \<Rightarrow>
         (case r of
            Inl e \<Rightarrow> if errors_is e redis_ErrNil then ('''', Some redis_ErrNil)
                      else ('''', Some (Errorf ''redis get %q: %w'' [AStr key] [e]))
          | Inr v \<Rightarrow> (v, None), st))"

definition redis_Del ::
  "'s redis_driver \<Rightarrow> redis_comp \<Rightarrow> string list \<Rightarrow> duration \<Rightarrow> ('s, int) op" where
  "redis_Del d c keys el =
     redis_observe c 0 opDel el (\<lambda>h st.
       apfst (wrapped ''redis del: %w'' [] 0) (call (d_Del d h keys) st))"

definition redis_Exists ::
  "'s redis_driver \<Rightarrow> redis_comp \<Rightarrow> string list \<Rightarrow> duration \<Rightarrow> ('s, int) op" where
  "redis_Exists d c keys el =
     redis_observe c 0 opExists el (\<lambda>h st.
       apfst (wrapped ''redis exists: %w'' [] 0) (call (d_Exists d h keys) st))"

definition redis_Incr ::
  "'s redis_driver \<Rightarrow> redis_comp \<Rightarrow> string \<Rightarrow> duration \<Rightarrow> ('s, int) op" where
  "redis_Incr d c key el =
     redis_observe c 0 opIncr el (\<lambda>h st.
       apfst (wrapped ''redis incr %q: %w'' [AStr key] 0) (call (d_Incr d h key) st))"

definition redis_Expire ::
  "'s redis_driver \<Rightarrow> redis_comp \<Rightarrow> string \<Rightarrow> duration \<Rightarrow> duration \<Rightarrow> ('s, bool) op" where
  "redis_Expire d c key ttl el =
     redis_observe c False opExpire el (\<lambda>h st.
       apfst (wrapped ''redis expire %q: %w'' [AStr key] False) (call (d_Expire d h key ttl) st))"

definition redis_TTL ::
  "'s redis_driver \<Rightarrow> redis_comp \<Rightarrow> string \<Rightarrow> duration \<Rightarrow> ('s, duration) op" where
  "redis_TTL d c key el =
     redis_observe c 0 opTTL el (\<lambda>h st.
       apfst (wrapped ''redis ttl %q: %w'' [AStr key] 0) (call (d_TTL d h key) st))"

text \<open>
  The SCAN loop. It ends when the server answers with cursor 0; a server that never does
  keeps it running, which is the value None.
\<close>

partial_function (option) redis_scan_loop ::
  "'s redis_driver \<Rightarrow> handle \<Rightarrow> string \<Rightarrow> 64 word \<Rightarrow> string list \<Rightarrow> 's \<Rightarrow>
   (string list ret \<times> 's) option" where
  "redis_scan_loop d h pattern cursor keys s =
     (case d_Scan d h cursor pattern scanBatchSize s of
        (Inl e, s') \<Rightarrow> Some (([], Some (Errorf ''redis scan %q: %w'' [AStr pattern] [e])), s')
      | (Inr (batch, next), s') \<Rightarrow>
          (let keys' = keys @ batch
           in if next = 0 then Some ((keys', None), s')
              else redis_scan_loop d h pattern next keys' s'))"

definition redis_Scan ::
  "'s redis_driver \<Rightarrow> redis_comp \<Rightarrow> string \<Rightarrow> duration \<Rightarrow> 's st \<Rightarrow>
   (string list ret \<times> 's st) option" where
  "redis_Scan d c pattern el =
     observe_loop ''redis'' redis_ErrNotReady (redis_onOperation (rc_cfg c)) (redis_getClient c) []
       opScan el (\<lambda>h (w, s). map_option (\<lambda>(r, s'). (r, (w, s'))) (redis_scan_loop d h pattern 0 [] s))"

text \<open>The callback of \<open>ScanFunc\<close> works on a state of its own, beside the driver's.\<close>

type_synonym 'f key_fn = "string \<Rightarrow> 'f \<Rightarrow> goerr option \<times> 'f"

fun call_each :: "'f key_fn \<Rightarrow> string list \<Rightarrow> 'f \<Rightarrow> goerr option \<times> 'f" where
  "call_each fn [] f = (None, f)"
| "call_each fn (key # batch) f =
     (case fn key f of (Some e, f') \<Rightarrow> (Some e, f') | (None, f') \<Rightarrow> call_each fn batch f')"

partial_function (option) redis_scanfunc_loop ::
  "'s redis_driver \<Rightarrow> handle \<Rightarrow> string \<Rightarrow> 'f key_fn \<Rightarrow> 64 word \<Rightarrow> 's \<times> 'f \<Rightarrow>
   (goerr option \<times> 's \<times> 'f) option" where
  "redis_scanfunc_loop d h pattern fn cursor sf =
     (case d_Scan d h cursor pattern scanBatchSize (fst sf) of
        (Inl e, s') \<Rightarrow> Some (Some (Errorf ''redis scanfunc %q: %w'' [AStr pattern] [e]), s', snd sf)
      | (Inr (batch, next), s') \<Rightarrow>
          (case call_each fn batch (snd sf) of
             (Some e, f') \<Rightarrow> Some (Some e, s', f')
           | (None, f') \<Rightarrow>
               if next = 0 then Some (None, s', f')
               else redis_scanfunc_loop d h pattern fn next (s', f')))"

definition redis_ScanFunc ::
  "'s redis_driver \<Rightarrow> redis_comp \<Rightarrow> string \<Rightarrow> 'f key_fn \<Rightarrow> duration \<Rightarrow> ('s \<times> 'f) st \<Rightarrow>
   (unit ret \<times> ('s \<times> 'f) st) option" where
  "redis_ScanFunc d c pattern fn el =
     observe_loop ''redis'' redis_ErrNotReady (redis_onOperation (rc_cfg c)) (redis_getClient c) ()
       opScanFunc el (\<lambda>h (w, sf).
         map_option (\<lambda>(e, sf'). (((), e), (w, sf'))) (redis_scanfunc_loop d h pattern fn 0 sf))"

section \<open>The lifecycle\<close>

definition redis_ops :: "redis_comp lc_ops" where
  "redis_ops = \<lparr>op_stop_ch = rc_stopCh, op_handle = redis_getClient, op_begin = redis_begin,
                op_publish = redis_publish, op_swap = redis_swap\<rparr>"

lemma redis_New_sel [simp]:
  "rc_stopCh (redis_New cfg (map redis_WithName names)) = 0"
  "rc_client (redis_New cfg (map redis_WithName names)) = None"
  "rc_cfg (redis_New cfg (map redis_WithName names)) = cfg"
  by (simp_all add: redis_New_def redis_WithName_def
      fold_options [of rc_stopCh redis_WithName]
      fold_options [of rc_client redis_WithName]
      fold_options [of rc_cfg redis_WithName])

lemmas redis_sections = redis_ops_def redis_begin_def redis_publish_def redis_swap_def redis_getClient_def

interpretation redis_lc: lifecycle redis_ops "redis_New cfg (map redis_WithName names)" for cfg names
  by unfold_locales (simp_all add: redis_sections)

interpretation redis_health: health_checked redis_ops "redis_New cfg (map redis_WithName names)"
    "\<lambda>c. rc_cfg c = cfg" "\<lambda>c s. fst (redis_Health d c s)" for cfg names d
  by unfold_locales (simp_all add: redis_sections redis_Health_def)

section \<open>SCAN as a paged listing\<close>

text \<open>One answer of the server as a page: cursor 0 is the end.\<close>

definition redis_fetch :: "'s redis_driver \<Rightarrow> handle \<Rightarrow> string \<Rightarrow> (64 word, string, 's) fetcher" where
  "redis_fetch d h pattern cursor s =
     (case d_Scan d h cursor pattern scanBatchSize s of
        (Inl e, s') \<Rightarrow> (Inl e, s')
      | (Inr (batch, next), s') \<Rightarrow> (Inr (batch, if next = 0 then None else Some next), s'))"

definition redis_scan_wrap :: "string \<Rightarrow> goerr \<Rightarrow> goerr" where
  "redis_scan_wrap pattern e = Errorf ''redis scan %q: %w'' [AStr pattern] [e]"

lemma redis_scan_turn:
  "page_turn (redis_fetch d h p) (redis_scan_wrap p) loop c acc s =
     (case d_Scan d h c p scanBatchSize s of
        (Inl e, s') \<Rightarrow> Some (([], Some (Errorf ''redis scan %q: %w'' [AStr p] [e])), s')
      | (Inr (batch, next), s') \<Rightarrow>
          (let keys' = acc @ batch in if next = 0 then Some ((keys', None), s') else loop next keys' s'))"
  by (auto simp: page_turn_def redis_fetch_def redis_scan_wrap_def Let_def split: prod.splits sum.splits)

interpretation redis_pages: paging "redis_fetch d h p" "redis_scan_wrap p" "redis_scan_loop d h p" for d h p
proof unfold_locales
  show "redis_scan_loop d h p c acc s =
      page_turn (redis_fetch d h p) (redis_scan_wrap p) (redis_scan_loop d h p) c acc s" for c acc s
    unfolding redis_scan_turn by (rule redis_scan_loop.simps)
next
  fix P c acc s r
  assume step: "\<And>next c acc s r. \<lbrakk>\<And>c acc s r. next c acc s = Some r \<Longrightarrow> P c acc s r;
      page_turn (redis_fetch d h p) (redis_scan_wrap p) next c acc s = Some r\<rbrakk> \<Longrightarrow> P c acc s r"
    and ret: "redis_scan_loop d h p c acc s = Some r"
  have "d = d \<longrightarrow> h = h \<longrightarrow> p = p \<longrightarrow> P c acc s r"
  proof (rule redis_scan_loop.raw_induct
      [where P = "\<lambda>d' h' p' c acc s r. d' = d \<longrightarrow> h' = h \<longrightarrow> p' = p \<longrightarrow> P c acc s r", OF _ ret],
      intro impI)
    fix f d' h' p' c acc s r
    assume IH: "\<And>d' h' p' c acc s r. f d' h' p' c acc s = Some r \<Longrightarrow>
        d' = d \<longrightarrow> h' = h \<longrightarrow> p' = p \<longrightarrow> P c acc s r"
      and body: "(case d_Scan d' h' c p' scanBatchSize s of
        (Inl e, s') \<Rightarrow> Some (([], Some (Errorf ''redis scan %q: %w'' [AStr p'] [e])), s')
      | (Inr (batch, next), s') \<Rightarrow>
          (let keys' = acc @ batch in if next = 0 then Some ((keys', None), s') else f d' h' p' next keys' s')) = Some r"
      and eq: "d' = d" "h' = h" "p' = p"
    show "P c acc s r"
    proof (rule step [of "f d h p"])
      show "page_turn (redis_fetch d h p) (redis_scan_wrap p) (f d h p) c acc s = Some r"
        using body unfolding eq redis_scan_turn .
    qed (use IH in blast)
  qed
  then show "P c acc s r" by simp
qed

section \<open>Lemmas\<close>

lemma redis_addr_inj:
  assumes "redis_addr c = redis_addr c'"
  shows "(if rd_Host c = '''' then ''localhost'' else rd_Host c) =
         (if rd_Host c' = '''' then ''localhost'' else rd_Host c')"
    and "(if rd_Port c = 0 then 6379 else rd_Port c) = (if rd_Port c' = 0 then 6379 else rd_Port c')"
  using assms by (simp_all add: redis_addr_def Let_def host_port_inj)

lemma call_each_append:
  "call_each fn (xs @ ys) f =
     (case call_each fn xs f of (Some e, f') \<Rightarrow> (Some e, f') | (None, f') \<Rightarrow> call_each fn ys f')"
  by (induction xs arbitrary: f) (auto split: prod.splits option.splits)

text \<open>A server that answers the pages \<open>pages\<close>, in order, and then cursor 0.\<close>

fun serves :: "'s redis_driver \<Rightarrow> handle \<Rightarrow> string \<Rightarrow> 64 word \<Rightarrow> 's \<Rightarrow> string list list \<Rightarrow> 's \<Rightarrow> bool" where
  "serves d h pattern cursor s [] s' = False"
| "serves d h pattern cursor s (b # bs) s' =
     (case d_Scan d h cursor pattern scanBatchSize s of
        (Inl e, _) \<Rightarrow> False
      | (Inr (batch, next), s1) \<Rightarrow>
          batch = b \<and> (if next = 0 then bs = [] \<and> s1 = s' else serves d h pattern next s1 bs s'))"

lemma servesE:
  assumes "serves d h pattern cursor s (b # bs) s'"
  obtains nx s1 where "d_Scan d h cursor pattern scanBatchSize s = (Inr (b, nx), s1)"
    and "if nx = 0 then bs = [] \<and> s1 = s' else serves d h pattern nx s1 bs s'"
  using assms by (auto split: prod.splits sum.splits)

lemma serves_paged: "serves d h p cursor s pages s' \<Longrightarrow> paged (redis_fetch d h p) cursor s (Inr (concat pages)) s'"
proof (induction pages arbitrary: cursor s)
  case (Cons b bs)
  from Cons.prems obtain nx s1
    where scan: "d_Scan d h cursor p scanBatchSize s = (Inr (b, nx), s1)"
      and rest: "if nx = 0 then bs = [] \<and> s1 = s' else serves d h p nx s1 bs s'"
    by (rule servesE)
  show ?case
  proof (cases "nx = 0")
    case True
    with scan rest show ?thesis by (auto simp: redis_fetch_def intro: paged.ends)
  next
    case False
    with scan have "redis_fetch d h p cursor s = (Inr (b, Some nx), s1)" by (simp add: redis_fetch_def)
    from paged.goes_on [OF this Cons.IH [of nx s1]] False rest show ?thesis by simp
  qed
qed simp

lemma redis_scan_loop_serves:
  "serves d h pattern cursor s pages s' \<Longrightarrow>
     redis_scan_loop d h pattern cursor keys s = Some ((keys @ concat pages, None), s')"
  by (simp add: redis_pages.complete [OF serves_paged])

lemma redis_scanfunc_loop_serves:
  "serves d h pattern cursor s pages s' \<Longrightarrow> call_each fn (concat pages) f = (None, f') \<Longrightarrow>
     redis_scanfunc_loop d h pattern fn cursor (s, f) = Some (None, s', f')"
proof (induction pages arbitrary: cursor s f)
  case (Cons b bs)
  from Cons.prems(1) obtain nx s1
    where scan: "d_Scan d h cursor pattern scanBatchSize s = (Inr (b, nx), s1)"
      and rest: "if nx = 0 then bs = [] \<and> s1 = s' else serves d h pattern nx s1 bs s'"
    by (rule servesE)
  from Cons.prems(2) obtain f1 where now: "call_each fn b f = (None, f1)"
    and later: "call_each fn (concat bs) f1 = (None, f')"
    by (auto simp: call_each_append split: prod.splits option.splits)
  show ?case
    using Cons.IH [of nx s1 f1] rest later
    by (subst redis_scanfunc_loop.simps) (simp add: scan now split: if_splits)
qed simp

text \<open>The callback's first error ends \<open>ScanFunc\<close>, and comes back as it is.\<close>

lemma redis_scanfunc_loop_error:
  "serves d h pattern cursor s pages s' \<Longrightarrow> call_each fn (concat pages) f = (Some e, f') \<Longrightarrow>
     \<exists>s''. redis_scanfunc_loop d h pattern fn cursor (s, f) = Some (Some e, s'', f')"
proof (induction pages arbitrary: cursor s f)
  case (Cons b bs)
  from Cons.prems(1) obtain nx s1
    where scan: "d_Scan d h cursor pattern scanBatchSize s = (Inr (b, nx), s1)"
      and rest: "if nx = 0 then bs = [] \<and> s1 = s' else serves d h pattern nx s1 bs s'"
    by (rule servesE)
  obtain r f1 where now: "call_each fn b f = (r, f1)" by fastforce
  show ?case
    using Cons.IH [of nx s1 f1] Cons.prems(2) rest now
    by (subst redis_scanfunc_loop.simps)
      (auto simp: scan call_each_append split: if_splits option.splits)
qed simp

text \<open>
  \<open>Scan\<close> and \<open>ScanFunc\<close> agree, whatever the server answers and whether or not the loops end:
  collecting the keys with \<open>ScanFunc\<close> visits what \<open>Scan\<close> returns, and the one runs for ever
  exactly when the other does.
\<close>

definition collect_key :: "(string list) key_fn" where
  "collect_key key acc = (None, acc @ [key])"

lemma call_each_collect [simp]: "call_each collect_key batch acc = (None, acc @ batch)"
  by (induction batch arbitrary: acc) (simp_all add: collect_key_def)

definition scan_agrees ::
  "string \<Rightarrow> (string list ret \<times> 's) \<Rightarrow> (goerr option \<times> 's \<times> string list) \<Rightarrow> bool" where
  "scan_agrees pattern r r' \<longleftrightarrow>
     (case (r, r') of
        (((keys, None), s), (None, s', acc)) \<Rightarrow> keys = acc \<and> s = s'
      | (((keys, Some e), s), (Some e', s', acc)) \<Rightarrow>
          keys = [] \<and> s = s' \<and>
          (\<exists>err. e = Errorf ''redis scan %q: %w'' [AStr pattern] [err] \<and>
                 e' = Errorf ''redis scanfunc %q: %w'' [AStr pattern] [err])
      | _ \<Rightarrow> False)"

lemma scan_agrees_ok: "scan_agrees pattern ((keys, None), s) (None, s, keys)"
  by (simp add: scan_agrees_def)

lemma scan_agrees_err:
  "scan_agrees pattern (([], Some (Errorf ''redis scan %q: %w'' [AStr pattern] [e])), s)
     (Some (Errorf ''redis scanfunc %q: %w'' [AStr pattern] [e]), s, acc)"
  by (simp add: scan_agrees_def)

lemma scan_gives_scanfunc:
  assumes ret: "redis_scan_loop d h pattern cursor keys s = Some r"
  shows "\<exists>r'. redis_scanfunc_loop d h pattern collect_key cursor (s, keys) = Some r' \<and>
    scan_agrees pattern r r'"
proof (rule redis_scan_loop.raw_induct [where P = "\<lambda>d h pattern cursor keys s r.
    \<exists>r'. redis_scanfunc_loop d h pattern collect_key cursor (s, keys) = Some r' \<and>
      scan_agrees pattern r r'", OF _ ret])
  fix f d h pattern cursor keys s r
  assume IH: "\<And>d h pattern cursor keys s r. f d h pattern cursor keys s = Some r \<Longrightarrow>
      \<exists>r'. redis_scanfunc_loop d h pattern collect_key cursor (s, keys) = Some r' \<and>
        scan_agrees pattern r r'"
    and eq: "(case d_Scan d h cursor pattern scanBatchSize s of
        (Inl e, s') \<Rightarrow> Some (([], Some (Errorf ''redis scan %q: %w'' [AStr pattern] [e])), s')
      | (Inr (batch, next), s') \<Rightarrow>
          (let keys' = keys @ batch
           in if next = 0 then Some ((keys', None), s') else f d h pattern next keys' s')) = Some r"
  obtain res s1 where scan: "d_Scan d h cursor pattern scanBatchSize s = (res, s1)" by fastforce
  note unfold = redis_scanfunc_loop.simps [of d h pattern collect_key cursor "(s, keys)"]
  show "\<exists>r'. redis_scanfunc_loop d h pattern collect_key cursor (s, keys) = Some r' \<and>
      scan_agrees pattern r r'"
  proof (cases res)
    case (Inl e)
    with eq scan show ?thesis by (auto simp: unfold scan_agrees_err)
  next
    case (Inr page)
    obtain batch nx where page: "page = (batch, nx)" by fastforce
    show ?thesis
    proof (cases "nx = 0")
      case True
      with eq scan Inr page show ?thesis by (auto simp: unfold scan_agrees_ok)
    next
      case False
      with eq scan Inr page have "f d h pattern nx (keys @ batch) s1 = Some r" by simp
      from IH [OF this] False scan Inr page show ?thesis by (simp add: unfold)
    qed
  qed
qed

lemma scanfunc_gives_scan:
  assumes ret: "redis_scanfunc_loop d h pattern fn cursor sf = Some r'"
  shows "fn = collect_key \<longrightarrow> (\<exists>r. redis_scan_loop d h pattern cursor (snd sf) (fst sf) = Some r)"
proof (rule redis_scanfunc_loop.raw_induct [where P = "\<lambda>d h pattern fn cursor sf r'.
    fn = collect_key \<longrightarrow> (\<exists>r. redis_scan_loop d h pattern cursor (snd sf) (fst sf) = Some r)",
    OF _ ret])
  fix f d h pattern fn cursor sf r'
  assume IH: "\<And>d h pattern fn cursor sf r'. f d h pattern fn cursor sf = Some r' \<Longrightarrow>
      fn = collect_key \<longrightarrow> (\<exists>r. redis_scan_loop d h pattern cursor (snd sf) (fst sf) = Some r)"
    and eq: "(case d_Scan d h cursor pattern scanBatchSize (fst sf) of
        (Inl e, s') \<Rightarrow> Some (Some (Errorf ''redis scanfunc %q: %w'' [AStr pattern] [e]), s', snd sf)
      | (Inr (batch, next), s') \<Rightarrow>
          (case call_each fn batch (snd sf) of
             (Some e, f') \<Rightarrow> Some (Some e, s', f')
           | (None, f') \<Rightarrow>
               if next = 0 then Some (None, s', f') else f d h pattern fn next (s', f'))) = Some r'"
  obtain res s1 where scan: "d_Scan d h cursor pattern scanBatchSize (fst sf) = (res, s1)"
    by fastforce
  note unfold = redis_scan_loop.simps [of d h pattern cursor "snd sf" "fst sf"]
  show "fn = collect_key \<longrightarrow> (\<exists>r. redis_scan_loop d h pattern cursor (snd sf) (fst sf) = Some r)"
  proof
    assume fn: "fn = collect_key"
    show "\<exists>r. redis_scan_loop d h pattern cursor (snd sf) (fst sf) = Some r"
    proof (cases res)
      case (Inl e)
      with scan show ?thesis by (simp add: unfold)
    next
      case (Inr page)
      obtain batch nx where page: "page = (batch, nx)" by fastforce
      show ?thesis
      proof (cases "nx = 0")
        case True
        with scan Inr page show ?thesis by (simp add: unfold)
      next
        case False
        with eq scan Inr page fn have "f d h pattern fn nx (s1, snd sf @ batch) = Some r'"
          by simp
        from IH [OF this] False scan Inr page fn show ?thesis by (simp add: unfold)
      qed
    qed
  qed
qed

text \<open>A server that answers the pages \<open>pages\<close>, in order, and then the error \<open>err\<close>.\<close>

inductive breaks :: "'s redis_driver \<Rightarrow> handle \<Rightarrow> string \<Rightarrow> 64 word \<Rightarrow> 's \<Rightarrow> string list list \<Rightarrow> goerr \<Rightarrow> 's \<Rightarrow> bool"
  for d :: "'s redis_driver" and h :: handle and pattern :: string where
  at_once: "d_Scan d h cursor pattern scanBatchSize s = (Inl err, s') \<Longrightarrow>
     breaks d h pattern cursor s [] err s'"
| later: "d_Scan d h cursor pattern scanBatchSize s = (Inr (b, nx), s1) \<Longrightarrow> nx \<noteq> 0 \<Longrightarrow>
     breaks d h pattern nx s1 pages err s' \<Longrightarrow> breaks d h pattern cursor s (b # pages) err s'"

lemma scanfunc_breaks:
  assumes ret: "redis_scanfunc_loop d h pattern fn cursor sf = Some r'"
  shows "fn = collect_key \<longrightarrow> (case r' of
    (None, _) \<Rightarrow> True
  | (Some e, s', acc) \<Rightarrow> \<exists>pages err. breaks d h pattern cursor (fst sf) pages err s' \<and>
      acc = snd sf @ concat pages \<and> e = Errorf ''redis scanfunc %q: %w'' [AStr pattern] [err])"
proof (rule redis_scanfunc_loop.raw_induct [where P = "\<lambda>d h pattern fn cursor sf r'.
    fn = collect_key \<longrightarrow> (case r' of
      (None, _) \<Rightarrow> True
    | (Some e, s', acc) \<Rightarrow> \<exists>pages err. breaks d h pattern cursor (fst sf) pages err s' \<and>
        acc = snd sf @ concat pages \<and> e = Errorf ''redis scanfunc %q: %w'' [AStr pattern] [err])",
    OF _ ret])
  fix f d h pattern fn cursor sf r'
  assume IH: "\<And>d h pattern fn cursor sf r'. f d h pattern fn cursor sf = Some r' \<Longrightarrow>
      fn = collect_key \<longrightarrow> (case r' of
        (None, _) \<Rightarrow> True
      | (Some e, s', acc) \<Rightarrow> \<exists>pages err. breaks d h pattern cursor (fst sf) pages err s' \<and>
          acc = snd sf @ concat pages \<and> e = Errorf ''redis scanfunc %q: %w'' [AStr pattern] [err])"
    and eq: "(case d_Scan d h cursor pattern scanBatchSize (fst sf) of
        (Inl e, s') \<Rightarrow> Some (Some (Errorf ''redis scanfunc %q: %w'' [AStr pattern] [e]), s', snd sf)
      | (Inr (batch, next), s') \<Rightarrow>
          (case call_each fn batch (snd sf) of
             (Some e, f') \<Rightarrow> Some (Some e, s', f')
           | (None, f') \<Rightarrow>
               if next = 0 then Some (None, s', f') else f d h pattern fn next (s', f'))) = Some r'"
  obtain res s1 where scan: "d_Scan d h cursor pattern scanBatchSize (fst sf) = (res, s1)"
    by fastforce
  show "fn = collect_key \<longrightarrow> (case r' of
      (None, _) \<Rightarrow> True
    | (Some e, s', acc) \<Rightarrow> \<exists>pages err. breaks d h pattern cursor (fst sf) pages err s' \<and>
        acc = snd sf @ concat pages \<and> e = Errorf ''redis scanfunc %q: %w'' [AStr pattern] [err])"
  proof
    assume fn: "fn = collect_key"
    show "case r' of
        (None, _) \<Rightarrow> True
      | (Some e, s', acc) \<Rightarrow> \<exists>pages err. breaks d h pattern cursor (fst sf) pages err s' \<and>
          acc = snd sf @ concat pages \<and> e = Errorf ''redis scanfunc %q: %w'' [AStr pattern] [err]"
    proof (cases res)
      case (Inl e)
      with breaks.at_once [of d h cursor pattern "fst sf" e s1] scan eq show ?thesis
        by (auto intro!: exI [of _ "[]"])
    next
      case (Inr page)
      obtain batch nx where page: "page = (batch, nx)" by fastforce
      show ?thesis
      proof (cases "nx = 0")
        case False
        with eq scan Inr page fn have rest: "f d h pattern fn nx (s1, snd sf @ batch) = Some r'" by simp
        obtain e s' acc where r': "r' = (e, s', acc)" by (metis surj_pair)
        show ?thesis
        proof (cases e)
          case (Some x)
          with IH [OF rest] fn r' obtain pages err where "breaks d h pattern nx s1 pages err s'"
            "acc = snd sf @ batch @ concat pages" "x = Errorf ''redis scanfunc %q: %w'' [AStr pattern] [err]"
            by auto
          with scan Inr page False r' Some show ?thesis
            by (auto intro!: exI [of _ "batch # pages"] breaks.later)
        qed (simp add: r')
      qed (use eq scan Inr page fn in auto)
    qed
  qed
qed

section \<open>Properties\<close>

definition redis_with_sink :: "sink option \<Rightarrow> redis_comp \<Rightarrow> redis_comp" where
  "redis_with_sink f c = c\<lparr>rc_cfg := (rc_cfg c)\<lparr>rd_OnOperation := f\<rparr>\<rparr>"

lemma redis_with_sink_sel [simp]:
  "redis_onOperation (rc_cfg (redis_with_sink f c)) = f"
  "redis_getClient (redis_with_sink f c) = redis_getClient c"
  by (simp_all add: redis_with_sink_def redis_onOperation_def redis_getClient_def)

lemmas redis_op_defs = redis_Set_def redis_SetNX_def redis_Get_def redis_Del_def
  redis_Exists_def redis_Incr_def redis_Expire_def redis_TTL_def

lemmas redis_observe_defs = redis_observeErr_def redis_observe_def

text \<open>
  C10. \<open>Scan\<close> and \<open>ScanFunc\<close> with a callback that collects the keys agree on every component, ready
  or not, and whatever the server answers: either neither call returns, or both return and leave
  the driver in the same state. Then both succeed, and \<open>Scan\<close> returns the keys that \<open>ScanFunc\<close> passed
  to its callback, in order; or both fail: with \<open>ErrNotReady\<close>, or wrapping, each under its own
  name, the same error of the server, before which \<open>ScanFunc\<close> has passed on the keys of the pages
  answered so far and \<open>Scan\<close> drops them.
\<close>
theorem redis_scan_equals_scanfunc:
  "case (redis_Scan d c p el (w, s), redis_ScanFunc d c p collect_key el (w, s, [])) of
     (None, None) \<Rightarrow> True
   | (Some ((keys, e), w1, s1), Some ((u, e'), w2, s2, acc)) \<Rightarrow> s1 = s2 \<and>
       (case (e, e') of
          (None, None) \<Rightarrow> keys = acc
        | (Some x, Some y) \<Rightarrow> keys = [] \<and>
            (case redis_getClient c of
               None \<Rightarrow> x = redis_ErrNotReady \<and> y = redis_ErrNotReady \<and> acc = []
             | Some h \<Rightarrow> \<exists>pages err. breaks d h p 0 s pages err s1 \<and> acc = concat pages \<and>
                 x = Errorf ''redis scan %q: %w'' [AStr p] [err] \<and>
                 y = Errorf ''redis scanfunc %q: %w'' [AStr p] [err])
        | _ \<Rightarrow> False)
   | _ \<Rightarrow> False"
proof (cases "redis_getClient c")
  case None
  then show ?thesis by (simp add: redis_Scan_def redis_ScanFunc_def observe_loop_not_ready)
next
  case (Some h)
  show ?thesis
  proof (cases "redis_scan_loop d h p 0 [] s")
    case None
    then have "redis_scanfunc_loop d h p collect_key 0 (s, []) = None"
      using scanfunc_gives_scan [of d h p collect_key 0 "(s, [])"]
      by (cases "redis_scanfunc_loop d h p collect_key 0 (s, [])") auto
    with None Some show ?thesis by (simp add: redis_Scan_def redis_ScanFunc_def observe_loop_def)
  next
    case ret: (Some r)
    obtain keys e s1 where r: "r = ((keys, e), s1)" by (metis surj_pair)
    from scan_gives_scanfunc [OF ret] obtain e' s2 acc
      where loop: "redis_scanfunc_loop d h p collect_key 0 (s, []) = Some (e', s2, acc)"
        and agrees: "scan_agrees p r (e', s2, acc)" by (metis surj_pair)
    from Some ret loop r
    have "redis_Scan d c p el (w, s) = Some ((keys, e), record_op ''redis'' (redis_onOperation (rc_cfg c)) opScan el e w, s1)"
      "redis_ScanFunc d c p collect_key el (w, s, []) =
         Some (((), e'), record_op ''redis'' (redis_onOperation (rc_cfg c)) opScanFunc el e' w, s2, acc)"
      by (simp_all add: redis_Scan_def redis_ScanFunc_def observe_loop_def)
    moreover from scanfunc_breaks [OF loop] have "e' = Some y \<Longrightarrow> \<exists>pages err. breaks d h p 0 s pages err s2 \<and>
        acc = concat pages \<and> y = Errorf ''redis scanfunc %q: %w'' [AStr p] [err]" for y by simp
    ultimately show ?thesis
      using agrees Some r by (cases e; cases e') (auto simp: scan_agrees_def)
  qed
qed

text \<open>
  C26. When the server's cursor comes back to 0, both SCAN operations return. \<open>Scan\<close> returns
  every page's keys in order; \<open>ScanFunc\<close> calls its callback on these keys in order up to
  the first error and returns that error unwrapped.
\<close>
theorem redis_scan_complete:
  assumes "redis_getClient c = Some h" and "serves d h p 0 s pages s'"
  shows "fst (the (redis_Scan d c p el (w, s))) = (concat pages, None) \<and>
         redis_Scan d c p el (w, s) \<noteq> None \<and>
         (\<exists>w' s''. redis_ScanFunc d c p fn el (w, s, f) =
            Some (((), fst (call_each fn (concat pages) f)),
                  w', s'', snd (call_each fn (concat pages) f)))"
proof -
  obtain e f' where each: "call_each fn (concat pages) f = (e, f')" by fastforce
  have "\<exists>s''. redis_scanfunc_loop d h p fn 0 (s, f) = Some (e, s'', f')"
    using redis_scanfunc_loop_serves [OF assms(2)] redis_scanfunc_loop_error [OF assms(2)] each
    by (cases e) fastforce+
  with each assms(1) redis_scan_loop_serves [OF assms(2), of "[]"] show ?thesis
    by (auto simp: redis_Scan_def redis_ScanFunc_def observe_loop_def)
qed

text \<open>A concrete server: two pages of keys, handed out under cursors 0 and 7.\<close>

definition redis_cfg0 :: redis_config where
  "redis_cfg0 = \<lparr>rd_Host = '''', rd_Port = 0, rd_DB = 0, rd_User = '''', rd_Pass = '''',
     rd_ConnectTimeout = 0, rd_DialTimeout = 0, rd_ReadTimeout = 0, rd_WriteTimeout = 0,
     rd_PoolSize = 0, rd_TLS = False, rd_TLSCAFile = '''', rd_TLSCertFile = '''',
     rd_TLSKeyFile = '''', rd_TLSServerName = '''', rd_TLSInsecureSkipVerify = False,
     rd_TLSMinVersion = '''', rd_OnOperation = None\<rparr>"

definition idle_driver :: "unit redis_driver" where
  "idle_driver = \<lparr>d_NewClient = \<lambda>_ s. (1, s), d_Ping = \<lambda>_ s. (None, s), d_Close = \<lambda>_ s. (None, s),
     d_Set = \<lambda>_ _ _ _ s. (None, s), d_SetArgsNX = \<lambda>_ _ _ _ s. (Some redis_ErrNil, s),
     d_Get = \<lambda>_ _ s. (Inl redis_ErrNil, s), d_Del = \<lambda>_ _ s. (Inr 0, s),
     d_Exists = \<lambda>_ _ s. (Inr 0, s), d_Incr = \<lambda>_ _ s. (Inr 1, s),
     d_Expire = \<lambda>_ _ _ s. (Inr False, s), d_TTL = \<lambda>_ _ s. (Inr (- 2), s),
     d_Scan = \<lambda>_ cur _ _ s. (Inr (if cur = 0 then ([''a'', ''b''], 7) else ([''c''], 0)), s)\<rparr>"

definition redis_live :: redis_comp where
  "redis_live = redis_publish 1 (redis_New redis_cfg0 [])"

theorem redis_scan_complete_witness:
  "redis_getClient redis_live = Some 1 \<and>
   serves idle_driver 1 ''*'' 0 () [[''a'', ''b''], [''c'']] () \<and>
   fst (the (redis_Scan idle_driver redis_live ''*'' 5 (world0, ()))) =
     ([''a'', ''b'', ''c''], None)"
proof -
  have live: "redis_getClient redis_live = Some 1"
    by (simp add: redis_live_def redis_publish_def redis_getClient_def)
  have serve: "serves idle_driver 1 ''*'' 0 () [[''a'', ''b''], [''c'']] ()"
    by (simp add: idle_driver_def)
  from redis_scan_complete [OF live serve, of 5 world0 collect_key "[]"]
  show ?thesis using live serve by simp
qed

definition redis_seen :: "redis_comp \<Rightarrow> world \<Rightarrow> string \<Rightarrow> world" where
  "redis_seen c w op = redis_record c op 0 (Some redis_ErrNotReady) w"

text \<open>
  On a component with no live client all ten \<open>KV\<close> operations return \<open>ErrNotReady\<close> and the
  zero value, do not touch the driver, and report a zero duration.
\<close>
theorem redis_not_ready:
  assumes "redis_getClient c = None"
  shows "redis_Set d c k v t el (w, s) = (((), Some redis_ErrNotReady), (redis_seen c w opSet, s)) \<and>
    redis_SetNX d c k v t el (w, s) = ((False, Some redis_ErrNotReady), (redis_seen c w opSetNX, s)) \<and>
    redis_Get d c k el (w, s) = (('''', Some redis_ErrNotReady), (redis_seen c w opGet, s)) \<and>
    redis_Del d c ks el (w, s) = ((0, Some redis_ErrNotReady), (redis_seen c w opDel, s)) \<and>
    redis_Exists d c ks el (w, s) = ((0, Some redis_ErrNotReady), (redis_seen c w opExists, s)) \<and>
    redis_Incr d c k el (w, s) = ((0, Some redis_ErrNotReady), (redis_seen c w opIncr, s)) \<and>
    redis_Expire d c k t el (w, s) = ((False, Some redis_ErrNotReady), (redis_seen c w opExpire, s)) \<and>
    redis_TTL d c k el (w, s) = ((0, Some redis_ErrNotReady), (redis_seen c w opTTL, s)) \<and>
    redis_Scan d c p el (w, s) = Some (([], Some redis_ErrNotReady), (redis_seen c w opScan, s)) \<and>
    redis_ScanFunc d c p fn el (w, s, f) =
      Some (((), Some redis_ErrNotReady), (redis_seen c w opScanFunc, s, f))"
  using assms
  by (simp add: redis_seen_def redis_op_defs redis_observe_defs redis_record_def
      observe_handle_not_ready observe_loop_not_ready redis_Scan_def redis_ScanFunc_def)

theorem redis_not_ready_witness:
  "redis_getClient (redis_New redis_cfg0 []) = None \<and>
   redis_Incr idle_driver (redis_New redis_cfg0 []) ''n'' 5 (world0, ()) =
     ((0, Some redis_ErrNotReady), (redis_seen (redis_New redis_cfg0 []) world0 opIncr, ()))"
proof -
  have fresh: "redis_getClient (redis_New redis_cfg0 []) = None"
    by (simp add: redis_New_def redis_getClient_def)
  note all = redis_not_ready [OF fresh, of idle_driver "''n''" "''v''" 0 5 world0 "()"]
  show ?thesis using fresh by (simp only: all simp_thms)
qed

text \<open>
  Instrumentation does not change behaviour: with any \<open>OnOperation\<close> sink, a panicking one
  included, each operation reports exactly once, under its fixed name and with the error the
  caller gets, and neither its result nor what it does to the server depends on the sink.
\<close>
theorem redis_observed:
  "reports_once opSet (\<lambda>f. redis_Set d (redis_with_sink f c) k v t el) \<and>
   sink_blind (\<lambda>f. redis_Set d (redis_with_sink f c) k v t el) \<and>
   reports_once opSetNX (\<lambda>f. redis_SetNX d (redis_with_sink f c) k v t el) \<and>
   sink_blind (\<lambda>f. redis_SetNX d (redis_with_sink f c) k v t el) \<and>
   reports_once opGet (\<lambda>f. redis_Get d (redis_with_sink f c) k el) \<and>
   sink_blind (\<lambda>f. redis_Get d (redis_with_sink f c) k el) \<and>
   reports_once opDel (\<lambda>f. redis_Del d (redis_with_sink f c) ks el) \<and>
   sink_blind (\<lambda>f. redis_Del d (redis_with_sink f c) ks el) \<and>
   reports_once opExists (\<lambda>f. redis_Exists d (redis_with_sink f c) ks el) \<and>
   sink_blind (\<lambda>f. redis_Exists d (redis_with_sink f c) ks el) \<and>
   reports_once opIncr (\<lambda>f. redis_Incr d (redis_with_sink f c) k el) \<and>
   sink_blind (\<lambda>f. redis_Incr d (redis_with_sink f c) k el) \<and>
   reports_once opExpire (\<lambda>f. redis_Expire d (redis_with_sink f c) k t el) \<and>
   sink_blind (\<lambda>f. redis_Expire d (redis_with_sink f c) k t el) \<and>
   reports_once opTTL (\<lambda>f. redis_TTL d (redis_with_sink f c) k el) \<and>
   sink_blind (\<lambda>f. redis_TTL d (redis_with_sink f c) k el)"
  unfolding redis_op_defs redis_observe_defs redis_with_sink_sel
  by (intro conjI observe_handle_blind observe_handle_reports)
    (simp_all add: silent_def split_beta)

text \<open>
  C30. TLS fails closed: when \<open>tlsConfig\<close> succeeds, TLS is used exactly when the configuration
  asks for it, and the result carries the asked minimum version, the server name (the host by
  default), the CA file's certificates and the client key pair; so an unreadable or empty CA
  file, half a key pair, or an unknown version makes it fail.
\<close>
theorem redis_tls_fails_closed:
  assumes "redis_tlsConfig env c = Inr t"
  shows "(t = None \<longleftrightarrow> \<not> rd_TLS c) \<and>
    (\<forall>cfg. t = Some cfg \<longrightarrow>
       min_version (rd_TLSMinVersion c) = Some (tc_MinVersion cfg) \<and>
       tc_InsecureSkipVerify cfg = rd_TLSInsecureSkipVerify c \<and>
       tc_ServerName cfg = (if rd_TLSServerName c = '''' then rd_Host c else rd_TLSServerName c) \<and>
       (if rd_TLSCAFile c = '''' then tc_RootCAs cfg = None
        else \<exists>pem. os_ReadFile env (rd_TLSCAFile c) = Inr pem \<and> pem_has_certs env pem \<and>
               tc_RootCAs cfg = Some pem) \<and>
       (if rd_TLSCertFile c = '''' then rd_TLSKeyFile c = '''' \<and> tc_Certificates cfg = []
        else rd_TLSKeyFile c \<noteq> '''' \<and> (\<exists>cert. tc_Certificates cfg = [cert] \<and>
               tls_LoadX509KeyPair env (rd_TLSCertFile c) (rd_TLSKeyFile c) = Inr cert)))"
  using assms unfolding redis_tlsConfig_def Let_def
  by (auto split: if_splits option.splits sum.splits dest!: load_pool_Inr simp: map_sum_def)

text \<open>
  \<open>Start\<close> signals ready exactly when it succeeds, and then holds the client it pinged. When
  it fails, the component is as before but for its fresh stop channel: no client is published,
  and a client that had been opened and did not answer the ping has been closed.
\<close>
theorem redis_start_outcome:
  "case redis_Start env d ch c (w, s) of (err, rdy, c', (w', s')) \<Rightarrow>
     (rdy \<longleftrightarrow> err = None) \<and> rc_stopCh c' = ch \<and>
     (if err \<noteq> None
      then redis_getClient c' = redis_getClient c \<and>
        ((\<exists>e. redis_tlsConfig env (rc_cfg c) = Inl e \<and> err = Some e \<and> s' = s) \<or>
         (\<exists>t h s1 e s2. redis_tlsConfig env (rc_cfg c) = Inr t \<and>
            d_NewClient d (redis_options_of c t) s = (h, s1) \<and> d_Ping d h s1 = (Some e, s2) \<and>
            s' = snd (d_Close d h s2) \<and> errors_is (the err) e))
      else \<exists>t h s1. redis_tlsConfig env (rc_cfg c) = Inr t \<and>
         d_NewClient d (redis_options_of c t) s = (h, s1) \<and> d_Ping d h s1 = (None, s') \<and>
         redis_getClient c' = Some h)"
  by (auto simp: redis_Start_def redis_connect_def Let_def redis_begin_def redis_publish_def
      redis_getClient_def redis_options_of_def redis_driverOptions_def
      split: sum.splits prod.splits option.splits if_splits)

text \<open>
  \<open>Stop\<close> leaves no client behind and the old and the new stop channel closed, closes the
  client exactly when there was one, and a second \<open>Stop\<close> only replaces the channel again.
\<close>
theorem redis_stop_outcome:
  "case redis_Stop d fresh expired c cl (w, s) of (err, c', cl', (w', s')) \<Rightarrow>
     redis_getClient c' = None \<and> rc_stopCh c' = fresh \<and> cl' = insert (rc_stopCh c) (insert fresh cl) \<and>
     s' = (case redis_getClient c of None \<Rightarrow> s | Some h \<Rightarrow> snd (d_Close d h s)) \<and>
     redis_Health d c' s' = (Some redis_ErrNotReady, s') \<and>
     redis_Stop d fresh2 expired c' cl' (w', s') = (None, redis_swap fresh2 c', insert fresh2 cl', (w', s'))"
  by (auto simp: redis_Stop_def redis_swap_def redis_getClient_def redis_Health_def Let_def
      split: prod.splits option.splits)

text \<open>
  \<open>SetNX\<close> and \<open>Get\<close> sort out the nil reply: for \<open>SetNX\<close> a key that exists is
  \<open>(false, nil)\<close> and never an error; \<open>Get\<close> returns the bare \<open>ErrNil\<close> for a missing key, however
  deep the driver wrapped it, and any other driver error wrapped with the key in its text.
\<close>
theorem redis_nil_reply:
  assumes "redis_getClient c = Some h" and "d_SetArgsNX d h k v t s = (r, s1)" and "d_Get d h k s = (g, s2)"
  shows "fst (redis_SetNX d c k v t el (w, s)) =
      (r = None, if errors_is_opt r redis_ErrNil then None
                 else map_option (\<lambda>e. Errorf ''redis setnx %q: %w'' [AStr k] [e]) r) \<and>
    fst (redis_Get d c k el (w, s)) =
      (case g of Inr x \<Rightarrow> (x, None)
       | Inl e \<Rightarrow> ('''', Some (if errors_is e redis_ErrNil then redis_ErrNil
                            else Errorf ''redis get %q: %w'' [AStr k] [e])))"
  using assms
  by (auto simp: redis_SetNX_def redis_Get_def redis_observe_def observe_handle_def
      split: option.splits sum.splits)

theorem redis_nil_reply_witness:
  "fst (redis_SetNX idle_driver redis_live ''k'' ''v'' 0 5 (world0, ())) = (False, None) \<and>
   fst (redis_Get idle_driver redis_live ''k'' 5 (world0, ())) = ('''', Some redis_ErrNil)"
proof -
  have live: "redis_getClient redis_live = Some 1"
    by (simp add: redis_live_def redis_publish_def redis_getClient_def)
  have nx: "d_SetArgsNX idle_driver 1 ''k'' ''v'' 0 () = (Some redis_ErrNil, ())"
    and get: "d_Get idle_driver 1 ''k'' () = (Inl redis_ErrNil, ())"
    by (simp_all add: idle_driver_def)
  from redis_nil_reply [OF live nx get, of 5 "world0"]
  show ?thesis by simp
qed

theorem redis_tls_fails_closed_witness:
  "\<exists>t. redis_tlsConfig \<lparr>os_ReadFile = \<lambda>_. Inr ''pem'', pem_has_certs = \<lambda>_. True,
        tls_LoadX509KeyPair = \<lambda>_ _. Inr 0\<rparr>
      (redis_cfg0\<lparr>rd_TLS := True, rd_TLSCAFile := ''ca''\<rparr>) = Inr (Some t) \<and>
     tc_RootCAs t = Some ''pem'' \<and> tc_MinVersion t = VersionTLS12"
proof -
  let ?env = "\<lparr>os_ReadFile = \<lambda>_. Inr ''pem'', pem_has_certs = \<lambda>_. True,
    tls_LoadX509KeyPair = \<lambda>_ _. Inr 0\<rparr>" and ?cfg = "redis_cfg0\<lparr>rd_TLS := True, rd_TLSCAFile := ''ca''\<rparr>"
  obtain t where t: "redis_tlsConfig ?env ?cfg = Inr (Some t)"
    by (simp add: redis_tlsConfig_def redis_cfg0_def min_version_def load_pool_def Let_def)
  from redis_tls_fails_closed [OF t] t show ?thesis
    by (simp add: redis_cfg0_def min_version_def)
qed

end
