(* ===== verification/Net_Url.thy ===== *)
theory Net_Url
  imports Go_Prelude
begin

text \<open>
  The part of Go's \<open>net/url\<close> that the DSN and URI builders of the modules call:
  \<open>escape\<close> in its four modes, \<open>Userinfo.String\<close>, \<open>URL.String\<close> for a URL with a user and
  a host, \<open>QueryEscape\<close> and \<open>Values.Encode\<close> for one key, and the readers
  \<open>url.Parse\<close> and \<open>url.ParseQuery\<close> that the receiving side applies to the result. The
  lemmas show that what was written is what is read back.
\<close>

datatype url_mode = EncHost | EncPath | EncUserPassword | EncQuery

definition is_alnum :: "char \<Rightarrow> bool" where
  "is_alnum c \<longleftrightarrow> (let n = (of_char c :: nat) in
     (48 \<le> n \<and> n \<le> 57) \<or> (65 \<le> n \<and> n \<le> 90) \<or> (97 \<le> n \<and> n \<le> 122))"

definition should_escape :: "url_mode \<Rightarrow> char \<Rightarrow> bool" where
  "should_escape m c \<longleftrightarrow>
     (if is_alnum c then False
      else if m = EncHost \<and> c \<in> set ''!$&()*+,;=:[]<>'' \<union> {CHR 0x27, CHR 0x22} then False
      else if c \<in> set ''-_.~'' then False
      else if c \<in> set ''$&+,/:;=?@'' then
        (case m of
           EncPath \<Rightarrow> c = CHR ''?''
         | EncUserPassword \<Rightarrow> c \<in> set ''@/?:''
         | EncQuery \<Rightarrow> True
         | EncHost \<Rightarrow> True)
      else True)"

definition hex_digit :: "nat \<Rightarrow> char" where
  "hex_digit n = ''0123456789ABCDEF'' ! n"

definition escape_char :: "url_mode \<Rightarrow> char \<Rightarrow> string" where
  "escape_char m c =
     (if \<not> should_escape m c then [c]
      else if c = CHR '' '' \<and> m = EncQuery then [CHR ''+'']
      else [CHR ''%'', hex_digit (of_char c div 16), hex_digit (of_char c mod 16)])"

definition escape :: "url_mode \<Rightarrow> string \<Rightarrow> string" where
  "escape m s = concat (map (escape_char m) s)"

definition unhex :: "char \<Rightarrow> nat option" where
  "unhex c = (let n = (of_char c :: nat) in
     if 48 \<le> n \<and> n \<le> 57 then Some (n - 48)
     else if 65 \<le> n \<and> n \<le> 70 then Some (n - 55)
     else if 97 \<le> n \<and> n \<le> 102 then Some (n - 87)
     else None)"

fun unescape :: "url_mode \<Rightarrow> string \<Rightarrow> string option" where
  "unescape m [] = Some []"
| "unescape m (c # s) =
     (if c = CHR ''%'' then
        (case s of
           a # b # s' \<Rightarrow>
             (case (unhex a, unhex b) of
                (Some x, Some y) \<Rightarrow> map_option (Cons (char_of (16 * x + y))) (unescape m s')
              | _ \<Rightarrow> None)
         | _ \<Rightarrow> None)
      else map_option (Cons (if c = CHR ''+'' \<and> m = EncQuery then CHR '' '' else c)) (unescape m s))"

lemma unhex_table: "list_all (\<lambda>n. unhex (hex_digit n) = Some n) [0..<16]"
  by (simp add: unhex_def hex_digit_def upt_rec)

lemma unhex_hex_digit [simp]: "n < 16 \<Longrightarrow> unhex (hex_digit n) = Some n"
  using unhex_table by (simp add: list_all_iff)

lemma hex_digit_in: "n < 16 \<Longrightarrow> hex_digit n \<in> set ''0123456789ABCDEF''"
  unfolding hex_digit_def by (rule nth_mem) simp

lemma escape_simps [simp]:
  "escape m [] = []"
  "escape m (c # s) = escape_char m c @ escape m s"
  by (simp_all add: escape_def)

lemma percent_escaped [simp]: "should_escape m (CHR ''%'')"
  by (simp add: should_escape_def is_alnum_def)

lemma plus_escaped [simp]: "should_escape EncQuery (CHR ''+'')"
  by (simp add: should_escape_def is_alnum_def)

lemma nibble_bound: "of_char c div 16 < (16::nat)" "of_char c mod 16 < (16::nat)"
  using of_char_bound [of c] by (simp_all add: less_mult_imp_div_less)

lemma unescape_escape_char:
  "unescape m (escape_char m c @ s) = map_option (Cons c) (unescape m s)"
proof (cases "should_escape m c")
  case False
  then have "c \<noteq> CHR ''%''" and "\<not> (c = CHR ''+'' \<and> m = EncQuery)" by auto
  with False show ?thesis by (cases m) (auto simp: escape_char_def)
next
  case True
  have "char_of (16 * (of_char c div 16) + of_char c mod 16 :: nat) = c" by simp
  with True nibble_bound [of c] show ?thesis by (auto simp: escape_char_def)
qed

lemma unescape_escape [simp]: "unescape m (escape m s) = Some s"
  by (induction s) (simp_all add: unescape_escape_char)

lemma escape_not_in:
  assumes "should_escape m c" and "c \<notin> set ''%+0123456789ABCDEF''"
  shows "c \<notin> set (escape m s)"
proof -
  have "c \<notin> set (escape_char m d)" for d
  proof (cases "should_escape m d")
    case False
    with assms(1) show ?thesis by (auto simp: escape_char_def)
  next
    case True
    note hex = nibble_bound [of d, THEN hex_digit_in]
    from hex True assms(2) show ?thesis by (auto simp: escape_char_def)
  qed
  then show ?thesis by (simp add: escape_def)
qed

lemma escape_id: "(\<forall>c \<in> set s. \<not> should_escape m c) \<Longrightarrow> escape m s = s"
  by (induction s) (simp_all add: escape_char_def)

section \<open>Building a URL\<close>

text \<open>\<open>Userinfo.String\<close> with a password set, as \<open>url.UserPassword\<close> makes it.\<close>

definition userinfo_string :: "string \<Rightarrow> string \<Rightarrow> string" where
  "userinfo_string user pass =
     (if user \<noteq> [] \<or> pass \<noteq> []
      then escape EncUserPassword user @ '':'' @ escape EncUserPassword pass else [])"

text \<open>\<open>URL.EscapedPath\<close> with no RawPath.\<close>

definition escaped_path :: "string \<Rightarrow> string" where
  "escaped_path path = (if path = ''*'' then ''*'' else escape EncPath path)"

text \<open>\<open>URL.String\<close> for a URL with a scheme, a user and a non-empty host.\<close>

definition url_string ::
  "string \<Rightarrow> string \<Rightarrow> string \<Rightarrow> string \<Rightarrow> string \<Rightarrow> string \<Rightarrow> string" where
  "url_string scheme user pass host path raw_query =
     scheme @ ''://'' @ userinfo_string user pass @ ''@'' @ escape EncHost host @
     (let p = escaped_path path in if p \<noteq> [] \<and> hd p \<noteq> CHR ''/'' then CHR ''/'' # p else p) @
     (if raw_query \<noteq> [] then CHR ''?'' # raw_query else [])"

text \<open>\<open>Values.Encode\<close> for a map with the one key \<open>key\<close>: its values in insertion order.\<close>

fun encode_values :: "string \<Rightarrow> string list \<Rightarrow> string" where
  "encode_values key [] = []"
| "encode_values key [v] = escape EncQuery key @ ''='' @ escape EncQuery v"
| "encode_values key (v # w # vs) =
     escape EncQuery key @ ''='' @ escape EncQuery v @ ''&'' @ encode_values key (w # vs)"

section \<open>Reading it back\<close>

definition cut :: "char \<Rightarrow> string \<Rightarrow> string \<times> string" where
  "cut c s = (takeWhile (\<lambda>x. x \<noteq> c) s, drop 1 (dropWhile (\<lambda>x. x \<noteq> c) s))"

definition cut_last :: "char \<Rightarrow> string \<Rightarrow> string \<times> string" where
  "cut_last c s = (case cut c (rev s) of (a, b) \<Rightarrow> (rev b, rev a))"

lemma takeWhile_sep: "c \<notin> set xs \<Longrightarrow> takeWhile (\<lambda>x. x \<noteq> c) (xs @ c # ys) = xs"
  by (induction xs) auto

lemma dropWhile_sep: "c \<notin> set xs \<Longrightarrow> dropWhile (\<lambda>x. x \<noteq> c) (xs @ c # ys) = c # ys"
  by (induction xs) auto

lemma takeWhile_no_sep: "c \<notin> set xs \<Longrightarrow> takeWhile (\<lambda>x. x \<noteq> c) xs = xs"
  by (induction xs) auto

lemma dropWhile_no_sep: "c \<notin> set xs \<Longrightarrow> dropWhile (\<lambda>x. x \<noteq> c) xs = []"
  by (induction xs) auto

lemma cut_sep [simp]: "c \<notin> set xs \<Longrightarrow> cut c (xs @ c # ys) = (xs, ys)"
  by (simp add: cut_def takeWhile_sep dropWhile_sep)

lemma cut_no_sep [simp]: "c \<notin> set xs \<Longrightarrow> cut c xs = (xs, [])"
  by (simp add: cut_def takeWhile_no_sep dropWhile_no_sep)

lemma cut_last_sep [simp]: "c \<notin> set ys \<Longrightarrow> cut_last c (xs @ c # ys) = (xs, ys)"
  by (simp add: cut_last_def)

text \<open>
  \<open>url.Parse\<close> of an absolute URL with an authority: the fragment is cut off and control
  characters are refused; then the scheme, the query, the authority up to the first slash, the
  userinfo up to the last \<open>@\<close> and the user name up to the first colon, with the checks of
  \<open>getScheme\<close>, \<open>validUserinfo\<close> and \<open>validOptionalPort\<close>. The result is scheme, user, password, host
  with port, decoded path, raw query. It reads less than Go does where the host is concerned: an IP literal in
  brackets, a percent-escape and a second colon are refused, whatever is inside.
\<close>

definition is_ctl :: "char \<Rightarrow> bool" where
  "is_ctl c \<longleftrightarrow> (let n = (of_char c :: nat) in n < 32 \<or> n = 127)"

definition has_ctl :: "string \<Rightarrow> bool" where
  "has_ctl s \<longleftrightarrow> list_ex is_ctl s"

definition is_alpha :: "char \<Rightarrow> bool" where
  "is_alpha c \<longleftrightarrow> (let n = (of_char c :: nat) in (65 \<le> n \<and> n \<le> 90) \<or> (97 \<le> n \<and> n \<le> 122))"

definition is_digit :: "char \<Rightarrow> bool" where
  "is_digit c \<longleftrightarrow> (let n = (of_char c :: nat) in 48 \<le> n \<and> n \<le> 57)"

definition valid_scheme :: "string \<Rightarrow> bool" where
  "valid_scheme s \<longleftrightarrow> s \<noteq> [] \<and> is_alpha (hd s) \<and> list_all (\<lambda>c. is_alnum c \<or> c \<in> set ''+-.'') s"

definition valid_userinfo :: "string \<Rightarrow> bool" where
  "valid_userinfo s \<longleftrightarrow> list_all (\<lambda>c. is_alnum c \<or> c \<in> set ''-._:~!$&()*+,;=%@'' \<union> {CHR 0x27}) s"

definition valid_port :: "string \<Rightarrow> bool" where
  "valid_port s \<longleftrightarrow> list_all is_digit s"

text \<open>A host name or an IPv4 address in unreserved characters.\<close>

definition valid_host :: "string \<Rightarrow> bool" where
  "valid_host h \<longleftrightarrow> list_all (\<lambda>c. \<not> should_escape EncHost c \<and> c \<notin> set ''[]:'') h"

definition parse_host :: "string \<Rightarrow> string option" where
  "parse_host s =
     (case cut CHR '':'' s of (name, port) \<Rightarrow> if valid_host name \<and> valid_port port then Some s else None)"

definition url_parse ::
  "string \<Rightarrow> (string \<times> string \<times> string \<times> string \<times> string \<times> string) option" where
  "url_parse s =
     (let (url, fragment) = cut CHR ''#'' s;
          (scheme, rest) = cut CHR '':'' url;
          (rest, query) = cut CHR ''?'' rest
      in if has_ctl url \<or> unescape EncPath fragment = None \<or> \<not> valid_scheme scheme \<or> take 2 rest \<noteq> ''//''
         then None
         else let authority = takeWhile (\<lambda>x. x \<noteq> CHR ''/'') (drop 2 rest);
                  path = dropWhile (\<lambda>x. x \<noteq> CHR ''/'') (drop 2 rest);
                  (userinfo, host) = cut_last CHR ''@'' authority;
                  (user, pass) = cut CHR '':'' userinfo
              in if \<not> valid_userinfo userinfo then None
                 else (case (unescape EncUserPassword user, unescape EncUserPassword pass,
                             parse_host host, unescape EncPath path) of
                    (Some u, Some p, Some h, Some pa) \<Rightarrow> Some (to_lower scheme, u, p, h, pa, query)
                  | _ \<Rightarrow> None))"

text \<open>The path \<open>url_string\<close> writes: with a leading slash unless it is empty.\<close>

definition rooted :: "string \<Rightarrow> string" where
  "rooted path = (if path \<noteq> [] \<and> hd path \<noteq> CHR ''/'' then CHR ''/'' # path else path)"

definition written_path :: "string \<Rightarrow> string" where
  "written_path path =
     (let p = escaped_path path in if p \<noteq> [] \<and> hd p \<noteq> CHR ''/'' then CHR ''/'' # p else p)"

lemma special_escaped [simp]:
  "should_escape m (CHR ''#'')"
  "should_escape EncPath (CHR ''?'')" "\<not> should_escape EncPath (CHR ''/'')"
  "should_escape EncUserPassword (CHR ''@'')" "should_escape EncUserPassword (CHR ''/'')"
  "should_escape EncUserPassword (CHR ''?'')" "should_escape EncUserPassword (CHR '':'')"
  "should_escape EncHost (CHR ''@'')" "should_escape EncHost (CHR ''/'')"
  "should_escape EncHost (CHR ''?'')" "\<not> should_escape EncHost (CHR '':'')"
  by (cases m; simp add: should_escape_def is_alnum_def)+

text \<open>Nothing that is written unescaped is a control character; what escaping writes is user information.\<close>

lemma ctl_escaped: "is_ctl c \<Longrightarrow> should_escape m c"
proof -
  assume ctl: "is_ctl c"
  then have "\<not> is_alnum c" by (auto simp: is_ctl_def is_alnum_def Let_def)
  moreover have "c \<notin> set ''!$&()*+,;=:[]<>-_.~/?@'' \<union> {CHR 0x27, CHR 0x22}"
    using ctl by (auto simp: is_ctl_def)
  ultimately show "should_escape m c" unfolding should_escape_def by simp
qed

lemma hex_digit_plain: "n < 16 \<Longrightarrow> \<not> should_escape m (hex_digit n)"
proof -
  assume "n < 16"
  then have "is_alnum (hex_digit n)" using hex_digit_in [of n] by (auto simp: is_alnum_def)
  then show ?thesis by (simp add: should_escape_def)
qed

lemma in_escape: "c \<in> set (escape m s) \<Longrightarrow> \<not> should_escape m c \<or> c = CHR ''%'' \<or> c = CHR ''+''"
proof (induction s)
  case (Cons d s)
  then show ?case
    using hex_digit_plain [OF nibble_bound(1), of m d] hex_digit_plain [OF nibble_bound(2), of m d]
    by (auto simp: escape_char_def split: if_splits)
qed simp

lemma has_ctl_simps [simp]:
  "\<not> has_ctl []" "has_ctl (c # s) \<longleftrightarrow> is_ctl c \<or> has_ctl s" "has_ctl (s @ t) \<longleftrightarrow> has_ctl s \<or> has_ctl t"
  by (simp_all add: has_ctl_def)

lemma has_ctl_iff: "has_ctl s \<longleftrightarrow> (\<exists>c \<in> set s. is_ctl c)"
  by (simp add: has_ctl_def list_ex_iff)

lemma escape_no_ctl [simp]: "\<not> has_ctl (escape m s)"
proof -
  have "\<not> is_ctl c" if "c \<in> set (escape m s)" for c
    using in_escape [OF that] ctl_escaped [of c m] by (auto simp: is_ctl_def)
  then show ?thesis by (simp add: has_ctl_iff)
qed

lemma valid_userinfo_append [simp]:
  "valid_userinfo (s @ t) \<longleftrightarrow> valid_userinfo s \<and> valid_userinfo t"
  "valid_userinfo (CHR '':'' # t) \<longleftrightarrow> valid_userinfo t"
  by (simp_all add: valid_userinfo_def)

lemma userinfo_plain:
  assumes "\<not> should_escape EncUserPassword c" and "\<not> is_alnum c"
  shows "c \<in> set ''-_.~$&+,;=''"
proof (cases "c \<in> set ''-_.~''")
  case False
  with assms have "c \<in> set ''$&+,/:;=?@''" "c \<notin> set ''@/?:''"
    by (simp_all only: should_escape_def url_mode.case if_False if_True url_mode.distinct simp_thms
        split: if_splits)
  then show ?thesis by auto
qed auto

lemma valid_userinfo_escape [simp]: "valid_userinfo (escape EncUserPassword s)"
  unfolding valid_userinfo_def list_all_iff
proof
  fix c
  assume "c \<in> set (escape EncUserPassword s)"
  from in_escape [OF this] userinfo_plain [of c]
  have "is_alnum c \<or> c \<in> set ''-_.~$&+,;='' \<or> c = CHR ''%''" by auto
  then show "is_alnum c \<or> c \<in> set ''-._:~!$&()*+,;=%@'' \<union> {CHR 0x27}" by auto
qed

lemma userinfo_clean:
  "CHR ''#'' \<notin> set (escape EncUserPassword s)" "CHR ''@'' \<notin> set (escape EncUserPassword s)"
  "CHR ''/'' \<notin> set (escape EncUserPassword s)" "CHR ''?'' \<notin> set (escape EncUserPassword s)"
  "CHR '':'' \<notin> set (escape EncUserPassword s)"
  by (rule escape_not_in; simp)+

lemma valid_host_out: "valid_host h \<Longrightarrow> should_escape EncHost c \<or> c \<in> set ''[]:'' \<Longrightarrow> c \<notin> set h"
  unfolding valid_host_def list_all_iff by blast

lemma valid_host_clean:
  assumes "valid_host h"
  shows "CHR ''#'' \<notin> set h" "CHR ''@'' \<notin> set h" "CHR ''/'' \<notin> set h" "CHR ''?'' \<notin> set h"
    "CHR '':'' \<notin> set h"
  by (rule valid_host_out [OF assms]; simp)+

text \<open>What \<open>fmt.Sprintf("%s:%d", host, port)\<close> gives for a valid host and a port that is not negative.\<close>

lemma digits_plain: "c \<in> digits \<Longrightarrow> is_digit c \<and> \<not> should_escape m c"
proof -
  assume "c \<in> digits"
  then have "is_digit c" by (auto simp: digits_def is_digit_def)
  moreover from this have "is_alnum c" by (simp add: is_digit_def is_alnum_def Let_def)
  ultimately show ?thesis by (simp add: should_escape_def)
qed

lemma show_int_digits: "0 \<le> i \<Longrightarrow> c \<in> set (show_int i) \<Longrightarrow> is_digit c \<and> \<not> should_escape m c"
  using show_nat_digits [of "nat i"] digits_plain [of c m] by (auto simp: show_int_def)

lemma host_port_written:
  assumes "valid_host host" and "0 \<le> port"
  shows "parse_host (host_port host port) = Some (host_port host port)"
    and "escape EncHost (host_port host port) = host_port host port"
    and "\<not> has_ctl (host_port host port)"
    and "c \<in> set ''#@/?'' \<Longrightarrow> c \<notin> set (host_port host port)"
proof -
  have num: "c \<in> set (show_int port) \<Longrightarrow> is_digit c \<and> \<not> should_escape EncHost c" for c
    by (rule show_int_digits [OF assms(2)])
  then have "valid_port (show_int port)" by (simp add: valid_port_def list_all_iff)
  with assms valid_host_clean(5) [OF assms(1)]
  show "parse_host (host_port host port) = Some (host_port host port)"
    by (simp add: parse_host_def host_port_def)
  have plain: "\<forall>c \<in> set (host_port host port). \<not> should_escape EncHost c"
    using num assms(1) by (auto simp: host_port_def valid_host_def list_all_iff)
  then show "escape EncHost (host_port host port) = host_port host port" by (rule escape_id)
  then show "\<not> has_ctl (host_port host port)" using escape_no_ctl [of EncHost "host_port host port"] by simp
  show "c \<in> set ''#@/?'' \<Longrightarrow> c \<notin> set (host_port host port)" using plain by auto
qed

lemma escape_Nil_iff [simp]: "escape m s = [] \<longleftrightarrow> s = []"
  by (cases s) (auto simp: escape_char_def)

lemma hd_escape_path: "s \<noteq> [] \<Longrightarrow> hd (escape EncPath s) = CHR ''/'' \<longleftrightarrow> hd s = CHR ''/''"
  by (cases s) (auto simp: escape_char_def)

lemma written_path_escape:
  "path \<noteq> ''*'' \<Longrightarrow> written_path path = escape EncPath (rooted path)"
  by (cases "path = []")
    (auto simp: written_path_def escaped_path_def rooted_def Let_def hd_escape_path escape_char_def)

lemma unescape_written_path: "unescape EncPath (written_path path) = Some (rooted path)"
proof (cases "path = ''*''")
  case True
  then show ?thesis by (simp add: written_path_def escaped_path_def rooted_def)
qed (simp add: written_path_escape)

lemma written_path_clean:
  "CHR ''#'' \<notin> set (written_path path)" "CHR ''?'' \<notin> set (written_path path)"
  by (cases "path = ''*''"; simp add: written_path_escape written_path_def [of "''*''"]
        escaped_path_def escape_not_in)+

lemma written_path_hd: "written_path path = [] \<or> hd (written_path path) = CHR ''/''"
  by (simp add: written_path_def Let_def)

lemma takeWhile_until:
  "c \<notin> set xs \<Longrightarrow> ys = [] \<or> hd ys = c \<Longrightarrow> takeWhile (\<lambda>x. x \<noteq> c) (xs @ ys) = xs"
  by (cases ys) (auto simp: takeWhile_sep takeWhile_no_sep)

lemma dropWhile_until:
  "c \<notin> set xs \<Longrightarrow> ys = [] \<or> hd ys = c \<Longrightarrow> dropWhile (\<lambda>x. x \<noteq> c) (xs @ ys) = ys"
  by (cases ys) (auto simp: dropWhile_sep dropWhile_no_sep)

text \<open>
  What \<open>url_string\<close> writes, \<open>url_parse\<close> reads back, whatever bytes the user name, the
  password and the path consist of.
\<close>

lemma url_parse_string:
  assumes scheme: "valid_scheme scheme" "to_lower scheme = scheme" "set scheme \<inter> set ''#:'' = {}"
      "\<not> has_ctl scheme" and user: "user \<noteq> []"
    and host: "valid_host name" "0 \<le> port" and query: "CHR ''#'' \<notin> set raw_query" "\<not> has_ctl raw_query"
  shows "url_parse (url_string scheme user pass (host_port name port) path raw_query) =
           Some (scheme, user, pass, host_port name port, rooted path, raw_query)"
proof -
  define host where "host = host_port name port"
  define u p where "u = escape EncUserPassword user" and "p = escape EncUserPassword pass"
  define q where "q = (if raw_query \<noteq> [] then CHR ''?'' # raw_query else [])"
  define auth where "auth = (u @ CHR '':'' # p) @ CHR ''@'' # host"
  define body where "body = ''//'' @ auth @ written_path path"
  note hostp = host_port_written [OF assms(6,7), folded host_def]
  have hostc: "CHR ''#'' \<notin> set host" "CHR ''@'' \<notin> set host" "CHR ''/'' \<notin> set host" "CHR ''?'' \<notin> set host"
    by (rule hostp(4); simp)+
  note clean = userinfo_clean [of user, folded u_def] userinfo_clean [of pass, folded p_def]
    hostc written_path_clean
  have str: "url_string scheme user pass host path raw_query = scheme @ CHR '':'' # body @ q"
    using user
    by (simp add: url_string_def userinfo_string_def written_path_def hostp(2)
        body_def auth_def q_def u_def p_def)
  have sch: "CHR ''#'' \<notin> set scheme" "CHR '':'' \<notin> set scheme" using scheme(3) by auto
  have frag: "cut CHR ''#'' (scheme @ CHR '':'' # body @ q) = (scheme @ CHR '':'' # body @ q, [])"
    using sch query(1) clean by (intro cut_no_sep) (auto simp: body_def auth_def q_def)
  have qm: "CHR ''?'' \<notin> set body" using clean by (auto simp: body_def auth_def)
  have cq: "cut CHR ''?'' (body @ q) = (body, raw_query)"
    using cut_no_sep [OF qm] cut_sep [OF qm, of raw_query] by (simp add: q_def)
  have slash: "CHR ''/'' \<notin> set auth" using clean by (auto simp: auth_def)
  have at: "cut_last CHR ''@'' auth = (u @ CHR '':'' # p, host)"
    unfolding auth_def using clean by (intro cut_last_sep) auto
  have colon: "cut CHR '':'' (u @ CHR '':'' # p) = (u, p)" using clean by (intro cut_sep)
  have body: "take 2 body = ''//''" "drop 2 body = auth @ written_path path"
    by (simp_all add: body_def)
  have "\<not> has_ctl (written_path path)"
    by (auto simp: written_path_def escaped_path_def Let_def is_ctl_def)
  then have ctl: "\<not> has_ctl (scheme @ CHR '':'' # body @ q)"
    using scheme(4) query(2) hostp(3) by (auto simp: body_def auth_def q_def u_def p_def is_ctl_def)
  have info: "valid_userinfo (u @ CHR '':'' # p)" by (simp add: u_def p_def)
  have dec: "unescape EncUserPassword u = Some user" "unescape EncUserPassword p = Some pass"
    by (simp_all add: u_def p_def)
  show ?thesis
    unfolding host_def [symmetric]
    by (simp add: url_parse_def str frag sch(2) cq at colon body dec unescape_written_path ctl [simplified] info [simplified]
        scheme(1,2) hostp(1) takeWhile_until [OF slash written_path_hd]
        dropWhile_until [OF slash written_path_hd])
qed

text \<open>\<open>url.ParseQuery\<close>: the pairs of a query in order; a malformed pair is skipped.\<close>

definition parse_pair :: "string \<Rightarrow> (string \<times> string) list" where
  "parse_pair s =
     (if CHR '';'' \<in> set s \<or> s = [] then []
      else case cut CHR ''='' s of (k, v) \<Rightarrow>
        (case (unescape EncQuery k, unescape EncQuery v) of
           (Some k', Some v') \<Rightarrow> [(k', v')] | _ \<Rightarrow> []))"

lemma cut_shorter: "s \<noteq> [] \<Longrightarrow> length (snd (cut c s)) < length s"
  by (cases s) (auto simp: cut_def intro: le_less_trans [OF diff_le_self]
      le_imp_less_Suc length_dropWhile_le order_trans [OF diff_le_self])

function parse_query :: "string \<Rightarrow> (string \<times> string) list" where
  "parse_query s =
     (if s = [] then []
      else parse_pair (fst (cut CHR ''&'' s)) @ parse_query (snd (cut CHR ''&'' s)))"
  by pat_completeness auto
termination
  by (relation "measure length") (auto simp: cut_shorter)

declare parse_query.simps [simp del]

lemma query_clean:
  "CHR ''&'' \<notin> set (escape EncQuery s)" "CHR ''='' \<notin> set (escape EncQuery s)"
  "CHR '';'' \<notin> set (escape EncQuery s)"
  by (rule escape_not_in; simp add: should_escape_def is_alnum_def)+

lemma parse_pair_written:
  "k \<noteq> [] \<Longrightarrow> parse_pair (escape EncQuery k @ ''='' @ escape EncQuery v) = [(k, v)]"
  using query_clean by (simp add: parse_pair_def)

lemma pair_no_amp: "CHR ''&'' \<notin> set (escape EncQuery k @ ''='' @ escape EncQuery v)"
  using query_clean by simp

lemma parse_query_encode:
  assumes "k \<noteq> []"
  shows "parse_query (encode_values k vs) = map (Pair k) vs"
proof (induction vs rule: induct_list012)
  case 1
  show ?case by (simp add: parse_query.simps)
next
  case (2 v)
  show ?case
    using assms cut_no_sep [OF pair_no_amp, of k v] parse_pair_written [of k v]
    by (simp add: parse_query.simps [of "_ @ _"] parse_query.simps [of "[]"])
next
  case (3 v w vs)
  let ?pair = "escape EncQuery k @ ''='' @ escape EncQuery v"
  have "encode_values k (v # w # vs) = ?pair @ CHR ''&'' # encode_values k (w # vs)" by simp
  then show ?case
    using "3.IH"(2) assms cut_sep [OF pair_no_amp, of k v "encode_values k (w # vs)"]
      parse_pair_written [of k v]
    by (simp add: parse_query.simps [of "_ @ _"])
qed

end
