(* ===== verification/Float64.thy ===== *)
theory Float64
  imports Complex_Main Go_Prelude
begin

text \<open>
  The part of Go's \<open>float64\<close> (IEEE 754 binary64) that \<open>RetryPolicy.backoff\<close> uses: the
  conversion from \<open>int64\<close>, the product, two comparisons, and the conversion back.

  A finite value is its rational. Every value the code computes is at least 1, so no subnormal
  occurs: \<open>rnd\<close> rounds a rational of at least 1 to a 53-bit significand, ties to even, and a
  result of 2 to the 1024 or more is the infinity. Converting a value that does not fit to
  an integer is implementation-specific in Go, so what it gives is an argument, \<open>oob\<close>.
\<close>

datatype float64 = Fin rat | PosInf | NegInf | NaN

fun ilog2 :: "nat \<Rightarrow> nat" where
  "ilog2 n = (if n < 2 then 0 else Suc (ilog2 (n div 2)))"

declare ilog2.simps [simp del]

definition round_even :: "rat \<Rightarrow> int" where
  "round_even q =
     (let f = \<lfloor>q\<rfloor>; r = q - of_int f
      in if r < 1 / 2 then f else if r > 1 / 2 then f + 1 else if even f then f else f + 1)"

text \<open>The unit in the last place of a value whose binary exponent is \<open>e\<close>.\<close>

definition ulp :: "nat \<Rightarrow> rat" where
  "ulp e = 2 ^ e / 2 ^ 52"

definition rnd :: "rat \<Rightarrow> rat" where
  "rnd x = (let u = ulp (ilog2 (nat \<lfloor>x\<rfloor>)) in of_int (round_even (x / u)) * u)"

definition to_float64 :: "rat \<Rightarrow> float64" where
  "to_float64 x = (if rnd x < 2 ^ 1024 then Fin (rnd x) else PosInf)"

definition f64_of_int :: "int \<Rightarrow> float64" where
  "f64_of_int i = to_float64 (of_int i)"

fun f64_mult :: "float64 \<Rightarrow> float64 \<Rightarrow> float64" where
  "f64_mult (Fin x) (Fin y) = to_float64 (x * y)"
| "f64_mult (Fin x) PosInf = PosInf"
| "f64_mult PosInf (Fin y) = PosInf"
| "f64_mult PosInf PosInf = PosInf"
| "f64_mult _ _ = NaN"

fun f64_less :: "float64 \<Rightarrow> float64 \<Rightarrow> bool" where
  "f64_less (Fin x) (Fin y) = (x < y)"
| "f64_less (Fin _) PosInf = True"
| "f64_less NegInf (Fin _) = True"
| "f64_less NegInf PosInf = True"
| "f64_less _ _ = False"

fun f64_ge :: "float64 \<Rightarrow> float64 \<Rightarrow> bool" where
  "f64_ge (Fin x) (Fin y) = (x \<ge> y)"
| "f64_ge PosInf (Fin _) = True"
| "f64_ge PosInf PosInf = True"
| "f64_ge (Fin _) NegInf = True"
| "f64_ge PosInf NegInf = True"
| "f64_ge NegInf NegInf = True"
| "f64_ge _ _ = False"

definition trunc :: "rat \<Rightarrow> int" where
  "trunc x = (if x < 0 then \<lceil>x\<rceil> else \<lfloor>x\<rfloor>)"

definition int64_of_f64 :: "(float64 \<Rightarrow> int) \<Rightarrow> float64 \<Rightarrow> int" where
  "int64_of_f64 oob f =
     (case f of Fin x \<Rightarrow> if is_int64 (trunc x) then trunc x else oob f | _ \<Rightarrow> oob f)"

section \<open>The exponent\<close>

lemma ilog2_bounds: "0 < n \<Longrightarrow> 2 ^ ilog2 n \<le> n \<and> n < 2 ^ Suc (ilog2 n)"
proof (induction n rule: ilog2.induct)
  case (1 n)
  show ?case
  proof (cases "n < 2")
    case False
    then have "2 ^ ilog2 (n div 2) \<le> n div 2 \<and> n div 2 < 2 ^ Suc (ilog2 (n div 2))"
      using 1 by simp
    moreover have "n = 2 * (n div 2) + n mod 2" "n mod 2 < 2" by simp_all
    ultimately have "2 * 2 ^ ilog2 (n div 2) \<le> n \<and> n < 2 * (2 * 2 ^ ilog2 (n div 2))"
      unfolding power_Suc by linarith
    moreover from False have "ilog2 n = Suc (ilog2 (n div 2))" by (subst ilog2.simps) simp
    ultimately show ?thesis by simp
  qed (use 1 in \<open>subst (1 2) ilog2.simps, simp\<close>)
qed

lemma pow2_unique:
  fixes x :: rat
  assumes "2 ^ e \<le> x" "x < 2 ^ Suc e" "2 ^ f \<le> x" "x < 2 ^ Suc f"
  shows "e = f"
proof -
  from assms have "(2::rat) ^ e < 2 ^ Suc f" "(2::rat) ^ f < 2 ^ Suc e" by linarith+
  then have "e < Suc f" "f < Suc e" by (metis one_less_numeral_iff power_strict_increasing_iff
      semiring_norm(76))+
  then show ?thesis by simp
qed

text \<open>The exponent of a rational of at least 1, as \<open>rnd\<close> computes it, and its characterisation.\<close>

abbreviation "expo x \<equiv> ilog2 (nat \<lfloor>x::rat\<rfloor>)"

lemma expo_bounds:
  assumes "1 \<le> (x::rat)"
  shows "2 ^ expo x \<le> x" and "x < 2 ^ Suc (expo x)"
proof -
  from assms have pos: "0 < nat \<lfloor>x\<rfloor>" by simp
  then have "2 ^ expo x \<le> nat \<lfloor>x\<rfloor>" and "nat \<lfloor>x\<rfloor> < 2 ^ Suc (expo x)"
    using ilog2_bounds by blast+
  then have "2 ^ expo x \<le> \<lfloor>x\<rfloor>" and "\<lfloor>x\<rfloor> < 2 ^ Suc (expo x)"
    using pos by (simp_all add: nat_less_iff le_nat_iff)
  then show "2 ^ expo x \<le> x" and "x < 2 ^ Suc (expo x)"
    by (simp_all add: le_floor_iff floor_less_iff)
qed

lemma expo_eq: "2 ^ e \<le> x \<Longrightarrow> x < 2 ^ Suc e \<Longrightarrow> expo x = e"
proof -
  assume a: "2 ^ e \<le> x" "x < 2 ^ Suc e"
  then have "1 \<le> x" using one_le_power [of "2::rat" e] by linarith
  then show "expo x = e" using a expo_bounds [of x] pow2_unique [of "expo x" x e] by simp
qed

section \<open>Rounding\<close>

lemma round_even_int [simp]: "round_even (of_int n) = n"
  by (simp add: round_even_def Let_def)

lemma round_even_close: "round_even q = \<lfloor>q\<rfloor> \<or> round_even q = \<lfloor>q\<rfloor> + 1"
  by (simp add: round_even_def Let_def)

lemma round_even_mono:
  assumes "p \<le> q"
  shows "round_even p \<le> round_even q"
proof (cases "\<lfloor>p\<rfloor> = \<lfloor>q\<rfloor>")
  case True
  with assms show ?thesis by (auto simp: round_even_def Let_def)
next
  case False
  with assms have "\<lfloor>p\<rfloor> < \<lfloor>q\<rfloor>" by (simp add: floor_mono order_less_le)
  then show ?thesis using round_even_close [of p] round_even_close [of q] by linarith
qed

lemma round_even_le_int: "p \<le> of_int n \<Longrightarrow> round_even p \<le> n"
  using round_even_mono [of p "of_int n"] by simp

lemma round_even_ge_int: "of_int n \<le> p \<Longrightarrow> n \<le> round_even p"
  using round_even_mono [of "of_int n" p] by simp

lemma ulp_pos [simp]: "0 < ulp e"
  by (simp add: ulp_def)

lemma ulp_ne [simp]: "ulp e \<noteq> 0"
  using ulp_pos [of e] by (metis less_irrefl)

lemma ulp_Suc: "ulp (Suc e) = 2 * ulp e"
  by (simp add: ulp_def)

lemma pow2_ulp: "2 ^ e = 2 ^ 52 * ulp e"
  by (simp add: ulp_def)

lemma rnd_eq: "expo x = e \<Longrightarrow> rnd x = of_int (round_even (x / ulp e)) * ulp e"
  by (simp add: rnd_def Let_def)

text \<open>Rounding stays within the binade.\<close>

lemma rnd_bounds:
  assumes "1 \<le> x"
  shows "2 ^ expo x \<le> rnd x" and "rnd x \<le> 2 ^ Suc (expo x)"
proof -
  let ?u = "ulp (expo x)"
  have "of_int (2 ^ 52) \<le> x / ?u" and "x / ?u \<le> of_int (2 ^ 53)"
    using expo_bounds [OF assms] by (simp_all add: pow2_ulp pos_le_divide_eq pos_divide_le_eq)
  then have "2 ^ 52 \<le> round_even (x / ?u)" and "round_even (x / ?u) \<le> 2 ^ 53"
    by (blast intro: round_even_ge_int round_even_le_int)+
  then have "of_int (2 ^ 52) \<le> (of_int (round_even (x / ?u)) :: rat)"
    and "(of_int (round_even (x / ?u)) :: rat) \<le> of_int (2 ^ 53)"
    by (simp_all only: of_int_le_iff)
  then have "of_int (2 ^ 52) * ?u \<le> rnd x" and "rnd x \<le> of_int (2 ^ 53) * ?u"
    unfolding rnd_eq [OF refl] by (simp_all only: mult_right_mono ulp_pos less_imp_le)
  then show "2 ^ expo x \<le> rnd x" and "rnd x \<le> 2 ^ Suc (expo x)"
    by (simp_all add: pow2_ulp)
qed

lemma rnd_ge_1: "1 \<le> x \<Longrightarrow> 1 \<le> rnd x"
  using rnd_bounds(1) [of x] one_le_power [of "2::rat" "expo x"] by linarith

lemma expo_mono:
  assumes "1 \<le> x" "x \<le> y"
  shows "expo x \<le> expo y"
proof (rule ccontr)
  assume "\<not> expo x \<le> expo y"
  then have "(2::rat) ^ Suc (expo y) \<le> 2 ^ expo x" by (simp add: power_increasing del: power_Suc)
  with expo_bounds(1) [of x] expo_bounds(2) [of y] assms show False by linarith
qed

lemma rnd_mono:
  assumes "1 \<le> x" "x \<le> y"
  shows "rnd x \<le> rnd y"
proof (cases "expo x = expo y")
  case True
  have "round_even (x / ulp (expo y)) \<le> round_even (y / ulp (expo y))"
    using assms by (intro round_even_mono divide_right_mono) (simp_all add: less_imp_le)
  then show ?thesis using True by (simp add: rnd_eq mult_right_mono less_imp_le)
next
  case False
  with expo_mono [OF assms] have "(2::rat) ^ Suc (expo x) \<le> 2 ^ expo y"
    by (simp add: power_increasing del: power_Suc)
  with rnd_bounds(2) [of x] rnd_bounds(1) [of y] assms show ?thesis by linarith
qed

text \<open>A value of 53 bits is not changed.\<close>

lemma rnd_exact:
  assumes "1 \<le> x" and "x = of_int m * ulp e" and "m \<le> 2 ^ 53"
  shows "rnd x = x"
proof -
  from assms(3) have "(of_int m :: rat) \<le> of_int (2 ^ 53)" by (simp only: of_int_le_iff)
  then have "of_int m * ulp e \<le> of_int (2 ^ 53) * ulp e"
    by (rule mult_right_mono) (simp add: less_imp_le)
  with assms(2) have "x \<le> of_int (2 ^ 53) * ulp e" by (simp only:)
  then have "x \<le> 2 ^ Suc e" by (simp add: ulp_def)
  then have "expo x \<le> Suc e" using expo_bounds(1) [OF assms(1)]
    by (metis order.trans one_less_numeral_iff power_increasing_iff semiring_norm(76))
  then consider "expo x \<le> e" | "expo x = Suc e" by linarith
  then show ?thesis
  proof cases
    case 1
    define k where "k = expo x"
    from 1 have "ulp e = 2 ^ (e - k) * ulp k"
      by (simp add: k_def ulp_def flip: power_add)
    with assms(2) have quot: "x / ulp k = of_int (m * 2 ^ (e - k))"
      by simp
    then have "round_even (x / ulp k) = m * 2 ^ (e - k)" by (simp only: round_even_int)
    then have "rnd x = x / ulp k * ulp k" unfolding rnd_eq [OF k_def [symmetric]] quot by simp
    then show ?thesis by simp
  next
    case 2
    have x: "x = 2 ^ Suc e" using 2 expo_bounds(1) [OF assms(1)] \<open>x \<le> 2 ^ Suc e\<close> by simp
    then have quot: "x / ulp (Suc e) = of_int (2 ^ 52)" by (simp add: ulp_def)
    then have "round_even (x / ulp (Suc e)) = 2 ^ 52" by (simp only: round_even_int)
    then have "rnd x = x / ulp (Suc e) * ulp (Suc e)" unfolding rnd_eq [OF 2] quot by simp
    then show ?thesis by simp
  qed
qed

lemma rnd_idem:
  assumes "1 \<le> x"
  shows "rnd (rnd x) = rnd x"
proof (rule rnd_exact [of _ "round_even (x / ulp (expo x))" "expo x"])
  have "x / ulp (expo x) \<le> of_int (2 ^ 53)"
    using expo_bounds(2) [OF assms] by (simp add: pow2_ulp pos_divide_le_eq)
  then show "round_even (x / ulp (expo x)) \<le> 2 ^ 53" by (rule round_even_le_int)
  show "rnd x = of_int (round_even (x / ulp (expo x))) * ulp (expo x)"
    by (simp add: rnd_eq [OF refl])
qed (rule rnd_ge_1 [OF assms])

lemma rnd_of_int:
  assumes "1 \<le> n" "n \<le> 2 ^ 53"
  shows "rnd (of_int n) = of_int n"
  using assms by (intro rnd_exact [of _ n 52]) (simp_all add: ulp_def)

lemma rnd_double:
  assumes "1 \<le> x"
  shows "rnd (x * 2) = rnd x * 2"
proof -
  have "expo (x * 2) = Suc (expo x)"
    using expo_bounds [OF assms] by (intro expo_eq) simp_all
  then have "rnd (x * 2) = of_int (round_even (x * 2 / (2 * ulp (expo x)))) * (2 * ulp (expo x))"
    by (simp add: rnd_eq ulp_Suc)
  then show ?thesis by (simp add: rnd_eq [OF refl])
qed

text \<open>An \<open>int64\<close> converts to a finite value of at least 1 and at most 2 to the 63.\<close>

lemma rnd_int64:
  assumes "1 \<le> n" "n < 2 ^ 63"
  shows "1 \<le> rnd (of_int n)" and "rnd (of_int n) \<le> 2 ^ 63"
proof -
  show "1 \<le> rnd (of_int n)" using assms by (simp add: rnd_ge_1)
  from assms(2) have "(of_int n :: rat) \<le> of_int (2 ^ 63)" by (simp only: of_int_le_iff less_imp_le)
  with assms(1) have "rnd (of_int n) \<le> rnd (2 ^ 63)" by (intro rnd_mono) simp_all
  moreover have "rnd (2 ^ 63) = 2 ^ 63"
    by (rule rnd_exact [of _ "2 ^ 52" 63]) (simp_all add: ulp_def)
  ultimately show "rnd (of_int n) \<le> 2 ^ 63" by simp
qed

lemma f64_of_int_Fin:
  assumes "1 \<le> n" "n < 2 ^ 63"
  shows "f64_of_int n = Fin (rnd (of_int n))"
proof -
  have "rnd (of_int n) < 2 ^ 1024"
    using rnd_int64(2) [OF assms] power_strict_increasing [of 63 1024 "2::rat"] by simp
  then show ?thesis by (simp add: f64_of_int_def to_float64_def)
qed

lemma trunc_pos: "0 \<le> x \<Longrightarrow> trunc x = \<lfloor>x\<rfloor>"
  by (simp add: trunc_def)

lemma int64_of_Fin:
  assumes "1 \<le> x" "x < 2 ^ 63"
  shows "int64_of_f64 oob (Fin x) = \<lfloor>x\<rfloor>"
proof -
  have "\<lfloor>x\<rfloor> < 2 ^ 63" using assms by (simp add: floor_less_iff)
  moreover have "0 \<le> \<lfloor>x\<rfloor>" using assms by simp
  ultimately show ?thesis using assms by (simp add: int64_of_f64_def trunc_pos is_int64_def)
qed

end
