(* ===== verification/Rabbit_Policy.thy ===== *)
theory Rabbit_Policy
  imports Float64 Go_Errors "HOL-Library.AList"
begin

text \<open>
  The pure part of the rabbitmq retry pipeline: AMQP header tables, \<open>SubscribeOptions\<close> and
  \<open>buildQueueArgs\<close>, \<open>RetryPolicy\<close> and its accessors, the exponential \<open>backoff\<close>, and the
  retry counter carried in a header.
\<close>

section \<open>AMQP tables\<close>

text \<open>
  An \<open>amqp.Table\<close> is a Go map from strings to values; an association list here, of which
  only \<open>map_of\<close> matters. A nil table is None. The integer values keep their Go width.
\<close>

datatype amqp_value = VInt32 "32 word" | VInt64 "64 word" | VInt "64 word" | VString string | VOther nat

type_synonym amqp_entries = "(string \<times> amqp_value) list"
type_synonym amqp_table = "amqp_entries option"

definition table_get :: "amqp_table \<Rightarrow> string \<Rightarrow> amqp_value option" where
  "table_get t k = (case t of None \<Rightarrow> None | Some es \<Rightarrow> map_of es k)"

definition table_len :: "amqp_table \<Rightarrow> nat" where
  "table_len t = (case t of None \<Rightarrow> 0 | Some es \<Rightarrow> length (remdups (map fst es)))"

text \<open>\<open>maps.Copy(dst, src)\<close>, with a fresh or existing non-nil \<open>dst\<close>.\<close>

definition table_copy :: "amqp_entries \<Rightarrow> amqp_table \<Rightarrow> amqp_entries" where
  "table_copy dst src =
     (case src of None \<Rightarrow> dst | Some es \<Rightarrow> foldr (\<lambda>(k, v). AList.update k v) es dst)"

lemma map_of_copy: "map_of (table_copy dst src) k =
    (case table_get src k of None \<Rightarrow> map_of dst k | Some v \<Rightarrow> Some v)"
proof (cases src)
  case (Some es)
  have "map_of (foldr (\<lambda>(k, v). AList.update k v) es dst) k =
      (case map_of es k of None \<Rightarrow> map_of dst k | Some v \<Rightarrow> Some v)"
    by (induction es) (auto simp: update_conv')
  with Some show ?thesis by (simp add: table_copy_def table_get_def)
qed (simp add: table_copy_def table_get_def)

lemma table_len_0: "table_len t = 0 \<longleftrightarrow> (\<forall>k. table_get t k = None)"
proof (cases t)
  case (Some es)
  then show ?thesis by (cases es) (auto simp: table_len_def table_get_def)
qed (simp add: table_len_def table_get_def)

section \<open>Retry policy\<close>

record retry_policy =
  rp_MaxRetries :: int
  rp_Backoff :: duration
  rp_BackoffMultiplier :: float64
  rp_MaxBackoff :: duration
  rp_RetryQueue :: string
  rp_DLQ :: string

definition maxRetries :: "retry_policy \<Rightarrow> int" where
  "maxRetries p = (if rp_MaxRetries p \<noteq> 0 then max (rp_MaxRetries p) 0 else 3)"

definition retryQueue :: "retry_policy \<Rightarrow> string \<Rightarrow> string" where
  "retryQueue p queue = (if rp_RetryQueue p \<noteq> '''' then rp_RetryQueue p else queue @ ''.retry'')"

definition dlq :: "retry_policy \<Rightarrow> string \<Rightarrow> string" where
  "dlq p queue = (if rp_DLQ p \<noteq> '''' then rp_DLQ p else queue @ ''.dlq'')"

text \<open>The three defaults at the head of \<open>backoff\<close>.\<close>

definition backoff_base :: "retry_policy \<Rightarrow> duration" where
  "backoff_base p = (if rp_Backoff p \<le> 0 then second else rp_Backoff p)"

definition backoff_mult :: "retry_policy \<Rightarrow> float64" where
  "backoff_mult p =
     (if f64_less (rp_BackoffMultiplier p) (Fin 1)
      then if rp_BackoffMultiplier p = Fin 0 then Fin 2 else Fin 1
      else rp_BackoffMultiplier p)"

definition backoff_max :: "retry_policy \<Rightarrow> duration" where
  "backoff_max p = (if rp_MaxBackoff p \<le> 0 then 5 * minute else rp_MaxBackoff p)"

text \<open>The loop: \<open>Inl\<close> is its early return of \<open>maxB\<close>, \<open>Inr\<close> the value it ends with.\<close>

function backoff_loop :: "float64 \<Rightarrow> duration \<Rightarrow> int \<Rightarrow> int \<Rightarrow> float64 \<Rightarrow> duration + float64" where
  "backoff_loop mult maxB attempt i d =
     (if i < attempt then
        (let d = f64_mult d mult
         in if f64_ge d (f64_of_int maxB) then Inl maxB else backoff_loop mult maxB attempt (i + 1) d)
      else Inr d)"
  by auto
termination by (relation "measure (\<lambda>(_, _, attempt, i, _). nat (attempt - i))") auto

declare backoff_loop.simps [simp del]

definition backoff :: "(float64 \<Rightarrow> int) \<Rightarrow> retry_policy \<Rightarrow> int \<Rightarrow> duration" where
  "backoff oob p attempt =
     (let base = backoff_base p; mult = backoff_mult p; maxB = backoff_max p
      in case backoff_loop mult maxB attempt 1 (f64_of_int base) of
           Inl r \<Rightarrow> r
         | Inr d \<Rightarrow> min (int64_of_f64 oob d) maxB)"

section \<open>Subscribe options and the retry header\<close>

record subscribe_options =
  so_QueueArgs :: amqp_table
  so_QueueType :: string
  so_Retry :: "retry_policy option"

abbreviation "QueueTypeQuorum \<equiv> ''quorum''"
abbreviation "RetryHeader \<equiv> ''x-retry-count''"

definition buildQueueArgs :: "subscribe_options \<Rightarrow> amqp_table" where
  "buildQueueArgs opts =
     (if table_len (so_QueueArgs opts) = 0 \<and> so_QueueType opts = '''' then None
      else (let args = table_copy [] (so_QueueArgs opts)
            in Some (if so_QueueType opts \<noteq> ''''
                     then AList.update ''x-queue-type'' (VString (so_QueueType opts)) args else args)))"

definition retryCount :: "amqp_table \<Rightarrow> int" where
  "retryCount headers =
     (case table_get headers RetryHeader of
        None \<Rightarrow> 0
      | Some (VInt32 n) \<Rightarrow> sint n
      | Some (VInt64 n) \<Rightarrow> sint n
      | Some (VInt n) \<Rightarrow> sint n
      | Some _ \<Rightarrow> 0)"

text \<open>The headers \<open>republish\<close> builds; \<open>int32(retries)\<close> keeps the low 32 bits.\<close>

definition stamp_headers :: "amqp_table \<Rightarrow> int \<Rightarrow> amqp_entries" where
  "stamp_headers headers retries =
     AList.update RetryHeader (VInt32 (word_of_int retries)) (table_copy [] headers)"

lemma stamp_get:
  "table_get (Some (stamp_headers hs n)) k =
     (if k = RetryHeader then Some (VInt32 (word_of_int n)) else table_get hs k)"
  by (simp add: stamp_headers_def table_get_def [of "Some _"] update_conv' map_of_copy split: option.split)

lemma retryCount_stamp: "retryCount (Some (stamp_headers hs n)) = signed_take_bit 31 n"
  by (simp add: retryCount_def stamp_get signed_of_int)

lemma sint32_id: "signed_take_bit 31 (n :: int) = n \<longleftrightarrow> - (2 ^ 31) \<le> n \<and> n < 2 ^ 31"
  by (auto simp: signed_take_bit_int_eq_self_iff)

section \<open>Backoff lemmas\<close>

lemma backoff_base_pos: "0 < backoff_base p"
  by (simp add: backoff_base_def)

lemma backoff_max_pos: "0 < backoff_max p"
  by (simp add: backoff_max_def)

text \<open>The multiplier that is used is 2, 1, infinite, or a finite value of at least 1.\<close>

lemma backoff_mult_cases:
  assumes "rp_BackoffMultiplier p \<noteq> NaN"
  obtains (Fin) m where "backoff_mult p = Fin m" "1 \<le> m" | (Inf) "backoff_mult p = PosInf"
proof (cases "rp_BackoffMultiplier p")
  case (Fin x)
  then show ?thesis using that(1) [of "if x < 1 then if x = 0 then 2 else 1 else x"]
    by (simp add: backoff_mult_def)
qed (use that assms in \<open>simp_all add: backoff_mult_def\<close>)

lemma grow: "1 \<le> (d::rat) \<Longrightarrow> 1 \<le> m \<Longrightarrow> d \<le> d * m \<and> 1 \<le> d * m"
  using mult_left_mono [of 1 m d] by linarith

lemma nat_iterates: "nat (attempt - i) = Suc k \<Longrightarrow> i < attempt \<and> nat (attempt - (i + 1)) = k"
  by linarith

text \<open>
  The loop as a recursion over the number of iterations still to run, for a finite multiplier:
  \<open>delay m maxB d k\<close> is the value after \<open>k\<close> more iterations, None once it has reached the cap.
\<close>

fun delay :: "rat \<Rightarrow> rat \<Rightarrow> rat \<Rightarrow> nat \<Rightarrow> rat option" where
  "delay m cap d 0 = Some d"
| "delay m cap d (Suc k) = (if rnd (d * m) < cap then delay m cap (rnd (d * m)) k else None)"

lemma delay_Suc_end:
  "delay m cap d (Suc k) =
     (case delay m cap d k of
        None \<Rightarrow> None | Some x \<Rightarrow> if rnd (x * m) < cap then Some (rnd (x * m)) else None)"
proof (induction k arbitrary: d)
  case (Suc k)
  show ?case using Suc [of "rnd (d * m)"] by simp
qed simp

lemma delay_bounds:
  "delay m cap d k = Some x \<Longrightarrow> 1 \<le> m \<Longrightarrow> 1 \<le> d \<Longrightarrow> rnd d = d \<Longrightarrow>
     d \<le> x \<and> rnd x = x \<and> (0 < k \<longrightarrow> x < cap)"
proof (induction k arbitrary: d)
  case (Suc k)
  from Suc.prems have below: "rnd (d * m) < cap"
    and rest: "delay m cap (rnd (d * m)) k = Some x" by (auto split: if_splits)
  from grow [OF Suc.prems(3,2)] have "1 \<le> d * m" and "d \<le> d * m" by simp_all
  with Suc.prems have "d \<le> rnd (d * m)" using rnd_mono [of d "d * m"] by simp
  moreover from \<open>1 \<le> d * m\<close> have "1 \<le> rnd (d * m)" and "rnd (rnd (d * m)) = rnd (d * m)"
    by (simp_all add: rnd_ge_1 rnd_idem)
  ultimately have "rnd (d * m) \<le> x \<and> rnd x = x \<and> (0 < k \<longrightarrow> x < cap)"
    using Suc.IH [OF rest] Suc.prems by blast
  moreover have "k = 0 \<Longrightarrow> x = rnd (d * m)" using rest by simp
  ultimately show ?case using \<open>d \<le> rnd (d * m)\<close> below by (cases k) auto
qed auto

lemma backoff_loop_delay:
  assumes "1 \<le> maxB" "maxB < 2 ^ 63" "1 \<le> m"
  shows "1 \<le> d \<Longrightarrow> backoff_loop (Fin m) maxB attempt i (Fin d) =
    (case delay m (rnd (of_int maxB)) d (nat (attempt - i)) of None \<Rightarrow> Inl maxB | Some x \<Rightarrow> Inr (Fin x))"
proof (induction "nat (attempt - i)" arbitrary: i d)
  case 0
  then show ?case by (subst backoff_loop.simps) simp
next
  case (Suc k)
  from nat_iterates [OF Suc.hyps(2) [symmetric]]
  have more: "i < attempt" and left: "nat (attempt - (i + 1)) = k" by simp_all
  have cap: "f64_of_int maxB = Fin (rnd (of_int maxB))" using f64_of_int_Fin assms(1,2) .
  have small: "rnd (of_int maxB) < 2 ^ 1024"
    using rnd_int64(2) [OF assms(1,2)] power_strict_increasing [of 63 1024 "2::rat"] by simp
  have one: "1 \<le> rnd (d * m)"
    using grow [OF Suc.prems assms(3)] by (intro rnd_ge_1) simp
  show ?case
  proof (cases "rnd (d * m) < rnd (of_int maxB)")
    case True
    with small have "f64_mult (Fin d) (Fin m) = Fin (rnd (d * m))" by (simp add: to_float64_def)
    with True more Suc.hyps(1) [OF left [symmetric] one] left Suc.hyps(2) show ?thesis
      by (subst backoff_loop.simps) (simp add: cap flip: Suc.hyps(2))
  next
    case False
    then have "f64_ge (f64_mult (Fin d) (Fin m)) (f64_of_int maxB)"
      by (simp add: to_float64_def cap)
    with False more show ?thesis
      by (subst backoff_loop.simps) (simp add: flip: Suc.hyps(2))
  qed
qed

lemma backoff_loop_inf:
  assumes "1 \<le> maxB" "maxB < 2 ^ 63"
  shows "backoff_loop PosInf maxB attempt 1 (Fin d) = (if 1 < attempt then Inl maxB else Inr (Fin d))"
  by (subst backoff_loop.simps) (simp add: f64_of_int_Fin [OF assms])

text \<open>What the fields of a policy are in Go: \<open>time.Duration\<close> values, so \<open>int64\<close>.\<close>

definition policy_ok :: "retry_policy \<Rightarrow> bool" where
  "policy_ok p \<longleftrightarrow>
     is_int64 (rp_Backoff p) \<and> is_int64 (rp_MaxBackoff p) \<and> rp_BackoffMultiplier p \<noteq> NaN"

lemma policy_range:
  assumes "policy_ok p"
  shows "1 \<le> backoff_base p" "backoff_base p < 2 ^ 63" "1 \<le> backoff_max p" "backoff_max p < 2 ^ 63"
  using assms backoff_base_pos [of p] backoff_max_pos [of p]
  by (auto simp: policy_ok_def backoff_base_def backoff_max_def is_int64_def)

lemma base_f64:
  "policy_ok p \<Longrightarrow> f64_of_int (backoff_base p) = Fin (rnd (of_int (backoff_base p)))"
  by (rule f64_of_int_Fin [OF policy_range(1,2)])

lemma backoff_delay:
  assumes "policy_ok p" and "backoff_mult p = Fin m" and "1 \<le> m"
  shows "backoff oob p attempt =
    (case delay m (rnd (of_int (backoff_max p))) (rnd (of_int (backoff_base p))) (nat (attempt - 1)) of
       None \<Rightarrow> backoff_max p
     | Some x \<Rightarrow> min (int64_of_f64 oob (Fin x)) (backoff_max p))"
  using backoff_loop_delay [OF policy_range(3,4) [OF assms(1)] assms(3)
      rnd_int64(1) [OF policy_range(1,2) [OF assms(1)]], of attempt 1]
  by (auto simp: backoff_def Let_def assms(2) base_f64 [OF assms(1)] split: option.split)

lemma backoff_infinite:
  assumes "policy_ok p" and "backoff_mult p = PosInf"
  shows "backoff oob p attempt =
    (if 1 < attempt then backoff_max p
     else min (int64_of_f64 oob (f64_of_int (backoff_base p))) (backoff_max p))"
  by (simp add: backoff_def Let_def assms(2) base_f64 [OF assms(1)]
      backoff_loop_inf [OF policy_range(3,4) [OF assms(1)]])

text \<open>
  A base whose conversion to \<open>float64\<close> is below 2 to the 63 converts back; the 512 largest
  \<open>int64\<close> values round up to 2 to the 63 and do not.
\<close>

lemma base_fits:
  assumes "policy_ok p" and "backoff_base p \<le> 2 ^ 63 - 1024"
  shows "rnd (of_int (backoff_base p)) < 2 ^ 63"
proof -
  have "(of_int (backoff_base p) :: rat) \<le> of_int (2 ^ 63 - 1024)"
    using assms(2) by (simp only: of_int_le_iff)
  then have "rnd (of_int (backoff_base p)) \<le> rnd (of_int (2 ^ 63 - 1024))"
    using policy_range(1) [OF assms(1)] by (intro rnd_mono) simp_all
  also have "rnd (of_int (2 ^ 63 - 1024)) = of_int (2 ^ 63 - 1024)"
    by (rule rnd_exact [of _ "2 ^ 53 - 1" 62]) (simp_all add: ulp_def)
  finally show ?thesis by simp
qed

lemma delay_pos:
  assumes "policy_ok p" and "backoff_base p \<le> 2 ^ 63 - 1024" and "1 \<le> m"
    and "delay m (rnd (of_int (backoff_max p))) (rnd (of_int (backoff_base p))) k = Some x"
  shows "rnd (of_int (backoff_base p)) \<le> x \<and> x < 2 ^ 63 \<and> int64_of_f64 oob (Fin x) = \<lfloor>x\<rfloor> \<and> rnd x = x"
proof -
  let ?b = "rnd (of_int (backoff_base p))"
  have one: "1 \<le> ?b" using rnd_int64(1) policy_range(1,2) [OF assms(1)] .
  have "?b \<le> x \<and> rnd x = x \<and> (0 < k \<longrightarrow> x < rnd (of_int (backoff_max p)))"
    using delay_bounds [OF assms(4,3) one] policy_range(1) [OF assms(1)] by (simp add: rnd_idem)
  moreover have "x < 2 ^ 63"
  proof (cases k)
    case 0
    with assms(4) base_fits [OF assms(1,2)] show ?thesis by simp
  next
    case (Suc j)
    with calculation rnd_int64(2) [OF policy_range(3,4) [OF assms(1)]] show ?thesis by linarith
  qed
  moreover from one calculation have "1 \<le> x" by simp
  ultimately show ?thesis by (simp add: int64_of_Fin)
qed

text \<open>One more attempt never shortens the delay.\<close>

lemma backoff_step:
  assumes "policy_ok p" and "backoff_base p \<le> 2 ^ 63 - 1024"
  shows "backoff oob p attempt \<le> backoff oob p (attempt + 1)"
proof (cases "attempt < 1")
  case True
  then show ?thesis
    by (subst (1 2) backoff_def) (simp add: Let_def backoff_loop.simps [of _ _ _ 1])
next
  case False
  then have next_iter: "nat attempt = Suc (nat (attempt - 1))" by simp
  from assms(1) have "rp_BackoffMultiplier p \<noteq> NaN" by (simp add: policy_ok_def)
  then show ?thesis
  proof (cases rule: backoff_mult_cases)
    case (Fin m)
    let ?cap = "rnd (of_int (backoff_max p))" and ?b = "rnd (of_int (backoff_base p))"
    show ?thesis
    proof (cases "delay m ?cap ?b (nat (attempt - 1))")
      case None
      then show ?thesis using backoff_delay [OF assms(1) Fin] by (simp add: next_iter delay_Suc_end del: delay.simps)
    next
      case (Some x)
      from delay_pos [OF assms Fin(2) Some, of oob]
      have x: "?b \<le> x" "int64_of_f64 oob (Fin x) = \<lfloor>x\<rfloor>" "rnd x = x" by simp_all
      from x(1) rnd_int64(1) [OF policy_range(1,2) [OF assms(1)]] have "1 \<le> x" by linarith
      with grow [OF _ Fin(2), of x] x(3) rnd_mono [of x "x * m"] have up: "x \<le> rnd (x * m)" by simp
      show ?thesis
      proof (cases "rnd (x * m) < ?cap")
        case True
        then have "delay m ?cap ?b (Suc (nat (attempt - 1))) = Some (rnd (x * m))"
          by (simp add: delay_Suc_end Some del: delay.simps)
        from delay_pos [OF assms Fin(2) this, of oob]
        have "int64_of_f64 oob (Fin (rnd (x * m))) = \<lfloor>rnd (x * m)\<rfloor>" by simp
        with up x(2) floor_mono [OF up] show ?thesis
          using backoff_delay [OF assms(1) Fin] True Some
          by (simp add: next_iter delay_Suc_end del: delay.simps)
      qed (use backoff_delay [OF assms(1) Fin] Some in
          \<open>simp add: next_iter delay_Suc_end del: delay.simps\<close>)
    qed
  next
    case Inf
    with False show ?thesis by (simp add: backoff_infinite [OF assms(1)])
  qed
qed

lemma delay_doubles:
  "rnd b = b \<Longrightarrow> 1 \<le> b \<Longrightarrow>
     delay 2 cap b k = (if k = 0 \<or> b * 2 ^ k < cap then Some (b * 2 ^ k) else None)"
proof (induction k arbitrary: b)
  case (Suc k)
  have twice: "rnd (b * 2) = b * 2" using Suc.prems(1,2) by (simp add: rnd_double)
  show ?case
  proof (cases "b * 2 < cap")
    case True
    then show ?thesis using Suc.IH [of "b * 2"] Suc.prems(2) twice by (auto simp: mult.assoc)
  next
    case False
    have "b * 2 * 1 \<le> b * 2 * 2 ^ k" using Suc.prems(2) by (intro mult_left_mono) simp_all
    with False have "\<not> b * 2 ^ Suc k < cap" by (simp add: mult.assoc)
    with False show ?thesis by (simp add: twice)
  qed
qed simp

section \<open>Properties\<close>

text \<open>
  C19. The retry delay is always positive, never above \<open>MaxBackoff\<close>, and does not shrink from
  one attempt to the next, for every multiplier but NaN, rounding and overflow of the
  \<open>float64\<close> arithmetic included, when the base is at most 2 to the 63 minus 1024 nanoseconds.
\<close>
theorem backoff_bounds:
  assumes "policy_ok p" and "backoff_base p \<le> 2 ^ 63 - 1024"
  shows "0 < backoff oob p attempt \<and> backoff oob p attempt \<le> backoff_max p \<and>
    backoff oob p attempt \<le> backoff oob p (attempt + 1)"
proof -
  from policy_range [OF assms(1)] have caps: "0 < backoff_max p" by simp
  have one: "1 \<le> rnd (of_int (backoff_base p))"
    using rnd_int64(1) policy_range(1,2) [OF assms(1)] .
  have base: "0 < int64_of_f64 oob (f64_of_int (backoff_base p))"
    using one base_fits [OF assms] by (simp add: base_f64 [OF assms(1)] int64_of_Fin)
  from assms(1) have "rp_BackoffMultiplier p \<noteq> NaN" by (simp add: policy_ok_def)
  then have "0 < backoff oob p attempt \<and> backoff oob p attempt \<le> backoff_max p"
  proof (cases rule: backoff_mult_cases)
    case (Fin m)
    show ?thesis
    proof (cases "delay m (rnd (of_int (backoff_max p))) (rnd (of_int (backoff_base p))) (nat (attempt - 1))")
      case None
      with caps show ?thesis by (simp add: backoff_delay [OF assms(1) Fin])
    next
      case (Some x)
      from delay_pos [OF assms Fin(2) Some, of oob] one
      have "0 < int64_of_f64 oob (Fin x)" by simp
      with Some caps show ?thesis by (simp add: backoff_delay [OF assms(1) Fin])
    qed
  next
    case Inf
    with caps base show ?thesis by (simp add: backoff_infinite [OF assms(1)])
  qed
  with backoff_step [OF assms] show ?thesis by blast
qed

text \<open>
  With the default multiplier, or 2, the delay before retry number \<open>k\<close> is exactly the base
  times 2 to the \<open>k - 1\<close>, capped at \<open>MaxBackoff\<close>, for delays of at most 2 to the 53
  nanoseconds (104 days): the floating-point loop loses nothing.
\<close>
theorem backoff_doubles:
  assumes "policy_ok p" and "rp_BackoffMultiplier p \<in> {Fin 0, Fin 2}"
    and "backoff_base p \<le> 2 ^ 53" and "backoff_max p \<le> 2 ^ 53"
  shows "backoff oob p (int (Suc k)) = min (backoff_base p * 2 ^ k) (backoff_max p)"
proof -
  let ?B = "of_int (backoff_base p) :: rat" and ?M = "of_int (backoff_max p) :: rat"
  note range = policy_range [OF assms(1)]
  have two: "backoff_mult p = Fin 2" using assms(2) by (auto simp: backoff_mult_def)
  have exact: "rnd ?B = ?B" "rnd ?M = ?M" using rnd_of_int range(1,3) assms(3,4) by blast+
  have "1 \<le> ?B" using range(1) by simp
  have val: "backoff oob p (int (Suc k)) =
      (case delay 2 ?M ?B k of None \<Rightarrow> backoff_max p
       | Some x \<Rightarrow> min (int64_of_f64 oob (Fin x)) (backoff_max p))"
    using backoff_delay [OF assms(1) two, of oob "int (Suc k)"] by (simp add: exact)
  have prod: "?B * 2 ^ k = of_int (backoff_base p * 2 ^ k)" by simp
  show ?thesis
  proof (cases "delay 2 ?M ?B k")
    case None
    then have "\<not> ?B * 2 ^ k < ?M"
      unfolding delay_doubles [OF exact(1) \<open>1 \<le> ?B\<close>] by (simp split: if_splits)
    then have "backoff_max p \<le> backoff_base p * 2 ^ k"
      unfolding prod of_int_less_iff by simp
    with None show ?thesis unfolding val by simp
  next
    case (Some x)
    have x: "x = of_int (backoff_base p * 2 ^ k)"
      using Some unfolding delay_doubles [OF exact(1) \<open>1 \<le> ?B\<close>] by (simp split: if_splits)
    have "backoff_base p \<le> 2 ^ 63 - 1024" using assms(3) by simp
    from delay_pos [OF assms(1) this, of 2 k x oob] Some exact
    have "int64_of_f64 oob (Fin x) = \<lfloor>x\<rfloor>" by simp
    then have "int64_of_f64 oob (Fin x) = backoff_base p * 2 ^ k" unfolding x by (simp only: floor_of_int)
    with Some show ?thesis unfolding val by simp
  qed
qed

definition default_policy :: retry_policy where
  "default_policy = \<lparr>rp_MaxRetries = 0, rp_Backoff = 0, rp_BackoffMultiplier = Fin 0,
     rp_MaxBackoff = 0, rp_RetryQueue = [], rp_DLQ = []\<rparr>"

theorem backoff_bounds_witness:
  "0 < backoff (\<lambda>_. 0) default_policy 9 \<and> backoff (\<lambda>_. 0) default_policy 9 \<le> 5 * minute"
proof -
  have "policy_ok default_policy" "backoff_base default_policy \<le> 2 ^ 63 - 1024"
    "backoff_max default_policy = 5 * minute"
    by (simp_all add: policy_ok_def default_policy_def is_int64_def backoff_base_def backoff_max_def)
  with backoff_bounds [of default_policy "\<lambda>_. 0" 9] show ?thesis by simp
qed

theorem backoff_doubles_witness:
  "backoff (\<lambda>_. 0) default_policy 3 = 4 * second \<and> backoff (\<lambda>_. 0) default_policy 10 = 5 * minute"
proof -
  have ok: "policy_ok default_policy" "rp_BackoffMultiplier default_policy \<in> {Fin 0, Fin 2}"
    "backoff_base default_policy \<le> 2 ^ 53" "backoff_max default_policy \<le> 2 ^ 53"
    by (simp_all add: policy_ok_def default_policy_def is_int64_def backoff_base_def backoff_max_def)
  from backoff_doubles [OF ok, of "\<lambda>_. 0" 2] backoff_doubles [OF ok, of "\<lambda>_. 0" 9] show ?thesis
    by (simp add: backoff_base_def backoff_max_def default_policy_def)
qed

end
