(* ===== verification/Rabbitmq.thy ===== *)
theory Rabbitmq
  imports Observe Net_Url Rabbit_Policy Lifecycle
begin

text \<open>
  The rabbitmq component: \<open>Config\<close> and the AMQP URI, the topology it declares, \<open>Start\<close>,
  \<open>Stop\<close>, \<open>Health\<close>, the three publish operations, and what a consumer does with a delivery.
  amqp091-go is a parameter, the record \<open>amqp\<close> of its calls on an opaque state.

  Every call of the broker is also appended, with what it returned, to a list beside the
  driver's state: the theorems speak of that list. The code does not see it.
\<close>

section \<open>Configuration\<close>

record rabbit_config =
  mc_Host :: string
  mc_Port :: int
  mc_VHost :: string
  mc_User :: string
  mc_Pass :: string
  mc_URI :: string
  mc_ConnectTimeout :: duration
  mc_PublishTimeout :: duration
  mc_OnOperation :: "sink option"

definition rabbit_onOperation :: "rabbit_config \<Rightarrow> sink option" where
  "rabbit_onOperation c = mc_OnOperation c"

definition rabbit_uri :: "rabbit_config \<Rightarrow> string" where
  "rabbit_uri c =
     (if mc_URI c \<noteq> '''' then mc_URI c
      else (let host = (if mc_Host c = '''' then ''localhost'' else mc_Host c);
                port = (if mc_Port c = 0 then 5672 else mc_Port c);
                vhost = (if mc_VHost c = '''' then ''/'' else mc_VHost c);
                user = (if mc_User c = '''' then ''guest'' else mc_User c)
            in url_string ''amqp'' user (mc_Pass c) (host_port host port) vhost ''''))"

definition rabbit_connectTimeout :: "rabbit_config \<Rightarrow> duration" where
  "rabbit_connectTimeout c = (if mc_ConnectTimeout c > 0 then mc_ConnectTimeout c else 10 * second)"

definition rabbit_publishTimeout :: "rabbit_config \<Rightarrow> duration" where
  "rabbit_publishTimeout c = (if mc_PublishTimeout c > 0 then mc_PublishTimeout c else 5 * second)"

section \<open>Data\<close>

text \<open>An exchange kind is a string; four are named.\<close>

type_synonym exchange_kind = string

definition ExchangeDirect :: exchange_kind where "ExchangeDirect = ''direct''"
definition ExchangeTopic :: exchange_kind where "ExchangeTopic = ''topic''"
definition ExchangeFanout :: exchange_kind where "ExchangeFanout = ''fanout''"
definition ExchangeHeaders :: exchange_kind where "ExchangeHeaders = ''headers''"

record exchangeDecl =
  ed_name :: string
  ed_kind :: exchange_kind
  ed_durable :: bool

text \<open>A handler is an opaque function value; what a call of it returns is an argument where it matters.\<close>

record subscription =
  sub_routingKey :: string
  sub_exchange :: string
  sub_queue :: string
  sub_queueArgs :: amqp_table
  sub_retry :: "retry_policy option"
  sub_handler :: nat

record publishing =
  pb_Headers :: amqp_table
  pb_ContentType :: string
  pb_ContentEncoding :: string
  pb_DeliveryMode :: nat
  pb_Priority :: nat
  pb_CorrelationId :: string
  pb_ReplyTo :: string
  pb_Expiration :: string
  pb_MessageId :: string
  pb_Timestamp :: int
  pb_Type :: string
  pb_UserId :: string
  pb_AppId :: string
  pb_Body :: string

record delivery =
  dl_Headers :: amqp_table
  dl_ContentType :: string
  dl_ContentEncoding :: string
  dl_Priority :: nat
  dl_CorrelationId :: string
  dl_ReplyTo :: string
  dl_MessageId :: string
  dl_Timestamp :: int
  dl_Type :: string
  dl_UserId :: string
  dl_AppId :: string
  dl_Body :: string
  dl_Tag :: nat

text \<open>The zero value of \<open>amqp.Publishing\<close> (a zero \<open>time.Time\<close> is 0), and \<open>amqp.Persistent\<close>.\<close>

definition publishing0 :: publishing where
  "publishing0 = \<lparr>pb_Headers = None, pb_ContentType = '''', pb_ContentEncoding = '''',
     pb_DeliveryMode = 0, pb_Priority = 0, pb_CorrelationId = '''', pb_ReplyTo = '''',
     pb_Expiration = '''', pb_MessageId = '''', pb_Timestamp = 0, pb_Type = '''',
     pb_UserId = '''', pb_AppId = '''', pb_Body = ''''\<rparr>"

abbreviation "amqp_Persistent \<equiv> (2 :: nat)"
abbreviation "amqp_ChannelError \<equiv> (504 :: int)"

abbreviation "ContentTypeJSON \<equiv> ''application/json''"
abbreviation "ContentTypeJSONUTF8 \<equiv> ''application/json; charset=utf-8''"
abbreviation "ContentTypeText \<equiv> ''text/plain''"
abbreviation "ContentTypeBytes \<equiv> ''application/octet-stream''"

section \<open>The broker\<close>

datatype bcall =
    BDial string duration "handle result"
  | BOpenChannel handle "handle result"
  | BExchange handle exchangeDecl "goerr option"
  | BQueue handle string amqp_table "goerr option"
  | BBind handle string string string "goerr option"
  | BConsume handle string "goerr option"
  | BPublish handle string string publishing "goerr option"
  | BAck nat "goerr option"
  | BNack nat bool "goerr option"
  | BCloseChannel handle "goerr option"
  | BCloseConn handle "goerr option"

record 's amqp =
  a_Dial :: "string \<Rightarrow> duration \<Rightarrow> 's \<Rightarrow> handle result \<times> 's"
  a_Channel :: "handle \<Rightarrow> 's \<Rightarrow> handle result \<times> 's"
  a_ExchangeDeclare :: "handle \<Rightarrow> exchangeDecl \<Rightarrow> 's \<Rightarrow> goerr option \<times> 's"
  a_QueueDeclare :: "handle \<Rightarrow> string \<Rightarrow> amqp_table \<Rightarrow> 's \<Rightarrow> goerr option \<times> 's"
  a_QueueBind :: "handle \<Rightarrow> string \<Rightarrow> string \<Rightarrow> string \<Rightarrow> 's \<Rightarrow> goerr option \<times> 's"
  a_Consume :: "handle \<Rightarrow> string \<Rightarrow> 's \<Rightarrow> goerr option \<times> 's"
  a_Publish :: "handle \<Rightarrow> duration \<Rightarrow> string \<Rightarrow> string \<Rightarrow> publishing \<Rightarrow> 's \<Rightarrow> goerr option \<times> 's"
  a_Ack :: "nat \<Rightarrow> 's \<Rightarrow> goerr option \<times> 's"
  a_Nack :: "nat \<Rightarrow> bool \<Rightarrow> 's \<Rightarrow> goerr option \<times> 's"
  a_CloseChannel :: "handle \<Rightarrow> 's \<Rightarrow> goerr option \<times> 's"
  a_CloseConn :: "handle \<Rightarrow> 's \<Rightarrow> goerr option \<times> 's"
  a_ChClosed :: "handle \<Rightarrow> 's \<Rightarrow> bool"
  a_ConnClosed :: "handle \<Rightarrow> 's \<Rightarrow> bool"

type_synonym 's bst = "(bcall list \<times> 's) st"

text \<open>One call of the broker, and its record in the list.\<close>

definition bk :: "('s \<Rightarrow> 'r \<times> 's) \<Rightarrow> ('r \<Rightarrow> bcall) \<Rightarrow> 's bst \<Rightarrow> 'r \<times> 's bst" where
  "bk f mk st =
     (case st of (w, (tr, s)) \<Rightarrow> (case f s of (r, s') \<Rightarrow> (r, (w, (tr @ [mk r], s')))))"

definition bcalls :: "'s bst \<Rightarrow> bcall list" where "bcalls st = fst (snd st)"
definition bstate :: "'s bst \<Rightarrow> 's" where "bstate st = snd (snd st)"

definition logged :: "level \<Rightarrow> string \<Rightarrow> 's bst \<Rightarrow> 's bst" where
  "logged l msg st = (add_log l msg (fst st), snd st)"

lemma bk_sel [simp]:
  "bcalls (snd (bk f mk st)) = bcalls st @ [mk (fst (bk f mk st))]"
  "bstate (snd (bk f mk st)) = snd (f (bstate st))"
  "fst (bk f mk st) = fst (f (bstate st))"
  "fst (snd (bk f mk st)) = fst st"
  by (simp_all add: bk_def bcalls_def bstate_def split_beta)

lemma logged_sel [simp]:
  "bcalls (logged l m st) = bcalls st" "bstate (logged l m st) = bstate st"
  "w_obs (fst (logged l m st)) = w_obs (fst st)"
  by (simp_all add: logged_def bcalls_def bstate_def)

section \<open>The component\<close>

text \<open>
  \<open>runCtx\<close> and \<open>runCancel\<close> are the number of the run's context, made by \<open>Start\<close>; they are set
  and cleared together. \<open>deadConsumers\<close> is a Go map from queue names to reasons.
\<close>

record rabbit_comp =
  mq_cfg :: rabbit_config
  mq_name :: string
  mq_conn :: "handle option"
  mq_ch :: "handle option"
  mq_stopCh :: chan
  mq_runCtx :: "nat option"
  mq_runCancel :: "nat option"
  mq_exchanges :: "exchangeDecl list"
  mq_subs :: "subscription list"
  mq_dead :: "(string \<times> string) list"

definition rabbit_New :: "rabbit_config \<Rightarrow> (rabbit_comp \<Rightarrow> rabbit_comp) list \<Rightarrow> rabbit_comp" where
  "rabbit_New cfg opts =
     fold (\<lambda>opt c. opt c) opts
       \<lparr>mq_cfg = cfg, mq_name = ''rabbitmq'', mq_conn = None, mq_ch = None, mq_stopCh = 0,
        mq_runCtx = None, mq_runCancel = None, mq_exchanges = [], mq_subs = [], mq_dead = []\<rparr>"

definition rabbit_WithName :: "string \<Rightarrow> rabbit_comp \<Rightarrow> rabbit_comp" where
  "rabbit_WithName name c = c\<lparr>mq_name := name\<rparr>"

definition rabbit_Name :: "rabbit_comp \<Rightarrow> string" where
  "rabbit_Name c = mq_name c"

definition rabbit_Conn :: "rabbit_comp \<Rightarrow> handle option" where
  "rabbit_Conn c = mq_conn c"

definition rabbit_Channel :: "rabbit_comp \<Rightarrow> handle option" where
  "rabbit_Channel c = mq_ch c"

definition rabbit_ErrNotReady :: goerr where
  "rabbit_ErrNotReady = Sentinel ''rabbitmq: channel not available''"

definition ErrDropToDLX :: goerr where
  "ErrDropToDLX = Sentinel ''rabbitmq: drop message to dead-letter exchange''"

section \<open>Publishing\<close>

abbreviation "opPublish \<equiv> ''rabbitmq.publish''"
abbreviation "opPublishWithType \<equiv> ''rabbitmq.publish_with_type''"
abbreviation "opPublishWithHeaders \<equiv> ''rabbitmq.publish_with_headers''"

text \<open>\<open>ch == nil || ch.IsClosed()\<close>\<close>

definition no_channel :: "'s amqp \<Rightarrow> rabbit_comp \<Rightarrow> 's \<Rightarrow> bool" where
  "no_channel d c s \<longleftrightarrow> (case mq_ch c of None \<Rightarrow> True | Some ch \<Rightarrow> a_ChClosed d ch s)"

definition rabbit_publish ::
  "'s amqp \<Rightarrow> rabbit_comp \<Rightarrow> string \<Rightarrow> string \<Rightarrow> publishing \<Rightarrow> 's bst \<Rightarrow> goerr option \<times> 's bst" where
  "rabbit_publish d c exchange routingKey msg st =
     (if no_channel d c (bstate st) then (Some rabbit_ErrNotReady, st)
      else (let ch = the (mq_ch c);
                (err, st) = bk (a_Publish d ch (rabbit_publishTimeout (mq_cfg c)) exchange routingKey msg)
                  (BPublish ch exchange routingKey msg) st
            in (map_option (\<lambda>e. Errorf ''rabbitmq: publish to %q/%q: %w''
                  [AStr exchange, AStr routingKey] [e]) err, st)))"

definition rabbit_observePublish ::
  "rabbit_comp \<Rightarrow> string \<Rightarrow> duration \<Rightarrow> ('s bst \<Rightarrow> goerr option \<times> 's bst) \<Rightarrow>
   (bcall list \<times> 's, unit) op" where
  "rabbit_observePublish c op el fn =
     observe_inside ''rabbitmq'' rabbit_ErrNotReady (rabbit_onOperation (mq_cfg c)) op el
       (\<lambda>st. case fn st of (e, st') \<Rightarrow> (((), e), st'))"

definition rabbit_Publish ::
  "'s amqp \<Rightarrow> rabbit_comp \<Rightarrow> int \<Rightarrow> string \<Rightarrow> string \<Rightarrow> string \<Rightarrow> string \<Rightarrow> duration \<Rightarrow>
   (bcall list \<times> 's, unit) op" where
  "rabbit_Publish d c now exchange routingKey contentType body el =
     rabbit_observePublish c opPublish el (rabbit_publish d c exchange routingKey
       (publishing0\<lparr>pb_ContentType := contentType, pb_DeliveryMode := amqp_Persistent,
                    pb_Timestamp := now, pb_Body := body\<rparr>))"

definition rabbit_PublishWithType ::
  "'s amqp \<Rightarrow> rabbit_comp \<Rightarrow> int \<Rightarrow> string \<Rightarrow> string \<Rightarrow> string \<Rightarrow> string \<Rightarrow> string \<Rightarrow> duration \<Rightarrow>
   (bcall list \<times> 's, unit) op" where
  "rabbit_PublishWithType d c now exchange routingKey contentType messageType body el =
     rabbit_observePublish c opPublishWithType el (rabbit_publish d c exchange routingKey
       (publishing0\<lparr>pb_ContentType := contentType, pb_Type := messageType,
                    pb_DeliveryMode := amqp_Persistent, pb_Timestamp := now, pb_Body := body\<rparr>))"

definition rabbit_PublishWithHeaders ::
  "'s amqp \<Rightarrow> rabbit_comp \<Rightarrow> int \<Rightarrow> string \<Rightarrow> string \<Rightarrow> string \<Rightarrow> amqp_table \<Rightarrow> string \<Rightarrow> duration \<Rightarrow>
   (bcall list \<times> 's, unit) op" where
  "rabbit_PublishWithHeaders d c now exchange routingKey contentType headers body el =
     rabbit_observePublish c opPublishWithHeaders el (rabbit_publish d c exchange routingKey
       (publishing0\<lparr>pb_ContentType := contentType, pb_Headers := headers,
                    pb_DeliveryMode := amqp_Persistent, pb_Timestamp := now, pb_Body := body\<rparr>))"

section \<open>Failed deliveries\<close>

text \<open>What \<open>republish\<close> sends: the listed properties of the delivery, the counter, the TTL.\<close>

definition clone_message :: "delivery \<Rightarrow> int \<Rightarrow> duration \<Rightarrow> publishing" where
  "clone_message dl retries expiration =
     (let msg = publishing0\<lparr>pb_Headers := Some (stamp_headers (dl_Headers dl) retries),
                pb_ContentType := dl_ContentType dl, pb_DeliveryMode := amqp_Persistent,
                pb_CorrelationId := dl_CorrelationId dl, pb_MessageId := dl_MessageId dl,
                pb_Timestamp := dl_Timestamp dl, pb_Type := dl_Type dl, pb_AppId := dl_AppId dl,
                pb_Body := dl_Body dl\<rparr>
      in if expiration > 0 then msg\<lparr>pb_Expiration := show_int (milliseconds expiration)\<rparr> else msg)"

definition rabbit_republish ::
  "'s amqp \<Rightarrow> rabbit_comp \<Rightarrow> delivery \<Rightarrow> string \<Rightarrow> string \<Rightarrow> int \<Rightarrow> duration \<Rightarrow> 's bst \<Rightarrow>
   goerr option \<times> 's bst" where
  "rabbit_republish d c dl exchange routingKey retries expiration =
     rabbit_publish d c exchange routingKey (clone_message dl retries expiration)"

text \<open>\<open>if err := d.Ack(false)\<close> or \<open>d.Nack(false, requeue)\<close>, with the log line of its failure.\<close>

definition do_ack :: "'s amqp \<Rightarrow> delivery \<Rightarrow> string \<Rightarrow> 's bst \<Rightarrow> 's bst" where
  "do_ack d dl failed st =
     (case bk (a_Ack d (dl_Tag dl)) (BAck (dl_Tag dl)) st of
        (None, st) \<Rightarrow> st | (Some e, st) \<Rightarrow> logged Error failed st)"

definition do_nack :: "'s amqp \<Rightarrow> delivery \<Rightarrow> bool \<Rightarrow> 's bst \<Rightarrow> 's bst" where
  "do_nack d dl requeue st =
     (case bk (a_Nack d (dl_Tag dl) requeue) (BNack (dl_Tag dl) requeue) st of
        (None, st) \<Rightarrow> st | (Some e, st) \<Rightarrow> logged Error ''rabbitmq: nack failed'' st)"

definition rabbit_handleFailure ::
  "(float64 \<Rightarrow> int) \<Rightarrow> 's amqp \<Rightarrow> rabbit_comp \<Rightarrow> subscription \<Rightarrow> delivery \<Rightarrow> goerr \<Rightarrow> 's bst \<Rightarrow> 's bst" where
  "rabbit_handleFailure oob d c sub dl handlerErr st =
     (case sub_retry sub of
        None \<Rightarrow>
          (let requeue = (\<not> errors_is handlerErr ErrDropToDLX)
           in do_nack d dl requeue (logged Error ''rabbitmq: handler error - nacking'' st))
      | Some policy \<Rightarrow>
          (let attempt = retryCount (dl_Headers dl);
               drop = errors_is handlerErr ErrDropToDLX;
               (err, failed, st) =
                 (if drop \<or> attempt \<ge> maxRetries policy then
                    (let dead = dlq policy (sub_queue sub);
                         st = logged Error ''rabbitmq: handler error - dead-lettering'' st;
                         (err, st) = rabbit_republish d c dl '''' dead attempt 0 st
                     in (err, ''rabbitmq: dead-letter publish failed - requeueing'', st))
                  else
                    (let delay = backoff oob policy (attempt + 1);
                         rq = retryQueue policy (sub_queue sub);
                         st = logged Warn ''rabbitmq: handler error - scheduling retry'' st;
                         (err, st) = rabbit_republish d c dl '''' rq (attempt + 1) delay st
                     in (err, ''rabbitmq: retry publish failed - requeueing'', st)))
           in case err of
                Some e \<Rightarrow> do_nack d dl True (logged Error failed st)
              | None \<Rightarrow> do_ack d dl ''rabbitmq: ack after republish failed'' st))"

text \<open>The body of the consumer loop for one delivery whose handler returned \<open>result\<close>.\<close>

definition rabbit_deliver ::
  "(float64 \<Rightarrow> int) \<Rightarrow> 's amqp \<Rightarrow> rabbit_comp \<Rightarrow> subscription \<Rightarrow> delivery \<Rightarrow> goerr option \<Rightarrow> 's bst \<Rightarrow> 's bst" where
  "rabbit_deliver oob d c sub dl result st =
     (case result of
        Some err \<Rightarrow> rabbit_handleFailure oob d c sub dl err st
      | None \<Rightarrow> do_ack d dl ''rabbitmq: ack failed'' st)"

section \<open>Topology\<close>

definition rabbit_declareRetryTopology ::
  "'s amqp \<Rightarrow> handle \<Rightarrow> subscription \<Rightarrow> retry_policy \<Rightarrow> 's bst \<Rightarrow> goerr option \<times> 's bst" where
  "rabbit_declareRetryTopology d ch sub policy st =
     (let rq = retryQueue policy (sub_queue sub);
          args = Some [(''x-dead-letter-exchange'', VString ''''),
                       (''x-dead-letter-routing-key'', VString (sub_queue sub))];
          (err, st) = bk (a_QueueDeclare d ch rq args) (BQueue ch rq args) st
      in case err of
           Some e \<Rightarrow> (Some (Errorf ''rabbitmq: declare retry queue %q: %w'' [AStr rq] [e]), st)
         | None \<Rightarrow>
             (let dead = dlq policy (sub_queue sub);
                  (err, st) = bk (a_QueueDeclare d ch dead None) (BQueue ch dead None) st
              in case err of
                   Some e \<Rightarrow> (Some (Errorf ''rabbitmq: declare dead-letter queue %q: %w'' [AStr dead] [e]), st)
                 | None \<Rightarrow> (None, logged Debug ''rabbitmq: retry topology declared'' st)))"

text \<open>Up to the consumer goroutine, which the caller starts when the result is None.\<close>

definition rabbit_bindAndConsume ::
  "'s amqp \<Rightarrow> handle \<Rightarrow> subscription \<Rightarrow> 's bst \<Rightarrow> goerr option \<times> 's bst" where
  "rabbit_bindAndConsume d ch sub st =
     (let queue = sub_queue sub;
          (err, st) = (case sub_retry sub of
                         None \<Rightarrow> (None, st) | Some p \<Rightarrow> rabbit_declareRetryTopology d ch sub p st)
      in if err \<noteq> None then (err, st)
         else (case bk (a_QueueDeclare d ch queue (sub_queueArgs sub)) (BQueue ch queue (sub_queueArgs sub)) st of
             (Some e, st) \<Rightarrow> (Some (Errorf ''rabbitmq: declare queue %q: %w'' [AStr queue] [e]), st)
           | (None, st) \<Rightarrow>
             (case bk (a_QueueBind d ch queue (sub_routingKey sub) (sub_exchange sub))
                     (BBind ch queue (sub_routingKey sub) (sub_exchange sub)) st of
                (Some e, st) \<Rightarrow>
                  (Some (Errorf ''rabbitmq: bind queue %q (key %q) to exchange %q: %w''
                     [AStr queue, AStr (sub_routingKey sub), AStr (sub_exchange sub)] [e]), st)
              | (None, st) \<Rightarrow>
                (case bk (a_Consume d ch queue) (BConsume ch queue) st of
                   (Some e, st) \<Rightarrow> (Some (Errorf ''rabbitmq: consume %q: %w'' [AStr queue] [e]), st)
                 | (None, st) \<Rightarrow> (None, logged Debug ''rabbitmq: consumer bound'' st)))))"

definition rabbit_DeclareExchange ::
  "'s amqp \<Rightarrow> exchangeDecl \<Rightarrow> rabbit_comp \<Rightarrow> 's bst \<Rightarrow> goerr option \<times> rabbit_comp \<times> 's bst" where
  "rabbit_DeclareExchange d e c st =
     (let c = c\<lparr>mq_exchanges := mq_exchanges c @ [e]\<rparr>
      in if no_channel d c (bstate st) then (None, c, st)
         else (let ch = the (mq_ch c);
                   (err, st) = bk (a_ExchangeDeclare d ch e) (BExchange ch e) st
               in (map_option (\<lambda>x. Errorf ''rabbitmq: declare exchange %q: %w'' [AStr (ed_name e)] [x]) err,
                   c, st)))"

text \<open>The third component is the context of the consumer goroutine that was started, if any.\<close>

definition rabbit_SubscribeWithOptions ::
  "'s amqp \<Rightarrow> string \<Rightarrow> string \<Rightarrow> string \<Rightarrow> nat \<Rightarrow> subscribe_options \<Rightarrow> rabbit_comp \<Rightarrow> 's bst \<Rightarrow>
   goerr option \<times> rabbit_comp \<times> nat option \<times> 's bst" where
  "rabbit_SubscribeWithOptions d exchange queue routingKey handler opts c st =
     (let sub = \<lparr>sub_routingKey = routingKey, sub_exchange = exchange, sub_queue = queue,
                 sub_queueArgs = buildQueueArgs opts, sub_retry = so_Retry opts,
                 sub_handler = handler\<rparr>;
          c = c\<lparr>mq_subs := mq_subs c @ [sub]\<rparr>
      in if no_channel d c (bstate st) then (None, c, None, st)
         else if mq_runCtx c = None then (None, c, None, st)
         else (case rabbit_bindAndConsume d (the (mq_ch c)) sub st of
                 (err, st) \<Rightarrow> (err, c, if err = None then mq_runCtx c else None, st)))"

abbreviation "subscribe_options0 \<equiv> \<lparr>so_QueueArgs = None, so_QueueType = '''', so_Retry = None\<rparr>"

definition rabbit_SubscribeWithKey ::
  "'s amqp \<Rightarrow> string \<Rightarrow> string \<Rightarrow> string \<Rightarrow> nat \<Rightarrow> rabbit_comp \<Rightarrow> 's bst \<Rightarrow>
   goerr option \<times> rabbit_comp \<times> nat option \<times> 's bst" where
  "rabbit_SubscribeWithKey d exchange queue routingKey handler =
     rabbit_SubscribeWithOptions d exchange queue routingKey handler subscribe_options0"

definition rabbit_Subscribe ::
  "'s amqp \<Rightarrow> string \<Rightarrow> string \<Rightarrow> nat \<Rightarrow> rabbit_comp \<Rightarrow> 's bst \<Rightarrow>
   goerr option \<times> rabbit_comp \<times> nat option \<times> 's bst" where
  "rabbit_Subscribe d exchange queue handler = rabbit_SubscribeWithKey d exchange queue queue handler"

section \<open>Start\<close>

text \<open>The two critical sections that begin and publish a run.\<close>

definition rabbit_begin :: "chan \<Rightarrow> nat \<Rightarrow> rabbit_comp \<Rightarrow> rabbit_comp" where
  "rabbit_begin ch ctx c = c\<lparr>mq_stopCh := ch, mq_runCtx := Some ctx, mq_runCancel := Some ctx\<rparr>"

definition rabbit_set_live :: "handle \<Rightarrow> handle \<Rightarrow> rabbit_comp \<Rightarrow> rabbit_comp" where
  "rabbit_set_live conn ch c = c\<lparr>mq_conn := Some conn, mq_ch := Some ch\<rparr>"

text \<open>Which branch of the first \<open>select\<close> is taken. The dial goroutine always finishes.\<close>

datatype dial_race = DialDone | CtxWins | TimerWins

text \<open>
  Dialling: an error return, a clean return (the context was cancelled), or a live connection and
  channel. A dial that outlives a cancelled context is drained and closed by a goroutine, one
  that outlives the timer is not.
\<close>

datatype dialled = Failed goerr | Cancelled | Live handle handle

definition rabbit_open :: "'s amqp \<Rightarrow> dial_race \<Rightarrow> rabbit_comp \<Rightarrow> 's bst \<Rightarrow> dialled \<times> 's bst" where
  "rabbit_open d race c st =
     (let uri = rabbit_uri (mq_cfg c); timeout = rabbit_connectTimeout (mq_cfg c);
          (res, st) = bk (a_Dial d uri timeout) (BDial uri timeout) st
      in case race of
           CtxWins \<Rightarrow>
             (case res of
                Inr conn \<Rightarrow> (Cancelled, snd (bk (a_CloseConn d conn) (BCloseConn conn) st))
              | Inl _ \<Rightarrow> (Cancelled, st))
         | TimerWins \<Rightarrow> (Failed (Errorf ''rabbitmq: dial timed out after %s'' [AInt timeout] []), st)
         | DialDone \<Rightarrow>
             (case res of
                Inl e \<Rightarrow> (Failed (Errorf ''rabbitmq: dial failed: %w'' [] [e]), st)
              | Inr conn \<Rightarrow>
                  (case bk (a_Channel d conn) (BOpenChannel conn) st of
                     (Inl e, st) \<Rightarrow>
                       (Failed (Errorf ''rabbitmq: open channel failed: %w'' [] [e]),
                        snd (bk (a_CloseConn d conn) (BCloseConn conn) st))
                   | (Inr ch, st) \<Rightarrow> (Live conn ch, st))))"

text \<open>The loop that re-declares the exchanges, up to the first error.\<close>

fun rabbit_declare_all ::
  "'s amqp \<Rightarrow> handle \<Rightarrow> exchangeDecl list \<Rightarrow> 's bst \<Rightarrow> goerr option \<times> 's bst" where
  "rabbit_declare_all d ch [] st = (None, st)"
| "rabbit_declare_all d ch (e # es) st =
     (case bk (a_ExchangeDeclare d ch e) (BExchange ch e) st of
        (Some x, st) \<Rightarrow> (Some (Errorf ''rabbitmq: declare exchange %q: %w'' [AStr (ed_name e)] [x]), st)
      | (None, st) \<Rightarrow> rabbit_declare_all d ch es (logged Debug ''rabbitmq: exchange declared'' st))"

text \<open>The loop that re-binds the subscriptions; it also returns the consumers it has started.\<close>

fun rabbit_bind_all ::
  "'s amqp \<Rightarrow> handle \<Rightarrow> subscription list \<Rightarrow> 's bst \<Rightarrow> goerr option \<times> subscription list \<times> 's bst" where
  "rabbit_bind_all d ch [] st = (None, [], st)"
| "rabbit_bind_all d ch (sub # subs) st =
     (case rabbit_bindAndConsume d ch sub st of
        (Some x, st) \<Rightarrow>
          (Some (Errorf ''rabbitmq: bind subscription (exchange %q, queue %q): %w''
             [AStr (sub_exchange sub), AStr (sub_queue sub)] [x]), [],
           logged Error ''rabbitmq: subscription failed'' st)
      | (None, st) \<Rightarrow>
          (case rabbit_bind_all d ch subs st of (err, started, st) \<Rightarrow> (err, sub # started, st)))"

definition rabbit_close_both :: "'s amqp \<Rightarrow> handle \<Rightarrow> handle \<Rightarrow> 's bst \<Rightarrow> 's bst" where
  "rabbit_close_both d conn ch st =
     snd (bk (a_CloseConn d conn) (BCloseConn conn)
       (snd (bk (a_CloseChannel d ch) (BCloseChannel ch) st)))"

text \<open>
  From the live channel to \<open>ready()\<close>: the component with its exchanges and subscriptions read
  after the channel has been set. The result carries the consumers started and whether the
  run's context has been cancelled by \<open>Start\<close> itself.
\<close>

record run_result =
  rr_err :: "goerr option"
  rr_ready :: bool
  rr_started :: "subscription list"
  rr_cancelled :: bool

definition rabbit_setup ::
  "'s amqp \<Rightarrow> handle \<Rightarrow> handle \<Rightarrow> rabbit_comp \<Rightarrow> 's bst \<Rightarrow> run_result \<times> rabbit_comp \<times> 's bst" where
  "rabbit_setup d conn ch c st =
     (case rabbit_declare_all d ch (mq_exchanges c) st of
        (Some e, st) \<Rightarrow>
          (\<lparr>rr_err = Some e, rr_ready = False, rr_started = [], rr_cancelled = False\<rparr>, c,
           rabbit_close_both d conn ch st)
      | (None, st) \<Rightarrow>
          (let c = c\<lparr>mq_dead := []\<rparr>
           in case rabbit_bind_all d ch (mq_subs c) st of
                (Some e, started, st) \<Rightarrow>
                  (\<lparr>rr_err = Some e, rr_ready = False, rr_started = started, rr_cancelled = True\<rparr>,
                   c\<lparr>mq_conn := None, mq_ch := None, mq_runCtx := None, mq_runCancel := None\<rparr>,
                   rabbit_close_both d conn ch st)
              | (None, started, st) \<Rightarrow>
                  (\<lparr>rr_err = None, rr_ready = True, rr_started = started, rr_cancelled = False\<rparr>, c,
                   logged Info ''rabbitmq: connected'' st)))"

text \<open>\<open>Start\<close> up to the point where it blocks (\<open>rr_ready\<close>) or returns.\<close>

definition rabbit_Start ::
  "'s amqp \<Rightarrow> dial_race \<Rightarrow> chan \<Rightarrow> nat \<Rightarrow> rabbit_comp \<Rightarrow> 's bst \<Rightarrow> run_result \<times> rabbit_comp \<times> 's bst" where
  "rabbit_Start d race stopCh ctx c st =
     (let c = rabbit_begin stopCh ctx c
      in case rabbit_open d race c st of
           (Failed e, st) \<Rightarrow>
             (\<lparr>rr_err = Some e, rr_ready = False, rr_started = [], rr_cancelled = False\<rparr>, c, st)
         | (Cancelled, st) \<Rightarrow>
             (\<lparr>rr_err = None, rr_ready = False, rr_started = [], rr_cancelled = False\<rparr>, c, st)
         | (Live conn ch, st) \<Rightarrow> rabbit_setup d conn ch (rabbit_set_live conn ch c) st)"

text \<open>What \<open>Start\<close> does when it is woken up: it cancels the run's context and clears it.\<close>

definition rabbit_finish :: "rabbit_comp \<Rightarrow> rabbit_comp" where
  "rabbit_finish c = c\<lparr>mq_runCtx := None, mq_runCancel := None\<rparr>"

text \<open>The critical section of a \<open>Start\<close> that failed to bind.\<close>

definition rabbit_unset :: "rabbit_comp \<Rightarrow> rabbit_comp" where
  "rabbit_unset c = c\<lparr>mq_conn := None, mq_ch := None, mq_runCtx := None, mq_runCancel := None\<rparr>"

section \<open>Stop and Health\<close>

definition isAlreadyClosed :: "goerr option \<Rightarrow> bool" where
  "isAlreadyClosed err =
     (case err of Some (AmqpError code) \<Rightarrow> code = amqp_ChannelError | _ \<Rightarrow> False)"

definition close_logged :: "('s \<Rightarrow> goerr option \<times> 's) \<Rightarrow> (goerr option \<Rightarrow> bcall) \<Rightarrow> string \<Rightarrow> 's bst \<Rightarrow> 's bst" where
  "close_logged f mk msg st =
     (case bk f mk st of (err, st) \<Rightarrow>
        if err \<noteq> None \<and> \<not> isAlreadyClosed err then logged Error msg st else st)"

definition rabbit_swap :: "chan \<Rightarrow> rabbit_comp \<Rightarrow> rabbit_comp" where
  "rabbit_swap fresh c = c\<lparr>mq_stopCh := fresh, mq_conn := None, mq_ch := None\<rparr>"

text \<open>\<open>Stop\<close>: \<open>fresh\<close> is the channel it makes and closes, \<open>cl\<close> the closed channels, \<open>cx\<close> the
  cancelled contexts; \<open>expired\<close> when its own context ends before the two closes are done. They run in
  a goroutine: of the orders its log lines may have with that of the deadline, this is one.\<close>

definition rabbit_Stop ::
  "'s amqp \<Rightarrow> chan \<Rightarrow> bool \<Rightarrow> rabbit_comp \<Rightarrow> chan set \<Rightarrow> nat set \<Rightarrow> 's bst \<Rightarrow>
   rabbit_comp \<times> chan set \<times> nat set \<times> 's bst" where
  "rabbit_Stop d fresh expired c cl cx st =
     (let ch = mq_stopCh c; conn = mq_conn c; channel = mq_ch c; cancel = mq_runCancel c;
          c = rabbit_swap fresh c; cl = insert fresh cl;
          cx = (case cancel of None \<Rightarrow> cx | Some x \<Rightarrow> insert x cx);
          cl = (if ch \<in> cl then cl else insert ch cl);
          st = (case channel of None \<Rightarrow> st | Some h \<Rightarrow>
                  close_logged (a_CloseChannel d h) (BCloseChannel h) ''rabbitmq: channel close error'' st);
          st = (case conn of None \<Rightarrow> st | Some h \<Rightarrow>
                  close_logged (a_CloseConn d h) (BCloseConn h) ''rabbitmq: connection close error'' st);
          st = (if expired then logged Warn ''rabbitmq: close timed out during shutdown'' st else st)
      in (c, cl, cx, st))"

text \<open>\<open>Health\<close>: Go iterates its map in any order, \<open>hd\<close> stands for the entry it meets first.\<close>

definition rabbit_Health :: "'s amqp \<Rightarrow> rabbit_comp \<Rightarrow> 's \<Rightarrow> goerr option" where
  "rabbit_Health d c s =
     (case mq_dead c of
        (queue, reason) # _ \<Rightarrow>
          Some (Errorf ''rabbitmq: consumer for queue %q is dead: %s'' [AStr queue, AStr reason] [])
      | [] \<Rightarrow>
          (if (case mq_conn c of None \<Rightarrow> True | Some h \<Rightarrow> a_ConnClosed d h s)
           then Some (Errorf ''rabbitmq: connection is closed'' [] [])
           else if no_channel d c s then Some (Errorf ''rabbitmq: channel is closed'' [] [])
           else None))"

definition rabbit_markConsumerDead :: "string \<Rightarrow> string \<Rightarrow> rabbit_comp \<Rightarrow> rabbit_comp" where
  "rabbit_markConsumerDead queue reason c = c\<lparr>mq_dead := AList.update queue reason (mq_dead c)\<rparr>"

end
