(* ===== verification/Rabbit_Proofs.thy ===== *)
theory Rabbit_Proofs
  imports Rabbitmq
begin

text \<open>
  What the rabbitmq component guarantees: the calls each operation makes of the broker, the
  settlement of deliveries, the retry pipeline from the first delivery to the dead-letter queue,
  the outcomes of \<open>Start\<close> and \<open>Stop\<close>, and the consumers that die.
\<close>

section \<open>The calls of each operation\<close>

lemma publish_calls:
  "rabbit_publish d c x k msg st = (err, st') \<Longrightarrow>
     (if no_channel d c (bstate st) then err = Some rabbit_ErrNotReady \<and> st' = st
      else \<exists>r. bcalls st' = bcalls st @ [BPublish (the (mq_ch c)) x k msg r] \<and>
             (err = None \<longleftrightarrow> r = None) \<and> w_obs (fst st') = w_obs (fst st) \<and>
             (\<forall>e. r = Some e \<longrightarrow> (\<exists>e'. err = Some e' \<and> errors_is e' e)))"
  by (auto simp: rabbit_publish_def Let_def split_beta)

lemma do_ack_calls [simp]:
  "bcalls (do_ack d dl m st) = bcalls st @ [BAck (dl_Tag dl) (fst (a_Ack d (dl_Tag dl) (bstate st)))]"
  by (simp add: do_ack_def split_beta split: option.split)

lemma do_nack_calls [simp]:
  "bcalls (do_nack d dl q st) = bcalls st @ [BNack (dl_Tag dl) q (fst (a_Nack d (dl_Tag dl) q (bstate st)))]"
  by (simp add: do_nack_def split_beta split: option.split)

lemma do_ack_state [simp]: "bstate (do_ack d dl m st) = snd (a_Ack d (dl_Tag dl) (bstate st))"
  by (simp add: do_ack_def split_beta split: option.split)

text \<open>The calls a subscription makes when it is bound and nothing fails.\<close>

definition sub_calls :: "handle \<Rightarrow> subscription \<Rightarrow> bcall list" where
  "sub_calls ch sub =
     (case sub_retry sub of
        None \<Rightarrow> []
      | Some p \<Rightarrow>
          [BQueue ch (retryQueue p (sub_queue sub))
             (Some [(''x-dead-letter-exchange'', VString ''''),
                    (''x-dead-letter-routing-key'', VString (sub_queue sub))]) None,
           BQueue ch (dlq p (sub_queue sub)) None None]) @
     [BQueue ch (sub_queue sub) (sub_queueArgs sub) None,
      BBind ch (sub_queue sub) (sub_routingKey sub) (sub_exchange sub) None,
      BConsume ch (sub_queue sub) None]"

lemma bk_calls: "bk f mk st = (r, st1) \<Longrightarrow> bcalls st1 = bcalls st @ [mk r]"
  using bk_sel(1,3) [of f mk st] by simp

lemma topology_calls:
  "rabbit_declareRetryTopology d ch sub p st = (None, st') \<Longrightarrow>
     bcalls st' = bcalls st @
       [BQueue ch (retryQueue p (sub_queue sub))
          (Some [(''x-dead-letter-exchange'', VString ''''),
                 (''x-dead-letter-routing-key'', VString (sub_queue sub))]) None,
        BQueue ch (dlq p (sub_queue sub)) None None]"
  unfolding rabbit_declareRetryTopology_def Let_def
  by (auto split: prod.splits option.splits dest!: bk_calls)

lemma bind_calls:
  assumes "rabbit_bindAndConsume d ch sub st = (None, st')"
  shows "bcalls st' = bcalls st @ sub_calls ch sub"
proof -
  obtain st1 where first: "(case sub_retry sub of None \<Rightarrow> (None, st)
      | Some p \<Rightarrow> rabbit_declareRetryTopology d ch sub p st) = (None, st1)"
    using assms unfolding rabbit_bindAndConsume_def Let_def
    by (cases "sub_retry sub") (auto split: prod.splits if_splits)
  have pre: "bcalls st1 @ [BQueue ch (sub_queue sub) (sub_queueArgs sub) None,
      BBind ch (sub_queue sub) (sub_routingKey sub) (sub_exchange sub) None,
      BConsume ch (sub_queue sub) None] = bcalls st @ sub_calls ch sub"
    using first by (auto simp: sub_calls_def split: option.splits dest: topology_calls)
  show ?thesis
    using assms first unfolding rabbit_bindAndConsume_def Let_def
    by (auto simp flip: pre split: prod.splits option.splits dest!: bk_calls)
qed

lemma declare_all_calls:
  "rabbit_declare_all d ch es st = (None, st') \<Longrightarrow>
     bcalls st' = bcalls st @ map (\<lambda>e. BExchange ch e None) es"
  by (induction es arbitrary: st) (auto simp: split_beta prod_eq_iff split: option.splits prod.splits)

lemma bind_all_calls:
  "rabbit_bind_all d ch subs st = (None, started, st') \<Longrightarrow>
     started = subs \<and> bcalls st' = bcalls st @ concat (map (sub_calls ch) subs)"
proof (induction subs arbitrary: st started)
  case (Cons sub subs)
  from Cons.prems obtain st1 rest
    where one: "rabbit_bindAndConsume d ch sub st = (None, st1)"
      and more: "rabbit_bind_all d ch subs st1 = (None, rest, st')" and "started = sub # rest"
    by (auto split: prod.splits option.splits)
  with Cons.IH [OF more] bind_calls [OF one] show ?case by simp
qed simp

lemma bind_all_prefix:
  "rabbit_bind_all d ch subs st = (err, started, st') \<Longrightarrow> \<exists>rest. subs = started @ rest"
  by (induction subs arbitrary: st started) (fastforce split: prod.splits option.splits)+

lemma close_both_calls:
  "\<exists>r r'. bcalls (rabbit_close_both d conn ch st) =
     bcalls st @ [BCloseChannel ch r, BCloseConn conn r']"
  by (simp add: rabbit_close_both_def)

section \<open>Properties\<close>

text \<open>
  C25. Credentials cannot inject into the URI: with no \<open>URI\<close>, a host name of unreserved characters
  and a port that is not negative, parsing the URI that \<open>uri\<close> builds gives back the user and the
  password, whatever bytes they consist of, the host and the port, and the virtual host as a path,
  with a slash put in front where the name has none.
\<close>
theorem rabbit_uri_roundtrip:
  assumes "mc_URI c = ''''" and "host = (if mc_Host c = '''' then ''localhost'' else mc_Host c)"
    and "port = (if mc_Port c = 0 then 5672 else mc_Port c)" and "valid_host host" and "0 \<le> mc_Port c"
  shows "url_parse (rabbit_uri c) =
    Some (''amqp'', if mc_User c = '''' then ''guest'' else mc_User c, mc_Pass c,
          host_port host port, rooted (if mc_VHost c = '''' then ''/'' else mc_VHost c), '''')"
proof -
  have "valid_scheme ''amqp''" "to_lower ''amqp'' = ''amqp''" "\<not> has_ctl ''amqp''" by code_simp+
  with assms url_parse_string [of "''amqp''" "if mc_User c = '''' then ''guest'' else mc_User c"
      host port "''''"]
  show ?thesis by (simp add: rabbit_uri_def Let_def is_ctl_def)
qed

text \<open>
  A virtual host with a leading slash cannot be reached: the URI for \<open>/v\<close> is the URI for
  \<open>v\<close>, because the path of the URL is the name itself and a missing slash is added.
\<close>
theorem rabbit_vhost_slash:
  assumes "v \<noteq> ''''" and "hd v \<noteq> CHR ''/''" and "v \<noteq> ''*''"
  shows "rabbit_uri (c\<lparr>mc_VHost := CHR ''/'' # v\<rparr>) = rabbit_uri (c\<lparr>mc_VHost := v\<rparr>)"
proof -
  have "written_path (CHR ''/'' # v) = written_path v"
    using assms by (simp add: written_path_escape rooted_def)
  then show ?thesis using assms(1)
    by (simp add: rabbit_uri_def url_string_def Let_def written_path_def)
qed

definition rabbit_with_sink :: "sink option \<Rightarrow> rabbit_comp \<Rightarrow> rabbit_comp" where
  "rabbit_with_sink f c = c\<lparr>mq_cfg := (mq_cfg c)\<lparr>mc_OnOperation := f\<rparr>\<rparr>"

lemma rabbit_with_sink_sel [simp]:
  "mq_ch (rabbit_with_sink f c) = mq_ch c"
  "rabbit_onOperation (mq_cfg (rabbit_with_sink f c)) = f"
  "rabbit_publishTimeout (mq_cfg (rabbit_with_sink f c)) = rabbit_publishTimeout (mq_cfg c)"
  "no_channel d (rabbit_with_sink f c) s = no_channel d c s"
  "rabbit_publish d (rabbit_with_sink f c) x k m = rabbit_publish d c x k m"
  by (simp_all add: rabbit_with_sink_def rabbit_onOperation_def rabbit_publishTimeout_def
      no_channel_def rabbit_publish_def fun_eq_iff)

lemma publish_silent: "silent (\<lambda>st. case rabbit_publish d c x k m st of (e, st') \<Rightarrow> (((), e), st'))"
  by (simp add: silent_def rabbit_publish_def Let_def split_beta)

lemmas rabbit_op_defs = rabbit_Publish_def rabbit_PublishWithType_def rabbit_PublishWithHeaders_def
  rabbit_observePublish_def

text \<open>
  Every call through \<open>Publisher\<close> is reported once, under its fixed name and with the error
  the caller gets; the sink, even one that panics, changes neither the result nor what reaches
  the broker.
\<close>
theorem rabbit_observed:
  "reports_once opPublish (\<lambda>f. rabbit_Publish d (rabbit_with_sink f c) now x k ct body el) \<and>
   sink_blind (\<lambda>f. rabbit_Publish d (rabbit_with_sink f c) now x k ct body el) \<and>
   reports_once opPublishWithType
     (\<lambda>f. rabbit_PublishWithType d (rabbit_with_sink f c) now x k ct mt body el) \<and>
   sink_blind (\<lambda>f. rabbit_PublishWithType d (rabbit_with_sink f c) now x k ct mt body el) \<and>
   reports_once opPublishWithHeaders
     (\<lambda>f. rabbit_PublishWithHeaders d (rabbit_with_sink f c) now x k ct hs body el) \<and>
   sink_blind (\<lambda>f. rabbit_PublishWithHeaders d (rabbit_with_sink f c) now x k ct hs body el)"
  unfolding rabbit_op_defs rabbit_with_sink_sel
  by (intro conjI observe_inside_blind observe_inside_reports publish_silent)

text \<open>
  What a publish sends, every property of the message written out: delivery mode 2 is AMQP's
  persistent one.
\<close>

definition stored_message :: "string \<Rightarrow> string \<Rightarrow> amqp_table \<Rightarrow> int \<Rightarrow> string \<Rightarrow> publishing" where
  "stored_message ct ty hs now body =
     \<lparr>pb_Headers = hs, pb_ContentType = ct, pb_ContentEncoding = '''', pb_DeliveryMode = 2, pb_Priority = 0,
      pb_CorrelationId = '''', pb_ReplyTo = '''', pb_Expiration = '''', pb_MessageId = '''',
      pb_Timestamp = now, pb_Type = ty, pb_UserId = '''', pb_AppId = '''', pb_Body = body\<rparr>"

text \<open>
  The contract of a publish of \<open>msg\<close>, reported as the operation \<open>op\<close> that took \<open>el\<close>: one call of the
  broker on the component's channel with its error wrapped, or \<open>ErrNotReady\<close> and no call.
\<close>

definition publishes ::
  "'s amqp \<Rightarrow> rabbit_comp \<Rightarrow> string \<Rightarrow> string \<Rightarrow> string \<Rightarrow> publishing \<Rightarrow> duration \<Rightarrow>
   (bcall list \<times> 's, unit) op \<Rightarrow> bool" where
  "publishes d c op x k msg el f \<longleftrightarrow> (\<forall>st. case f st of ((u, err), st') \<Rightarrow>
     (if no_channel d c (bstate st)
      then err = Some rabbit_ErrNotReady \<and> snd st' = snd st \<and>
        fst st' = record_op ''rabbitmq'' (mc_OnOperation (mq_cfg c)) op 0 err (fst st)
      else \<exists>ch r. mq_ch c = Some ch \<and>
        (r, bstate st') = a_Publish d ch (rabbit_publishTimeout (mq_cfg c)) x k msg (bstate st) \<and>
        bcalls st' = bcalls st @ [BPublish ch x k msg r] \<and>
        err = map_option (\<lambda>e. Errorf ''rabbitmq: publish to %q/%q: %w'' [AStr x, AStr k] [e]) r \<and>
        fst st' = record_op ''rabbitmq'' (mc_OnOperation (mq_cfg c)) op
          (if errors_is_opt err rabbit_ErrNotReady then 0 else el) err (fst st)))"

lemma publishes_observed: "publishes d c op x k msg el (rabbit_observePublish c op el (rabbit_publish d c x k msg))"
  unfolding publishes_def
proof (rule allI, goal_cases)
  case (1 st)
  obtain w tr b where st: "st = (w, tr, b)" by (metis surj_pair)
  show ?case
  proof (cases "no_channel d c b")
    case True
    then show ?thesis
      by (simp add: st rabbit_observePublish_def observe_inside_def rabbit_publish_def bstate_def
          rabbit_onOperation_def rabbit_ErrNotReady_def)
  next
    case False
    then obtain ch where "mq_ch c = Some ch" by (auto simp: no_channel_def split: option.splits)
    with False show ?thesis
      by (simp add: st rabbit_observePublish_def observe_inside_def rabbit_publish_def bstate_def bcalls_def
          rabbit_onOperation_def bk_def split_beta)
  qed
qed

text \<open>
  C37. Each of the three publish calls is, with a live channel, exactly one call of the broker on
  this channel, within the configured timeout, of a persistent message that has the caller's
  content type, body, and type or headers, the time of the call, and nothing else; its error is
  the broker's, wrapped with exchange and routing key. With no live channel it is \<open>ErrNotReady\<close>, the
  broker is not called, and a zero duration is reported.
\<close>
theorem rabbit_publish_outcome:
  "publishes d c ''rabbitmq.publish'' x k (stored_message ct '''' None now body) el
     (rabbit_Publish d c now x k ct body el) \<and>
   publishes d c ''rabbitmq.publish_with_type'' x k (stored_message ct ty None now body) el
     (rabbit_PublishWithType d c now x k ct ty body el) \<and>
   publishes d c ''rabbitmq.publish_with_headers'' x k (stored_message ct '''' hs now body) el
     (rabbit_PublishWithHeaders d c now x k ct hs body el)"
proof -
  have "publishing0\<lparr>pb_ContentType := ct, pb_DeliveryMode := amqp_Persistent, pb_Timestamp := now,
      pb_Body := body\<rparr> = stored_message ct '''' None now body"
    "publishing0\<lparr>pb_ContentType := ct, pb_Type := ty, pb_DeliveryMode := amqp_Persistent,
      pb_Timestamp := now, pb_Body := body\<rparr> = stored_message ct ty None now body"
    "publishing0\<lparr>pb_ContentType := ct, pb_Headers := hs, pb_DeliveryMode := amqp_Persistent,
      pb_Timestamp := now, pb_Body := body\<rparr> = stored_message ct '''' hs now body"
    by (simp_all add: publishing0_def stored_message_def)
  then show ?thesis
    unfolding rabbit_Publish_def rabbit_PublishWithType_def rabbit_PublishWithHeaders_def
    by (simp add: publishes_observed)
qed

section \<open>Settlement\<close>

text \<open>
  The ways a delivery may be settled, given what its handler returned: acknowledged after
  success, negatively acknowledged after a failure (with a requeue, unless the handler asked for
  a drop and there is no retry policy), or, with a policy, handed on by one publish that is
  followed by an acknowledgement when it worked and by a requeue when it did not.
\<close>

definition settles :: "bool \<Rightarrow> delivery \<Rightarrow> goerr option \<Rightarrow> bcall list \<Rightarrow> bool" where
  "settles retry dl result calls \<longleftrightarrow>
     (\<exists>r. case result of
        None \<Rightarrow> calls = [BAck (dl_Tag dl) r]
      | Some e \<Rightarrow>
          calls = [BNack (dl_Tag dl) (retry \<or> \<not> errors_is e ErrDropToDLX) r] \<or>
          retry \<and> (\<exists>h k m. pb_Body m = dl_Body dl \<and>
            (calls = [BPublish h '''' k m None, BAck (dl_Tag dl) r] \<or>
             (\<exists>f. calls = [BPublish h '''' k m (Some f), BNack (dl_Tag dl) True r]))))"

lemma clone_sel [simp]:
  "pb_Body (clone_message dl n t) = dl_Body dl"
  "pb_Headers (clone_message dl n t) = Some (stamp_headers (dl_Headers dl) n)"
  "pb_DeliveryMode (clone_message dl n t) = amqp_Persistent"
  by (simp_all add: clone_message_def Let_def)

text \<open>The publish and the settlement that follows it, whatever was published.\<close>

definition hand_on :: "'s amqp \<Rightarrow> rabbit_comp \<Rightarrow> delivery \<Rightarrow> string \<Rightarrow> int \<Rightarrow> duration \<Rightarrow> string \<Rightarrow> 's bst \<Rightarrow> 's bst" where
  "hand_on d c dl key n t failed st =
     (case rabbit_republish d c dl '''' key n t st of
        (Some e, st) \<Rightarrow> do_nack d dl True (logged Error failed st)
      | (None, st) \<Rightarrow> do_ack d dl ''rabbitmq: ack after republish failed'' st)"

lemma handleFailure_hand_on:
  assumes "sub_retry sub = Some p"
  shows "rabbit_handleFailure oob d c sub dl e st =
    (let n = retryCount (dl_Headers dl)
     in if errors_is e ErrDropToDLX \<or> n \<ge> maxRetries p
        then hand_on d c dl (dlq p (sub_queue sub)) n 0
          ''rabbitmq: dead-letter publish failed - requeueing''
          (logged Error ''rabbitmq: handler error - dead-lettering'' st)
        else hand_on d c dl (retryQueue p (sub_queue sub)) (n + 1) (backoff oob p (n + 1))
          ''rabbitmq: retry publish failed - requeueing''
          (logged Warn ''rabbitmq: handler error - scheduling retry'' st))"
  by (simp add: rabbit_handleFailure_def assms hand_on_def Let_def split_beta split: option.split)

lemma hand_on_calls:
  "\<exists>calls. bcalls (hand_on d c dl key n t failed st) = bcalls st @ calls \<and> settles True dl (Some e) calls \<and>
     (\<forall>h x k m r. BPublish h x k m r \<in> set calls \<longrightarrow> k = key \<and> m = clone_message dl n t)"
proof -
  obtain err st1 where pub: "rabbit_republish d c dl '''' key n t st = (err, st1)"
    by (metis surj_pair)
  then have "rabbit_publish d c '''' key (clone_message dl n t) st = (err, st1)"
    by (simp add: rabbit_republish_def)
  note calls = publish_calls [OF this]
  show ?thesis
  proof (cases err)
    case None
    with calls pub show ?thesis
      by (auto simp: hand_on_def settles_def rabbit_ErrNotReady_def split: if_splits)
  next
    case (Some e')
    with calls pub show ?thesis
      by (auto simp: hand_on_def settles_def split: if_splits option.splits)
  qed
qed

lemma hand_on_settles:
  "\<exists>calls. bcalls (hand_on d c dl key n t failed (logged l m st)) = bcalls st @ calls \<and>
     settles True dl (Some e) calls"
  using hand_on_calls [of d c dl key n t failed "logged l m st" e] by fastforce

lemma handleFailure_calls:
  assumes "sub_retry sub = Some p"
  shows "\<exists>calls. bcalls (rabbit_handleFailure oob d c sub dl e st) = bcalls st @ calls \<and>
    settles True dl (Some e) calls"
  unfolding handleFailure_hand_on [OF assms] Let_def
  by (cases "errors_is e ErrDropToDLX \<or> maxRetries p \<le> retryCount (dl_Headers dl)")
    (simp_all only: if_True if_False hand_on_settles)

text \<open>
  C2. No delivery is lost and none is settled twice: whatever the handler returned, whatever the
  policy and whatever the broker answers, the consumer sends exactly one Ack or Nack for the
  delivery, as its last call; it acknowledges a failed delivery only after a publish of the same
  body that the broker accepted, and requeues it when that publish failed.
\<close>
theorem rabbit_settled_once:
  "\<exists>calls. bcalls (rabbit_deliver oob d c sub dl result st) = bcalls st @ calls \<and>
     settles (sub_retry sub \<noteq> None) dl result calls"
proof (cases result)
  case (Some e)
  show ?thesis
  proof (cases "sub_retry sub")
    case None
    with Some show ?thesis
      by (simp add: rabbit_deliver_def rabbit_handleFailure_def settles_def Let_def)
  next
    case (Some p)
    from handleFailure_calls [OF this] show ?thesis
      using \<open>result = Some e\<close> \<open>sub_retry sub = Some p\<close> by (simp add: rabbit_deliver_def)
  qed
qed (simp add: rabbit_deliver_def settles_def)

section \<open>The retry pipeline\<close>

definition ttl :: "duration \<Rightarrow> string" where
  "ttl t = (if t > 0 then show_int (milliseconds t) else '''')"

text \<open>
  What a retried or dead-lettered message keeps: body, content type, correlation and message
  id, timestamp, type, application id, and every header but the counter, which holds the given
  number exactly when it fits \<open>int32\<close>. The other properties of the delivery (content encoding,
  priority, reply-to, user id) are lost.
\<close>
theorem rabbit_clone_message:
  "let m = clone_message dl n t
   in pb_Body m = dl_Body dl \<and> pb_ContentType m = dl_ContentType dl \<and>
      pb_CorrelationId m = dl_CorrelationId dl \<and> pb_MessageId m = dl_MessageId dl \<and>
      pb_Timestamp m = dl_Timestamp dl \<and> pb_Type m = dl_Type dl \<and> pb_AppId m = dl_AppId dl \<and>
      pb_DeliveryMode m = amqp_Persistent \<and> pb_Expiration m = ttl t \<and>
      table_get (pb_Headers m) =
        (table_get (dl_Headers dl))(RetryHeader \<mapsto> VInt32 (word_of_int n)) \<and>
      (retryCount (pb_Headers m) = n \<longleftrightarrow> - (2 ^ 31) \<le> n \<and> n < 2 ^ 31) \<and>
      pb_ContentEncoding m = '''' \<and> pb_Priority m = 0 \<and> pb_ReplyTo m = '''' \<and> pb_UserId m = ''''"
proof -
  have "table_get (pb_Headers (clone_message dl n t)) =
      (table_get (dl_Headers dl))(RetryHeader \<mapsto> VInt32 (word_of_int n))"
    by (rule ext) (simp add: stamp_get)
  moreover have "retryCount (pb_Headers (clone_message dl n t)) = n \<longleftrightarrow> - (2 ^ 31) \<le> n \<and> n < 2 ^ 31"
    unfolding clone_sel retryCount_stamp by (rule sint32_id)
  ultimately show ?thesis
    by (simp add: Let_def) (simp add: clone_message_def Let_def ttl_def publishing0_def)
qed

text \<open>The publish among some calls that the broker accepted.\<close>

fun published :: "bcall list \<Rightarrow> (string \<times> publishing) option" where
  "published [] = None"
| "published (b # bs) =
     (case b of BPublish h x k m r \<Rightarrow> if r = None then Some (k, m) else published bs | _ \<Rightarrow> published bs)"

text \<open>
  The life of a message whose handler fails every time: each delivery goes through the consumer,
  and what it published to the delay queue comes back when the TTL fires, as the delivery
  \<open>redeliver\<close> gives. The result lists the messages published.
\<close>

fun journey ::
  "nat \<Rightarrow> (publishing \<Rightarrow> delivery) \<Rightarrow> (float64 \<Rightarrow> int) \<Rightarrow> 's amqp \<Rightarrow> rabbit_comp \<Rightarrow> subscription \<Rightarrow>
   retry_policy \<Rightarrow> goerr \<Rightarrow> delivery \<Rightarrow> 's bst \<Rightarrow> (string \<times> publishing) list" where
  "journey 0 redeliver oob d c sub p e dl st = []"
| "journey (Suc fuel) redeliver oob d c sub p e dl st =
     (let st' = rabbit_deliver oob d c sub dl (Some e) st
      in case published (drop (length (bcalls st)) (bcalls st')) of
           None \<Rightarrow> []
         | Some (key, m) \<Rightarrow>
             (key, m) #
             (if key = retryQueue p (sub_queue sub)
              then journey fuel redeliver oob d c sub p e (redeliver m) st' else []))"

definition accepts :: "'s amqp \<Rightarrow> rabbit_comp \<Rightarrow> bool" where
  "accepts d c \<longleftrightarrow> mq_ch c \<noteq> None \<and> (\<forall>h s. \<not> a_ChClosed d h s) \<and>
     (\<forall>h t x k m s. fst (a_Publish d h t x k m s) = None)"

text \<open>RabbitMQ keeps the body and the headers of a message it dead-letters (it may add headers).\<close>

definition keeps_message :: "(publishing \<Rightarrow> delivery) \<Rightarrow> bool" where
  "keeps_message redeliver \<longleftrightarrow>
     (\<forall>m. dl_Body (redeliver m) = pb_Body m \<and>
          table_get (dl_Headers (redeliver m)) RetryHeader = table_get (pb_Headers m) RetryHeader)"

lemma hand_on_accepted:
  assumes "accepts d c"
  shows "\<exists>h r. bcalls (hand_on d c dl key n t failed st) =
    bcalls st @ [BPublish h '''' key (clone_message dl n t) None, BAck (dl_Tag dl) r]"
proof -
  obtain err st1 where pub: "rabbit_republish d c dl '''' key n t st = (err, st1)"
    by (metis surj_pair)
  from assms have live: "\<not> no_channel d c (bstate st)"
    by (auto simp: accepts_def no_channel_def)
  with pub assms have "err = None"
    by (auto simp: rabbit_republish_def rabbit_publish_def accepts_def Let_def split_beta)
  with pub live publish_calls [of d c "''''" key "clone_message dl n t" st err st1]
  show ?thesis by (auto simp: hand_on_def rabbit_republish_def)
qed

lemma deliver_published:
  assumes "accepts d c" and "sub_retry sub = Some p" and "\<not> errors_is e ErrDropToDLX"
    and n: "retryCount (dl_Headers dl) = n"
  shows "published (drop (length (bcalls st)) (bcalls (rabbit_deliver oob d c sub dl (Some e) st))) =
    Some (if n \<ge> maxRetries p then (dlq p (sub_queue sub), clone_message dl n 0)
          else (retryQueue p (sub_queue sub), clone_message dl (n + 1) (backoff oob p (n + 1))))"
proof -
  have pub: "published (drop (length (bcalls st)) (bcalls (hand_on d c dl key k t failed (logged l m st)))) =
      Some (key, clone_message dl k t)" for key k t failed l m
    using hand_on_accepted [OF assms(1), of dl key k t failed "logged l m st"] by auto
  show ?thesis
    using assms(3) by (simp add: rabbit_deliver_def handleFailure_hand_on [OF assms(2)] n Let_def pub)
qed

definition stages :: "(string \<times> publishing) list \<Rightarrow> (string \<times> string \<times> int \<times> string) list" where
  "stages = map (\<lambda>(k, m). (k, pb_Expiration m, retryCount (pb_Headers m), pb_Body m))"

lemma stages_simps [simp]:
  "stages [] = []"
  "stages ((k, m) # ms) = (k, pb_Expiration m, retryCount (pb_Headers m), pb_Body m) # stages ms"
  by (simp_all add: stages_def)

lemma clone_expiration [simp]: "pb_Expiration (clone_message dl n t) = ttl t"
  by (simp add: clone_message_def Let_def ttl_def publishing0_def)

lemma clone_count:
  "0 \<le> n \<Longrightarrow> n < 2 ^ 31 \<Longrightarrow> retryCount (pb_Headers (clone_message dl n t)) = n"
  by (simp add: retryCount_stamp sint32_id)

lemma journey_from:
  assumes "accepts d c" and "sub_retry sub = Some p" and "\<not> errors_is e ErrDropToDLX"
    and "keeps_message redeliver" and "maxRetries p < 2 ^ 31"
    and "retryQueue p (sub_queue sub) \<noteq> dlq p (sub_queue sub)"
  shows "retryCount (dl_Headers dl) = n \<Longrightarrow> 0 \<le> n \<Longrightarrow> n \<le> maxRetries p \<Longrightarrow>
    nat (maxRetries p - n) < fuel \<Longrightarrow>
    stages (journey fuel redeliver oob d c sub p e dl st) =
      map (\<lambda>i. (retryQueue p (sub_queue sub), ttl (backoff oob p i), i, dl_Body dl)) [n + 1..maxRetries p] @
      [(dlq p (sub_queue sub), '''', maxRetries p, dl_Body dl)]"
proof (induction fuel arbitrary: n dl st)
  case (Suc fuel)
  note pub = deliver_published [OF assms(1-3) Suc.prems(1)]
  show ?case
  proof (cases "n = maxRetries p")
    case True
    with Suc.prems(2) assms(5,6) clone_count [of n dl 0] show ?thesis
      by (simp add: pub Let_def ttl_def del: clone_sel(2))
  next
    case False
    let ?m = "clone_message dl (n + 1) (backoff oob p (n + 1))"
    have count: "retryCount (pb_Headers ?m) = n + 1"
      using Suc.prems(2,3) assms(5) False by (intro clone_count) simp_all
    with assms(4) have redelivered: "retryCount (dl_Headers (redeliver ?m)) = n + 1"
      "dl_Body (redeliver ?m) = dl_Body dl"
      by (simp_all add: keeps_message_def retryCount_def)
    have "[n + 1..maxRetries p] = (n + 1) # [n + 1 + 1..maxRetries p]"
      using False Suc.prems(3) by (simp add: upto_rec1)
    with False Suc.prems redelivered(2) count Suc.IH [OF redelivered(1)] show ?thesis
      by (simp add: pub Let_def del: clone_sel(2))
  qed
qed simp

text \<open>
  C3. The retry pipeline ends: a message whose handler fails every time is retried exactly
  \<open>maxRetries\<close> times, retry number \<open>i\<close> carrying the counter \<open>i\<close> and the TTL of its backoff,
  and is then published to the dead-letter queue, with its body unchanged throughout and
  nothing published after that.
\<close>
theorem rabbit_retry_pipeline:
  assumes "accepts d c" and "sub_retry sub = Some p" and "\<not> errors_is e ErrDropToDLX"
    and "keeps_message redeliver" and "maxRetries p < 2 ^ 31"
    and "retryQueue p (sub_queue sub) \<noteq> dlq p (sub_queue sub)"
    and "table_get (dl_Headers dl) RetryHeader = None" and "nat (maxRetries p) < fuel"
  shows "stages (journey fuel redeliver oob d c sub p e dl st) =
    map (\<lambda>i. (retryQueue p (sub_queue sub), ttl (backoff oob p i), i, dl_Body dl)) [1..maxRetries p] @
    [(dlq p (sub_queue sub), '''', maxRetries p, dl_Body dl)]"
  using journey_from [OF assms(1-6), of dl 0 fuel] assms(7,8)
  by (simp add: retryCount_def maxRetries_def)

text \<open>A broker that accepts everything, a running component, and a queue with the default policy.\<close>

definition good_amqp :: "unit amqp" where
  "good_amqp = \<lparr>a_Dial = \<lambda>_ _ s. (Inr 1, s), a_Channel = \<lambda>_ s. (Inr 2, s),
     a_ExchangeDeclare = \<lambda>_ _ s. (None, s), a_QueueDeclare = \<lambda>_ _ _ s. (None, s),
     a_QueueBind = \<lambda>_ _ _ _ s. (None, s), a_Consume = \<lambda>_ _ s. (None, s),
     a_Publish = \<lambda>_ _ _ _ _ s. (None, s), a_Ack = \<lambda>_ s. (None, s), a_Nack = \<lambda>_ _ s. (None, s),
     a_CloseChannel = \<lambda>_ s. (None, s), a_CloseConn = \<lambda>_ s. (None, s),
     a_ChClosed = \<lambda>_ _. False, a_ConnClosed = \<lambda>_ _. False\<rparr>"

definition rabbit_cfg0 :: rabbit_config where
  "rabbit_cfg0 = \<lparr>mc_Host = '''', mc_Port = 0, mc_VHost = '''', mc_User = '''',
     mc_Pass = ''p@ss:/?#'', mc_URI = '''', mc_ConnectTimeout = 0, mc_PublishTimeout = 0,
     mc_OnOperation = None\<rparr>"

definition jobs_sub :: subscription where
  "jobs_sub = \<lparr>sub_routingKey = ''jobs'', sub_exchange = ''ex'', sub_queue = ''jobs'',
     sub_queueArgs = None, sub_retry = Some default_policy, sub_handler = 0\<rparr>"

definition job :: delivery where
  "job = \<lparr>dl_Headers = None, dl_ContentType = ''text/plain'', dl_ContentEncoding = '''', dl_Priority = 0,
     dl_CorrelationId = '''', dl_ReplyTo = '''', dl_MessageId = '''', dl_Timestamp = 0, dl_Type = '''',
     dl_UserId = '''', dl_AppId = '''', dl_Body = ''work'', dl_Tag = 7\<rparr>"

definition requeued :: "publishing \<Rightarrow> delivery" where
  "requeued m = job\<lparr>dl_Headers := pb_Headers m, dl_Body := pb_Body m\<rparr>"

definition rabbit_running :: rabbit_comp where
  "rabbit_running = rabbit_set_live 1 2 (rabbit_begin 1 0 (rabbit_New rabbit_cfg0 []))"

theorem rabbit_uri_roundtrip_witness:
  "url_parse (rabbit_uri rabbit_cfg0) =
     Some (''amqp'', ''guest'', ''p@ss:/?#'', ''localhost:5672'', ''/'', '''')"
proof -
  have hp: "host_port ''localhost'' 5672 = ''localhost:5672''"
    by (simp add: host_port_def show_int_def show_nat.simps digit_def)
  have "valid_host ''localhost''"
    by (simp add: valid_host_def should_escape_def is_alnum_def)
  with rabbit_uri_roundtrip [of rabbit_cfg0 "''localhost''" 5672] hp show ?thesis
    by (simp add: rabbit_cfg0_def rooted_def)
qed

theorem rabbit_vhost_slash_witness:
  "rabbit_uri (rabbit_cfg0\<lparr>mc_VHost := ''/orders''\<rparr>) = rabbit_uri (rabbit_cfg0\<lparr>mc_VHost := ''orders''\<rparr>)"
  using rabbit_vhost_slash [of "''orders''" rabbit_cfg0] by simp

theorem rabbit_retry_pipeline_witness:
  "stages (journey 4 requeued (\<lambda>_. 0) good_amqp rabbit_running jobs_sub default_policy (Foreign 0) job
     (world0, ([], ()))) =
   [(''jobs.retry'', ttl (backoff (\<lambda>_. 0) default_policy 1), 1, ''work''),
    (''jobs.retry'', ttl (backoff (\<lambda>_. 0) default_policy 2), 2, ''work''),
    (''jobs.retry'', ttl (backoff (\<lambda>_. 0) default_policy 3), 3, ''work''),
    (''jobs.dlq'', '''', 3, ''work'')]"
proof -
  have "accepts good_amqp rabbit_running"
    by (simp add: accepts_def good_amqp_def rabbit_running_def rabbit_set_live_def)
  moreover have "\<not> errors_is (Foreign 0) ErrDropToDLX" by (simp add: ErrDropToDLX_def)
  moreover have "keeps_message requeued" by (simp add: keeps_message_def requeued_def)
  moreover have "maxRetries default_policy = 3" "retryQueue default_policy ''jobs'' = ''jobs.retry''"
    "dlq default_policy ''jobs'' = ''jobs.dlq''" "sub_queue jobs_sub = ''jobs''"
    "sub_retry jobs_sub = Some default_policy" "table_get (dl_Headers job) RetryHeader = None"
    "dl_Body job = ''work''"
    by (simp_all add: maxRetries_def default_policy_def retryQueue_def dlq_def jobs_sub_def job_def
        table_get_def)
  moreover have "[1..3] = [1, 2, 3 :: int]" by (simp add: upto_rec1)
  ultimately show ?thesis
    using rabbit_retry_pipeline [of good_amqp rabbit_running jobs_sub default_policy "Foreign 0"
        requeued job 4 "\<lambda>_. 0" "(world0, ([], ()))"]
    by simp
qed

section \<open>Start and Stop\<close>

lemma open_live:
  "rabbit_open d race c st = (Live conn ch, st') \<Longrightarrow>
     race = DialDone \<and> bcalls st' = bcalls st @
       [BDial (rabbit_uri (mq_cfg c)) (rabbit_connectTimeout (mq_cfg c)) (Inr conn),
        BOpenChannel conn (Inr ch)]"
  unfolding rabbit_open_def Let_def
  by (auto split: prod.splits dial_race.splits sum.splits dest!: bk_calls)

text \<open>The connections a run has dialled, and those it has closed.\<close>

definition dials :: "bcall list \<Rightarrow> handle set" where
  "dials calls = {conn. \<exists>u t. BDial u t (Inr conn) \<in> set calls}"

definition closes :: "bcall list \<Rightarrow> handle set" where
  "closes calls = {conn. \<exists>r. BCloseConn conn r \<in> set calls}"

lemma open_not_live:
  "rabbit_open d race c st = (res, st') \<Longrightarrow> \<forall>conn ch. res \<noteq> Live conn ch \<Longrightarrow>
     \<exists>calls. bcalls st' = bcalls st @ calls \<and> (race \<noteq> TimerWins \<longrightarrow> dials calls \<subseteq> closes calls)"
  unfolding rabbit_open_def Let_def
  by (auto simp: dials_def closes_def split: prod.splits dial_race.splits sum.splits dest!: bk_calls)

text \<open>\<open>st'\<close> comes after \<open>st\<close> with no dial in between.\<close>

definition no_dial :: "'s bst \<Rightarrow> 's bst \<Rightarrow> bool" where
  "no_dial st st' \<longleftrightarrow> (\<exists>calls. bcalls st' = bcalls st @ calls \<and> dials calls = {})"

lemma dials_simps [simp]:
  "dials (xs @ ys) = dials xs \<union> dials ys" "dials [] = {}" "closes (xs @ ys) = closes xs \<union> closes ys"
  by (auto simp: dials_def closes_def)

lemma no_dial_refl [simp]: "no_dial st st" "no_dial st (logged l m st)"
  by (simp_all add: no_dial_def)

lemma no_dial_logged [simp]: "no_dial (logged l m st) st' \<longleftrightarrow> no_dial st st'"
  "no_dial st (logged l m st') \<longleftrightarrow> no_dial st st'"
  by (simp_all add: no_dial_def)

lemma no_dial_trans: "no_dial st st1 \<Longrightarrow> no_dial st1 st2 \<Longrightarrow> no_dial st st2"
  unfolding no_dial_def by (metis append_assoc dials_simps(1) sup_bot.right_neutral)

lemma no_dial_bk: "bk f mk st = (r, st') \<Longrightarrow> (\<And>r u t c. mk r \<noteq> BDial u t c) \<Longrightarrow> no_dial st st'"
  unfolding no_dial_def by (drule bk_calls) (auto simp: dials_def dest: sym)

lemma topology_no_dial: "no_dial st (snd (rabbit_declareRetryTopology d ch sub p st))"
  unfolding rabbit_declareRetryTopology_def Let_def
  by (auto split: prod.splits option.splits dest!: no_dial_bk intro: no_dial_trans)

lemma bind_no_dial: "no_dial st (snd (rabbit_bindAndConsume d ch sub st))"
proof -
  obtain err st1 where first: "(case sub_retry sub of None \<Rightarrow> (None, st)
      | Some p \<Rightarrow> rabbit_declareRetryTopology d ch sub p st) = (err, st1)"
    by (metis surj_pair)
  then have "no_dial st st1"
    using topology_no_dial [of st d ch sub] by (auto split: option.splits) (metis snd_conv)
  moreover have "no_dial st1 (snd (rabbit_bindAndConsume d ch sub st))"
    unfolding rabbit_bindAndConsume_def Let_def first
    by (auto split: prod.splits option.splits dest!: no_dial_bk intro: no_dial_trans)
  ultimately show ?thesis by (rule no_dial_trans)
qed

lemma declare_all_no_dial: "no_dial st (snd (rabbit_declare_all d ch es st))"
proof (induction es arbitrary: st)
  case (Cons e es)
  obtain r st1 where one: "bk (a_ExchangeDeclare d ch e) (BExchange ch e) st = (r, st1)"
    by (metis surj_pair)
  then have "no_dial st st1" by (rule no_dial_bk) simp
  with one Cons [of "logged Debug ''rabbitmq: exchange declared'' st1"] show ?case
    by (auto split: option.split intro: no_dial_trans)
qed simp

lemma bind_all_no_dial: "no_dial st (snd (snd (rabbit_bind_all d ch subs st)))"
proof (induction subs arbitrary: st)
  case (Cons sub subs)
  obtain r st1 where one: "rabbit_bindAndConsume d ch sub st = (r, st1)"
    by (metis surj_pair)
  with bind_no_dial [of st d ch sub] have "no_dial st st1" by simp
  with one Cons [of st1] show ?case
    by (auto simp: split_beta split: option.split intro: no_dial_trans)
qed simp

text \<open>From a live channel on, \<open>Start\<close> either reaches \<open>ready\<close> or closes the connection.\<close>

lemma setup_outcome:
  assumes "rabbit_setup d conn ch c st = (rr, c', st')"
  shows "(rr_ready rr \<longleftrightarrow> rr_err rr = None) \<and>
    (if rr_ready rr
     then rr_started rr = mq_subs c \<and> c' = c\<lparr>mq_dead := []\<rparr> \<and>
       bcalls st' = bcalls st @ map (\<lambda>e. BExchange ch e None) (mq_exchanges c) @
         concat (map (sub_calls ch) (mq_subs c))
     else \<exists>calls. bcalls st' = bcalls st @ calls \<and> dials calls = {} \<and> conn \<in> closes calls)"
proof -
  obtain e1 st1 where decl: "rabbit_declare_all d ch (mq_exchanges c) st = (e1, st1)"
    by (metis surj_pair)
  obtain e2 started st2 where bound: "rabbit_bind_all d ch (mq_subs c) st1 = (e2, started, st2)"
    by (metis surj_pair)
  have one: "no_dial st st1" using declare_all_no_dial [of st d ch "mq_exchanges c"] decl by simp
  have two: "no_dial st1 st2" using bind_all_no_dial [of st1 d ch "mq_subs c"] bound by simp
  have closed: "\<exists>calls. bcalls (rabbit_close_both d conn ch s2) = bcalls st @ calls \<and>
      dials calls = {} \<and> conn \<in> closes calls" if "no_dial st s2" for s2
  proof -
    from that obtain calls where "bcalls s2 = bcalls st @ calls" "dials calls = {}"
      by (auto simp: no_dial_def)
    moreover obtain r r' where "bcalls (rabbit_close_both d conn ch s2) =
        bcalls s2 @ [BCloseChannel ch r, BCloseConn conn r']" using close_both_calls by blast
    ultimately show ?thesis
      by (intro exI [of _ "calls @ [BCloseChannel ch r, BCloseConn conn r']"])
        (auto simp: dials_def closes_def)
  qed
  show ?thesis
  proof (cases e1)
    case (Some x)
    with assms decl closed [OF one] show ?thesis by (auto simp: rabbit_setup_def)
  next
    case None
    show ?thesis
    proof (cases e2)
      case (Some x)
      with assms decl bound None closed [OF no_dial_trans [OF one two]] show ?thesis
        by (auto simp: rabbit_setup_def Let_def)
    next
      case ok: None
      with assms decl bound None declare_all_calls [of d ch "mq_exchanges c" st st1]
        bind_all_calls [of d ch "mq_subs c" st1 started st2]
      show ?thesis by (auto simp: rabbit_setup_def Let_def)
    qed
  qed
qed

text \<open>
  C20. A \<open>Start\<close> that reaches \<open>ready\<close> has dialled the configured URI, declared every exchange,
  and for every subscription declared its retry and dead-letter queues and its own queue, bound
  it and started one consumer, all in order of registration, and has reset the list of dead
  consumers. A \<open>Start\<close> that does not reach \<open>ready\<close> leaves no connection open, unless the dial
  timer fired; and it signals \<open>ready\<close> exactly when it neither failed nor was cancelled.
\<close>
theorem rabbit_start_outcome:
  "case rabbit_Start d race stopCh ctx c st of (rr, c', st') \<Rightarrow>
     mq_stopCh c' = stopCh \<and>
     (if rr_ready rr
      then rr_err rr = None \<and> race = DialDone \<and>
        (\<exists>conn ch. mq_conn c' = Some conn \<and> mq_ch c' = Some ch \<and> mq_runCtx c' = Some ctx \<and>
          mq_dead c' = [] \<and> rr_started rr = mq_subs c \<and>
          bcalls st' = bcalls st @
            [BDial (rabbit_uri (mq_cfg c)) (rabbit_connectTimeout (mq_cfg c)) (Inr conn),
             BOpenChannel conn (Inr ch)] @
            map (\<lambda>e. BExchange ch e None) (mq_exchanges c) @ concat (map (sub_calls ch) (mq_subs c)))
      else \<exists>calls. bcalls st' = bcalls st @ calls \<and>
        (race = TimerWins \<or> dials calls \<subseteq> closes calls) \<and> (rr_err rr = None \<longleftrightarrow> race = CtxWins))"
proof -
  let ?c = "rabbit_begin stopCh ctx c"
  obtain res st1 where opened: "rabbit_open d race ?c st = (res, st1)"
    by (metis surj_pair)
  have begin_sel: "mq_cfg ?c = mq_cfg c" "mq_stopCh ?c = stopCh" "mq_exchanges ?c = mq_exchanges c"
    "mq_subs ?c = mq_subs c" "mq_runCtx ?c = Some ctx"
    by (simp_all add: rabbit_begin_def)
  show ?thesis
  proof (cases res)
    case (Live conn ch)
    let ?live = "rabbit_set_live conn ch ?c"
    obtain rr c' st' where set_up: "rabbit_setup d conn ch ?live st1 = (rr, c', st')"
      by (metis surj_pair)
    have live_sel: "mq_exchanges ?live = mq_exchanges c" "mq_subs ?live = mq_subs c"
      "mq_stopCh ?live = stopCh" "mq_conn ?live = Some conn" "mq_ch ?live = Some ch"
      "mq_runCtx ?live = Some ctx"
      by (simp_all add: rabbit_set_live_def rabbit_begin_def)
    have start: "rabbit_Start d race stopCh ctx c st = (rr, c', st')"
      using opened Live set_up by (simp add: rabbit_Start_def)
    from open_live opened Live have pre: "race = DialDone" "bcalls st1 = bcalls st @
       [BDial (rabbit_uri (mq_cfg c)) (rabbit_connectTimeout (mq_cfg c)) (Inr conn),
        BOpenChannel conn (Inr ch)]"
      by (fastforce simp: begin_sel)+
    have stop_ch: "mq_stopCh c' = stopCh"
      using set_up by (auto simp: rabbit_setup_def Let_def live_sel split: prod.splits option.splits)
    show ?thesis
    proof (cases "rr_ready rr")
      case True
      with setup_outcome [OF set_up] pre stop_ch show ?thesis
        unfolding start by (auto simp: live_sel)
    next
      case False
      with setup_outcome [OF set_up] obtain calls where calls: "bcalls st' = bcalls st1 @ calls"
        "dials calls = {}" "conn \<in> closes calls" "rr_err rr \<noteq> None" by auto
      have "dials ([BDial (rabbit_uri (mq_cfg c)) (rabbit_connectTimeout (mq_cfg c)) (Inr conn),
        BOpenChannel conn (Inr ch)] @ calls) \<subseteq> closes ([BDial (rabbit_uri (mq_cfg c))
        (rabbit_connectTimeout (mq_cfg c)) (Inr conn), BOpenChannel conn (Inr ch)] @ calls)"
        using calls(2,3) unfolding dials_simps by (auto simp: dials_def)
      with False calls(1,4) pre stop_ch show ?thesis
        unfolding start by auto
    qed
  next
    case (Failed e)
    with opened have "race \<noteq> CtxWins"
      by (auto simp: rabbit_open_def Let_def split: prod.splits sum.splits)
    with Failed open_not_live [OF opened] opened begin_sel(2) show ?thesis
      by (auto simp: rabbit_Start_def)
  next
    case Cancelled
    with opened have "race = CtxWins"
      by (auto simp: rabbit_open_def Let_def split: prod.splits sum.splits dial_race.splits)
    with Cancelled open_not_live [OF opened] opened begin_sel(2) show ?thesis
      by (auto simp: rabbit_Start_def)
  qed
qed

text \<open>
  A dial that ends after \<open>ConnectTimeout\<close> leaks: when the timer wins the race and the dial
  then succeeds, \<open>Start\<close> has returned its error and nothing ever closes the connection.
\<close>
theorem rabbit_dial_timeout_leaks:
  assumes "a_Dial d (rabbit_uri (mq_cfg c)) (rabbit_connectTimeout (mq_cfg c)) (bstate st) = (Inr conn, s')"
  shows "case rabbit_Start d TimerWins stopCh ctx c st of (rr, c', st') \<Rightarrow>
     rr_err rr \<noteq> None \<and> mq_conn c' = mq_conn c \<and>
     bcalls st' = bcalls st @
       [BDial (rabbit_uri (mq_cfg c)) (rabbit_connectTimeout (mq_cfg c)) (Inr conn)]"
  using assms by (simp add: rabbit_Start_def rabbit_open_def rabbit_begin_def Let_def split_beta)

theorem rabbit_dial_timeout_leaks_witness:
  "bcalls (snd (snd (rabbit_Start good_amqp TimerWins 1 0 (rabbit_New rabbit_cfg0 []) (world0, ([], ()))))) =
     [BDial (rabbit_uri rabbit_cfg0) (10 * second) (Inr 1)]"
proof -
  have "a_Dial good_amqp (rabbit_uri (mq_cfg (rabbit_New rabbit_cfg0 [])))
      (rabbit_connectTimeout (mq_cfg (rabbit_New rabbit_cfg0 []))) (bstate (world0, ([], ()))) = (Inr 1, ())"
    by (simp add: good_amqp_def)
  from rabbit_dial_timeout_leaks [OF this, of 1 0] show ?thesis
    by (simp add: split_beta bcalls_def rabbit_New_def rabbit_connectTimeout_def rabbit_cfg0_def)
qed

lemma close_logged_calls [simp]:
  "bcalls (close_logged f mk m st) = bcalls st @ [mk (fst (f (bstate st)))]"
  by (simp add: close_logged_def split_beta)

text \<open>
  \<open>Stop\<close> takes the channel and the connection out of the component, cancels the run's
  context, closes the run's stop channel, then closes the AMQP channel and after it the
  connection, each exactly when there was one; \<open>Health\<close> fails from then on, and a second \<open>Stop\<close>
  makes no call.
\<close>
theorem rabbit_stop_outcome:
  "case rabbit_Stop d fresh expired c cl cx st of (c', cl', cx', st') \<Rightarrow>
     mq_conn c' = None \<and> mq_ch c' = None \<and> mq_stopCh c' = fresh \<and>
     cl' = insert (mq_stopCh c) (insert fresh cl) \<and>
     cx' = cx \<union> set_option (mq_runCancel c) \<and>
     (\<exists>r r'. bcalls st' = bcalls st @
        (case mq_ch c of None \<Rightarrow> [] | Some ch \<Rightarrow> [BCloseChannel ch r]) @
        (case mq_conn c of None \<Rightarrow> [] | Some conn \<Rightarrow> [BCloseConn conn r'])) \<and>
     rabbit_Health d c' s \<noteq> None \<and>
     bcalls (snd (snd (snd (rabbit_Stop d fresh2 expired2 c' cl' cx' st')))) = bcalls st'"
proof -
  have health: "rabbit_Health d (rabbit_swap fresh c) s \<noteq> None"
    by (simp add: rabbit_Health_def rabbit_swap_def split: list.split prod.split)
  show ?thesis
    using health
    by (auto simp: rabbit_Stop_def Let_def rabbit_swap_def split: option.splits)
qed

lemma count_map_exchange: "count_list (map (\<lambda>e. BExchange ch e None) es) (BConsume h q r) = 0"
  by (induction es) simp_all

text \<open>
  C38. \<open>Subscribe\<close> is not atomic with \<open>Start\<close>: between the moment \<open>Start\<close> publishes its live
  channel and the moment it reads the list of subscriptions, a subscription is bound by the
  caller and again by \<open>Start\<close>, and two consumers then read its queue.
\<close>
theorem rabbit_subscribe_race:
  assumes "rabbit_SubscribeWithOptions d x q k h opts
      (rabbit_set_live conn ch (rabbit_begin stopCh ctx c)) st = (None, c1, Some ctx', st1)"
    and "rabbit_setup d conn ch c1 st1 = (rr, c2, st2)" and "rr_ready rr"
  shows "ctx' = ctx \<and> (\<exists>calls. bcalls st2 = bcalls st @ calls \<and>
    count_list calls (BConsume ch q None) \<ge> 2)"
proof -
  let ?live = "rabbit_set_live conn ch (rabbit_begin stopCh ctx c)"
  define sub where "sub = \<lparr>sub_routingKey = k, sub_exchange = x, sub_queue = q,
    sub_queueArgs = buildQueueArgs opts, sub_retry = so_Retry opts, sub_handler = h\<rparr>"
  have sel: "mq_ch ?live = Some ch" "mq_runCtx ?live = Some ctx"
    by (simp_all add: rabbit_set_live_def rabbit_begin_def)
  from assms(1) sel have own: "rabbit_bindAndConsume d ch sub st = (None, st1)" "ctx' = ctx"
    "c1 = ?live\<lparr>mq_subs := mq_subs ?live @ [sub]\<rparr>"
    by (auto simp: rabbit_SubscribeWithOptions_def Let_def sub_def split: if_splits prod.splits)
  have one: "count_list (sub_calls ch sub) (BConsume ch q None) \<ge> 1"
    by (simp add: sub_calls_def sub_def split: option.split)
  from setup_outcome [OF assms(2)] assms(3) own(3)
  have "bcalls st2 = bcalls st1 @ map (\<lambda>e. BExchange ch e None) (mq_exchanges c1) @
      concat (map (sub_calls ch) (mq_subs ?live)) @ sub_calls ch sub" by simp
  with bind_calls [OF own(1)] one own(2) show ?thesis
    by (simp add: count_list_append)
qed

theorem rabbit_subscribe_race_witness:
  "case rabbit_SubscribeWithOptions good_amqp ''ex'' ''q'' ''k'' 0 subscribe_options0 rabbit_running
      (world0, ([], ())) of (err, c1, ctx, st1) \<Rightarrow>
     (case rabbit_setup good_amqp 1 2 c1 st1 of (rr, c2, st2) \<Rightarrow>
        count_list (bcalls st2) (BConsume 2 ''q'' None) \<ge> 2)"
proof -
  obtain err c1 cx st1 where sub: "rabbit_SubscribeWithOptions good_amqp ''ex'' ''q'' ''k'' 0
      subscribe_options0 rabbit_running (world0, ([], ())) = (err, c1, cx, st1)"
    by (metis surj_pair)
  obtain rr c2 st2 where set_up: "rabbit_setup good_amqp 1 2 c1 st1 = (rr, c2, st2)"
    by (metis surj_pair)
  have ok: "err = None" "cx = Some 0"
    and c1: "mq_exchanges c1 = []" "\<exists>s. mq_subs c1 = [s] \<and> sub_retry s = None"
    using sub
    by (auto simp: rabbit_SubscribeWithOptions_def good_amqp_def rabbit_running_def
        rabbit_set_live_def rabbit_begin_def rabbit_New_def no_channel_def Let_def
        rabbit_bindAndConsume_def bk_def logged_def split: prod.splits)
  from c1 set_up have "rr_ready rr"
    by (auto simp: rabbit_setup_def rabbit_bindAndConsume_def Let_def good_amqp_def bk_def
        logged_def split_beta)
  with rabbit_subscribe_race [OF sub [unfolded ok rabbit_running_def] set_up] sub set_up
  show ?thesis by (auto simp: bcalls_def)
qed

end
