(* ===== verification/Sqlite.thy ===== *)
theory Sqlite
  imports Observe Lifecycle Net_Url
begin

text \<open>
  The sqlite module: \<open>Config\<close>, its pragmas and connection string, \<open>Start\<close> with the check of the
  journal mode, \<open>Stop\<close>, \<open>Health\<close>, and the five operations of the \<open>DB\<close> interface. database/sql
  with its driver, and the directory creation of \<open>os\<close>, are a parameter, the record
  \<open>sql_driver\<close>. What a query scans into the caller's destination is part of the driver's state.
\<close>

section \<open>Configuration\<close>

abbreviation "JournalWAL \<equiv> ''WAL''"
abbreviation "SyncNormal \<equiv> ''NORMAL''"
abbreviation "MemoryPath \<equiv> '':memory:''"

record sqlite_config =
  sq_Path :: string
  sq_BusyTimeout :: duration
  sq_JournalMode :: string
  sq_Synchronous :: string
  sq_DisableForeignKeys :: bool
  sq_MaxOpenConns :: int
  sq_ConnectTimeout :: duration
  sq_OnOperation :: "sink option"

definition sqlite_onOperation :: "sqlite_config \<Rightarrow> sink option" where
  "sqlite_onOperation c = sq_OnOperation c"

definition sqlite_path :: "sqlite_config \<Rightarrow> string" where
  "sqlite_path c = (if sq_Path c = '''' then MemoryPath else sq_Path c)"

definition sqlite_inMemory :: "sqlite_config \<Rightarrow> bool" where
  "sqlite_inMemory c = (let p = sqlite_path c in p = MemoryPath \<or> contains p ''mode=memory'')"

definition sqlite_journalMode :: "sqlite_config \<Rightarrow> string" where
  "sqlite_journalMode c = (if sq_JournalMode c = '''' then JournalWAL else to_upper (sq_JournalMode c))"

definition sqlite_synchronous :: "sqlite_config \<Rightarrow> string" where
  "sqlite_synchronous c = (if sq_Synchronous c = '''' then SyncNormal else to_upper (sq_Synchronous c))"

definition sqlite_busyTimeout :: "sqlite_config \<Rightarrow> duration" where
  "sqlite_busyTimeout c = (if sq_BusyTimeout c > 0 then sq_BusyTimeout c else 5 * second)"

definition sqlite_connectTimeout :: "sqlite_config \<Rightarrow> duration" where
  "sqlite_connectTimeout c = (if sq_ConnectTimeout c > 0 then sq_ConnectTimeout c else 10 * second)"

definition sqlite_maxOpenConns :: "sqlite_config \<Rightarrow> int" where
  "sqlite_maxOpenConns c =
     (if sqlite_inMemory c then 1 else if sq_MaxOpenConns c > 0 then sq_MaxOpenConns c else 1)"

definition sqlite_foreignKeys :: "sqlite_config \<Rightarrow> string" where
  "sqlite_foreignKeys c = (if sq_DisableForeignKeys c then ''off'' else ''on'')"

definition sqlite_pragmas :: "sqlite_config \<Rightarrow> string list" where
  "sqlite_pragmas c =
     [''busy_timeout('' @ show_int (milliseconds (sqlite_busyTimeout c)) @ '')'',
      ''journal_mode('' @ sqlite_journalMode c @ '')'',
      ''synchronous('' @ sqlite_synchronous c @ '')'',
      ''foreign_keys('' @ sqlite_foreignKeys c @ '')'']"

definition sqlite_dsn :: "sqlite_config \<Rightarrow> string" where
  "sqlite_dsn c = ''file:'' @ sqlite_path c @ ''?'' @ encode_values ''_pragma'' (sqlite_pragmas c)"

section \<open>\<open>filepath.Dir\<close>\<close>

text \<open>On Unix: the path up to its last slash, cleaned.\<close>

fun split_slash :: "string \<Rightarrow> string \<Rightarrow> string list" where
  "split_slash acc [] = [rev acc]"
| "split_slash acc (c # s) = (if c = CHR ''/'' then rev acc # split_slash [] s else split_slash (c # acc) s)"

fun clean_step :: "bool \<Rightarrow> string list \<Rightarrow> string list \<Rightarrow> string list" where
  "clean_step is_abs out [] = rev out"
| "clean_step is_abs out (e # es) =
     (if e = '''' \<or> e = ''.'' then clean_step is_abs out es
      else if e = ''..'' then
        (case out of
           o1 # rest \<Rightarrow> if o1 = ''..'' then clean_step is_abs (e # out) es else clean_step is_abs rest es
         | [] \<Rightarrow> if is_abs then clean_step is_abs [] es else clean_step is_abs [e] es)
      else clean_step is_abs (e # out) es)"

fun join_slash :: "string list \<Rightarrow> string" where
  "join_slash [] = ''''"
| "join_slash [e] = e"
| "join_slash (e # f # es) = e @ ''/'' @ join_slash (f # es)"

definition path_clean :: "string \<Rightarrow> string" where
  "path_clean p =
     (let is_abs = (p \<noteq> [] \<and> hd p = CHR ''/'');
          body = join_slash (clean_step is_abs [] (split_slash [] p));
          out = (if is_abs then ''/'' @ body else body)
      in if out = '''' then ''.'' else out)"

definition path_dir :: "string \<Rightarrow> string" where
  "path_dir p = path_clean (if CHR ''/'' \<in> set p then fst (cut_last CHR ''/'' p) @ ''/'' else '''')"

section \<open>The component\<close>

record sqlite_comp =
  sc_cfg :: sqlite_config
  sc_name :: string
  sc_db :: "handle option"
  sc_stopCh :: chan

definition sqlite_New :: "sqlite_config \<Rightarrow> (sqlite_comp \<Rightarrow> sqlite_comp) list \<Rightarrow> sqlite_comp" where
  "sqlite_New cfg opts =
     fold (\<lambda>opt c. opt c) opts \<lparr>sc_cfg = cfg, sc_name = ''sqlite'', sc_db = None, sc_stopCh = 0\<rparr>"

definition sqlite_WithName :: "string \<Rightarrow> sqlite_comp \<Rightarrow> sqlite_comp" where
  "sqlite_WithName name c = c\<lparr>sc_name := name\<rparr>"

definition sqlite_Name :: "sqlite_comp \<Rightarrow> string" where "sqlite_Name c = sc_name c"

definition sqlite_getDB :: "sqlite_comp \<Rightarrow> handle option" where "sqlite_getDB c = sc_db c"
definition sqlite_SQLDB :: "sqlite_comp \<Rightarrow> handle option" where "sqlite_SQLDB c = sqlite_getDB c"

type_synonym query = "string \<times> nat list"

record 's sql_driver =
  q_MkdirAll :: "string \<Rightarrow> 's \<Rightarrow> goerr option \<times> 's"
  q_Open :: "string \<Rightarrow> 's \<Rightarrow> handle result \<times> 's"
  q_SetMaxOpenConns :: "handle \<Rightarrow> int \<Rightarrow> 's \<Rightarrow> 's"
  q_Ping :: "handle \<Rightarrow> 's \<Rightarrow> goerr option \<times> 's"
  q_Close :: "handle \<Rightarrow> 's \<Rightarrow> goerr option \<times> 's"
  q_ReadJournalMode :: "handle \<Rightarrow> 's \<Rightarrow> string result \<times> 's"
  q_SelectOne :: "handle \<Rightarrow> 's \<Rightarrow> int result \<times> 's"
  q_Select :: "handle \<Rightarrow> query \<Rightarrow> 's \<Rightarrow> goerr option \<times> 's"
  q_Get :: "handle \<Rightarrow> query \<Rightarrow> 's \<Rightarrow> goerr option \<times> 's"
  q_Exec :: "handle \<Rightarrow> query \<Rightarrow> 's \<Rightarrow> nat result \<times> 's"
  q_BeginTx :: "handle \<Rightarrow> nat \<Rightarrow> 's \<Rightarrow> handle result \<times> 's"
  q_Commit :: "handle \<Rightarrow> 's \<Rightarrow> goerr option \<times> 's"
  q_Rollback :: "handle \<Rightarrow> 's \<Rightarrow> goerr option \<times> 's"
  q_NotFound :: "goerr \<Rightarrow> bool"

definition sqlite_begin :: "chan \<Rightarrow> sqlite_comp \<Rightarrow> sqlite_comp" where
  "sqlite_begin ch c = c\<lparr>sc_stopCh := ch\<rparr>"

definition sqlite_publish :: "handle \<Rightarrow> sqlite_comp \<Rightarrow> sqlite_comp" where
  "sqlite_publish h c = c\<lparr>sc_db := Some h\<rparr>"

definition sqlite_swap :: "chan \<Rightarrow> sqlite_comp \<Rightarrow> sqlite_comp" where
  "sqlite_swap ch c = c\<lparr>sc_stopCh := ch, sc_db := None\<rparr>"

text \<open>\<open>verifyJournalMode\<close>; \<open>strings.EqualFold\<close> compares without case.\<close>

definition sqlite_verifyJournalMode ::
  "'s sql_driver \<Rightarrow> sqlite_comp \<Rightarrow> handle \<Rightarrow> 's st \<Rightarrow> goerr option \<times> 's st" where
  "sqlite_verifyJournalMode d c h st =
     (let want = sqlite_journalMode (sc_cfg c)
      in case call (q_ReadJournalMode d h) st of
           (Inl e, st) \<Rightarrow> (Some (Errorf ''sqlite: read journal_mode: %w'' [] [e]), st)
         | (Inr got, (w, s)) \<Rightarrow>
             if to_upper got = to_upper want then (None, (w, s))
             else if sqlite_inMemory (sc_cfg c)
               then (None, (add_log Debug ''sqlite: in-memory database uses memory journal'' w, s))
             else (Some (Errorf ''sqlite: journal_mode is %q but %q was requested; WAL is unavailable on this filesystem (network mounts do not support it)''
                     [AStr got, AStr want] []), (w, s)))"

text \<open>\<open>Start\<close> once the directory is there: opening, pinging, verifying.\<close>

definition sqlite_open_verified :: "'s sql_driver \<Rightarrow> sqlite_comp \<Rightarrow> 's st \<Rightarrow> handle result \<times> 's st" where
  "sqlite_open_verified d c st =
     (case call (q_Open d (sqlite_dsn (sc_cfg c))) st of
        (Inl e, st) \<Rightarrow> (Inl (Errorf ''sqlite: open %q: %w'' [AStr (sqlite_path (sc_cfg c))] [e]), st)
      | (Inr h, (w, s)) \<Rightarrow>
          (let s = q_SetMaxOpenConns d h (sqlite_maxOpenConns (sc_cfg c)) s
           in case call (q_Ping d h) (w, s) of
             (Some e, st) \<Rightarrow>
               (Inl (Errorf ''sqlite: ping %q: %w'' [AStr (sqlite_path (sc_cfg c))] [e]), snd (call (q_Close d h) st))
           | (None, st) \<Rightarrow>
               (case sqlite_verifyJournalMode d c h st of
                  (Some e, st) \<Rightarrow> (Inl e, snd (call (q_Close d h) st))
                | (None, st) \<Rightarrow> (Inr h, st))))"

definition sqlite_connect :: "'s sql_driver \<Rightarrow> sqlite_comp \<Rightarrow> 's st \<Rightarrow> handle result \<times> 's st" where
  "sqlite_connect d c st =
     (let cfg = sc_cfg c; dir = path_dir (sqlite_path cfg);
          (err, st) = (if \<not> sqlite_inMemory cfg \<and> dir \<noteq> '''' \<and> dir \<noteq> ''.''
                       then call (q_MkdirAll d dir) st else (None, st))
      in case err of
           Some e \<Rightarrow> (Inl (Errorf ''sqlite: create data directory %q: %w'' [AStr dir] [e]), st)
         | None \<Rightarrow> sqlite_open_verified d c st)"

definition sqlite_Start ::
  "'s sql_driver \<Rightarrow> chan \<Rightarrow> sqlite_comp \<Rightarrow> 's st \<Rightarrow> goerr option \<times> bool \<times> sqlite_comp \<times> 's st" where
  "sqlite_Start d ch c st =
     (let c = sqlite_begin ch c
      in case sqlite_connect d c st of
           (Inl e, st) \<Rightarrow> (Some e, False, c, st)
         | (Inr h, (w, s)) \<Rightarrow> (None, True, sqlite_publish h c, (add_log Info ''sqlite: ready'' w, s)))"

definition sqlite_Stop ::
  "'s sql_driver \<Rightarrow> chan \<Rightarrow> bool \<Rightarrow> sqlite_comp \<Rightarrow> chan set \<Rightarrow> 's st \<Rightarrow> sqlite_comp \<times> chan set \<times> 's st" where
  "sqlite_Stop d fresh expired c cl st =
     (let ch = sc_stopCh c; db = sc_db c;
          c = sqlite_swap fresh c; cl = insert fresh cl; cl = (if ch \<in> cl then cl else insert ch cl)
      in case db of
           None \<Rightarrow> (c, cl, st)
         | Some h \<Rightarrow>
             (case call (q_Close d h) st of (err, (w, s)) \<Rightarrow>
                let w = (if expired then add_log Warn ''sqlite: close timed out during shutdown'' w else w);
                    w = (if err \<noteq> None then add_log Error ''sqlite: close failed'' w else w)
                in (c, cl, (w, s))))"

definition sqlite_ErrNotReady :: goerr where
  "sqlite_ErrNotReady = Sentinel ''sqlite: not initialised (component not started)''"

definition sql_ErrNoRows :: goerr where "sql_ErrNoRows = Sentinel ''sql: no rows in result set''"

definition sql_ErrTxDone :: goerr where
  "sql_ErrTxDone = Sentinel ''sql: transaction has already been committed or rolled back''"

definition sqlite_Health :: "'s sql_driver \<Rightarrow> sqlite_comp \<Rightarrow> 's \<Rightarrow> goerr option \<times> 's" where
  "sqlite_Health d c s =
     (case sqlite_getDB c of
        None \<Rightarrow> (Some (Errorf ''sqlite: not initialised'' [] []), s)
      | Some h \<Rightarrow>
          (case q_SelectOne d h s of
             (Inl e, s) \<Rightarrow> (Some (Errorf ''sqlite: health query: %w'' [] [e]), s)
           | (Inr one, s) \<Rightarrow>
               (if one \<noteq> 1 then Some (Errorf ''sqlite: health query returned %d, want 1'' [AInt one] [])
                else None, s)))"

section \<open>The DB operations\<close>

definition sqlite_record ::
  "sqlite_comp \<Rightarrow> string \<Rightarrow> duration \<Rightarrow> goerr option \<Rightarrow> world \<Rightarrow> world" where
  "sqlite_record c = record_op ''sqlite'' (sqlite_onOperation (sc_cfg c))"

definition sqlite_observe ::
  "sqlite_comp \<Rightarrow> 'a \<Rightarrow> string \<Rightarrow> duration \<Rightarrow> (handle \<Rightarrow> ('s, 'a) op) \<Rightarrow> ('s, 'a) op" where
  "sqlite_observe c zero =
     observe_handle ''sqlite'' sqlite_ErrNotReady (sqlite_onOperation (sc_cfg c)) (sqlite_getDB c) zero"

definition sqlite_observeErr ::
  "sqlite_comp \<Rightarrow> string \<Rightarrow> duration \<Rightarrow> (handle \<Rightarrow> 's st \<Rightarrow> goerr option \<times> 's st) \<Rightarrow> ('s, unit) op" where
  "sqlite_observeErr c op el fn =
     sqlite_observe c () op el (\<lambda>h st. case fn h st of (e, st') \<Rightarrow> (((), e), st'))"

definition sqlite_observeTx ::
  "sqlite_comp \<Rightarrow> string \<Rightarrow> duration \<Rightarrow> ('s st \<Rightarrow> goerr option \<times> 's st) \<Rightarrow> ('s, unit) op" where
  "sqlite_observeTx c op el fn =
     observe_plain ''sqlite'' (sqlite_onOperation (sc_cfg c)) op el
       (\<lambda>st. case fn st of (e, st') \<Rightarrow> (((), e), st'))"

definition sqlite_Select :: "'s sql_driver \<Rightarrow> sqlite_comp \<Rightarrow> query \<Rightarrow> duration \<Rightarrow> ('s, unit) op" where
  "sqlite_Select d c q el =
     sqlite_observeErr c ''sqlite.select'' el (\<lambda>h st. case call (q_Select d h q) st of
       (err, st) \<Rightarrow> (map_option (\<lambda>e. Errorf ''sqlite select: %w'' [] [e]) err, st))"

definition sqlite_Get :: "'s sql_driver \<Rightarrow> sqlite_comp \<Rightarrow> query \<Rightarrow> duration \<Rightarrow> ('s, unit) op" where
  "sqlite_Get d c q el =
     sqlite_observeErr c ''sqlite.get'' el (\<lambda>h st. case call (q_Get d h q) st of
       (err, st) \<Rightarrow>
         (map_option (\<lambda>e. if q_NotFound d e then Errorf ''sqlite get: %w'' [] [sql_ErrNoRows]
                          else Errorf ''sqlite get: %w'' [] [e]) err, st))"

definition sqlite_Exec :: "'s sql_driver \<Rightarrow> sqlite_comp \<Rightarrow> query \<Rightarrow> duration \<Rightarrow> ('s, nat option) op" where
  "sqlite_Exec d c q el =
     sqlite_observe c None ''sqlite.exec'' el (\<lambda>h st.
       apfst (\<lambda>r. wrapped ''sqlite exec: %w'' [] None (map_sum id Some r)) (call (q_Exec d h q) st))"

definition sqlite_BeginTx :: "'s sql_driver \<Rightarrow> sqlite_comp \<Rightarrow> nat \<Rightarrow> duration \<Rightarrow> ('s, handle option) op" where
  "sqlite_BeginTx d c opts el =
     sqlite_observe c None ''sqlite.begin_tx'' el (\<lambda>h st.
       apfst (\<lambda>r. wrapped ''sqlite begin tx: %w'' [] None (map_sum id Some r)) (call (q_BeginTx d h opts) st))"

definition sqlite_finalise :: "'s sql_driver \<Rightarrow> handle \<Rightarrow> goerr option \<Rightarrow> 's st \<Rightarrow> goerr option \<times> 's st" where
  "sqlite_finalise d tx inErr st =
     (case inErr of
        Some e \<Rightarrow>
          (case call (q_Rollback d tx) st of (rbErr, (w, s)) \<Rightarrow>
             (case rbErr of
                Some rb \<Rightarrow>
                  if \<not> errors_is rb sql_ErrTxDone
                  then (Some (Errorf ''sqlite rollback (%w) after: %w'' [] [rb, e]),
                        (add_log Error ''sqlite: rollback failed'' w, s))
                  else (Some e, (w, s))
              | None \<Rightarrow> (Some e, (w, s))))
      | None \<Rightarrow>
          (case call (q_Commit d tx) st of (err, st) \<Rightarrow>
             (map_option (\<lambda>x. Errorf ''sqlite commit: %w'' [] [x]) err, st)))"

definition sqlite_CommitTx ::
  "'s sql_driver \<Rightarrow> sqlite_comp \<Rightarrow> handle \<Rightarrow> goerr option \<Rightarrow> duration \<Rightarrow> ('s, unit) op" where
  "sqlite_CommitTx d c tx inErr el =
     sqlite_observeTx c ''sqlite.commit_tx'' el (sqlite_finalise d tx inErr)"

section \<open>The lifecycle\<close>

definition sqlite_ops :: "sqlite_comp lc_ops" where
  "sqlite_ops = \<lparr>op_stop_ch = sc_stopCh, op_handle = sqlite_getDB, op_begin = sqlite_begin,
                 op_publish = sqlite_publish, op_swap = sqlite_swap\<rparr>"

lemma sqlite_New_sel [simp]:
  "sc_stopCh (sqlite_New cfg (map sqlite_WithName names)) = 0"
  "sc_db (sqlite_New cfg (map sqlite_WithName names)) = None"
  "sc_cfg (sqlite_New cfg (map sqlite_WithName names)) = cfg"
  by (simp_all add: sqlite_New_def sqlite_WithName_def
      fold_options [of sc_stopCh sqlite_WithName]
      fold_options [of sc_db sqlite_WithName]
      fold_options [of sc_cfg sqlite_WithName])

lemmas sqlite_sections = sqlite_ops_def sqlite_begin_def sqlite_publish_def sqlite_swap_def sqlite_getDB_def

interpretation sqlite_lc: lifecycle sqlite_ops "sqlite_New cfg (map sqlite_WithName names)" for cfg names
  by unfold_locales (simp_all add: sqlite_sections)

interpretation sqlite_health: health_checked sqlite_ops "sqlite_New cfg (map sqlite_WithName names)"
    "\<lambda>c. sc_cfg c = cfg" "\<lambda>c s. fst (sqlite_Health d c s)" for cfg names d
  by unfold_locales (simp_all add: sqlite_sections sqlite_Health_def)

text \<open>What \<open>verifyJournalMode\<close> read, and what it makes of it.\<close>

lemma verify_cases:
  assumes "sqlite_verifyJournalMode d c h (w, s) = (v, (w', s'))"
  shows "\<exists>r. q_ReadJournalMode d h s = (r, s') \<and>
    (case r of
       Inl e \<Rightarrow> v = Some (Errorf ''sqlite: read journal_mode: %w'' [] [e])
     | Inr got \<Rightarrow> v = None \<longleftrightarrow>
         to_upper got = to_upper (sqlite_journalMode (sc_cfg c)) \<or> sqlite_inMemory (sc_cfg c))"
proof -
  obtain r s1 where read: "q_ReadJournalMode d h s = (r, s1)" by (metis surj_pair)
  with assms show ?thesis
    by (cases r) (auto simp: sqlite_verifyJournalMode_def Let_def split: if_splits)
qed

text \<open>
  The database that \<open>Open\<close> returned was refused: by the ping, by the reading of its journal mode, or
  for the journal mode that was read.
\<close>

definition refused :: "'s sql_driver \<Rightarrow> sqlite_config \<Rightarrow> handle \<Rightarrow> 's \<Rightarrow> goerr \<Rightarrow> 's \<Rightarrow> bool" where
  "refused d cfg h s err s' \<longleftrightarrow>
     (case q_Ping d h (q_SetMaxOpenConns d h (sqlite_maxOpenConns cfg) s) of
        (Some e, s1) \<Rightarrow> errors_is err e \<and> s1 = s'
      | (None, s1) \<Rightarrow>
          (case q_ReadJournalMode d h s1 of
             (Inl e, s2) \<Rightarrow> errors_is err e \<and> s2 = s'
           | (Inr got, s2) \<Rightarrow> s2 = s' \<and> \<not> sqlite_inMemory cfg \<and>
               to_upper got \<noteq> to_upper (sqlite_journalMode cfg)))"

definition accepted :: "'s sql_driver \<Rightarrow> sqlite_config \<Rightarrow> handle \<Rightarrow> 's \<Rightarrow> 's \<Rightarrow> bool" where
  "accepted d cfg h s s' \<longleftrightarrow>
     (\<exists>s1 got. q_Ping d h (q_SetMaxOpenConns d h (sqlite_maxOpenConns cfg) s) = (None, s1) \<and>
        q_ReadJournalMode d h s1 = (Inr got, s') \<and>
        (to_upper got = to_upper (sqlite_journalMode cfg) \<or> sqlite_inMemory cfg))"

lemma open_cases:
  assumes "sqlite_open_verified d c (w, s) = (r, (w', s'))"
  shows "case q_Open d (sqlite_dsn (sc_cfg c)) s of
      (Inl x, s1) \<Rightarrow> s' = s1 \<and> (\<exists>err. r = Inl err \<and> errors_is err x)
    | (Inr h, s1) \<Rightarrow>
        (case r of
           Inl err \<Rightarrow> \<exists>s2. refused d (sc_cfg c) h s1 err s2 \<and> s' = snd (q_Close d h s2)
         | Inr h' \<Rightarrow> h' = h \<and> accepted d (sc_cfg c) h s1 s')"
proof -
  obtain o1 s1 where opened: "q_Open d (sqlite_dsn (sc_cfg c)) s = (o1, s1)" by (metis surj_pair)
  show ?thesis
  proof (cases o1)
    case (Inl x)
    with opened assms show ?thesis by (auto simp: sqlite_open_verified_def)
  next
    case (Inr h)
    obtain p s2 where ping: "q_Ping d h (q_SetMaxOpenConns d h (sqlite_maxOpenConns (sc_cfg c)) s1) = (p, s2)"
      by (metis surj_pair)
    obtain v w3 s3 where ver: "sqlite_verifyJournalMode d c h (w, s2) = (v, (w3, s3))"
      by (metis surj_pair)
    have r: "(r, s') = (case p of
        Some e \<Rightarrow> (Inl (Errorf ''sqlite: ping %q: %w'' [AStr (sqlite_path (sc_cfg c))] [e]), snd (q_Close d h s2))
      | None \<Rightarrow> (case v of Some e \<Rightarrow> (Inl e, snd (q_Close d h s3)) | None \<Rightarrow> (Inr h, s3)))"
      using assms opened Inr ping ver
      by (auto simp: sqlite_open_verified_def call_def Let_def split_beta split: option.splits)
    from verify_cases [OF ver] obtain got where "q_ReadJournalMode d h s2 = (got, s3)"
      "case got of Inl e \<Rightarrow> v = Some (Errorf ''sqlite: read journal_mode: %w'' [] [e])
       | Inr got \<Rightarrow> v = None \<longleftrightarrow>
           to_upper got = to_upper (sqlite_journalMode (sc_cfg c)) \<or> sqlite_inMemory (sc_cfg c)"
      by blast
    with opened Inr ping r show ?thesis
      by (cases p; cases v; cases got) (auto simp: refused_def accepted_def)
  qed
qed

text \<open>The state of the driver when the database is opened: after the data directory has been made.\<close>

definition with_directory :: "'s sql_driver \<Rightarrow> sqlite_config \<Rightarrow> 's \<Rightarrow> goerr option \<times> 's" where
  "with_directory d cfg s =
     (let dir = path_dir (sqlite_path cfg)
      in if \<not> sqlite_inMemory cfg \<and> dir \<noteq> '''' \<and> dir \<noteq> ''.'' then q_MkdirAll d dir s else (None, s))"

lemma connect_directory:
  "sqlite_connect d c (w, s) =
     (case with_directory d (sc_cfg c) s of
        (Some e, s1) \<Rightarrow>
          (Inl (Errorf ''sqlite: create data directory %q: %w'' [AStr (path_dir (sqlite_path (sc_cfg c)))] [e]), (w, s1))
      | (None, s1) \<Rightarrow> sqlite_open_verified d c (w, s1))"
  by (simp add: sqlite_connect_def with_directory_def call_def Let_def split_beta split: option.split)

section \<open>Properties\<close>

text \<open>
  C23. For a path without a question mark every pooled connection gets the four pragmas: the
  query part of the connection string decodes to exactly these, in order, whatever characters
  the journal and synchronous modes contain; and the pool has at least one connection, exactly
  one when the database is in memory. A path with a query of its own loses the first pragma: see
  \<open>sqlite_query_path\<close>.
\<close>
theorem sqlite_dsn_pragmas:
  assumes "CHR ''?'' \<notin> set (sqlite_path c)"
  shows "parse_query (snd (cut CHR ''?'' (sqlite_dsn c))) = map (Pair ''_pragma'') (sqlite_pragmas c) \<and>
    sqlite_maxOpenConns c \<ge> 1 \<and> (if sqlite_inMemory c then sqlite_maxOpenConns c = 1 else True)"
proof -
  have "sqlite_dsn c = (''file:'' @ sqlite_path c) @ CHR ''?'' # encode_values ''_pragma'' (sqlite_pragmas c)"
    by (simp add: sqlite_dsn_def)
  moreover have "CHR ''?'' \<notin> set (''file:'' @ sqlite_path c)" using assms by simp
  ultimately have "snd (cut CHR ''?'' (sqlite_dsn c)) = encode_values ''_pragma'' (sqlite_pragmas c)"
    by (metis cut_sep snd_conv)
  then show ?thesis by (simp add: parse_query_encode sqlite_maxOpenConns_def)
qed

definition sqlite_cfg0 :: sqlite_config where
  "sqlite_cfg0 = \<lparr>sq_Path = ''data/app.db'', sq_BusyTimeout = 0, sq_JournalMode = '''', sq_Synchronous = '''',
     sq_DisableForeignKeys = False, sq_MaxOpenConns = 4, sq_ConnectTimeout = 0, sq_OnOperation = None\<rparr>"

theorem sqlite_dsn_pragmas_witness:
  "parse_query (snd (cut CHR ''?'' (sqlite_dsn sqlite_cfg0))) =
     [(''_pragma'', ''busy_timeout(5000)''), (''_pragma'', ''journal_mode(WAL)''),
      (''_pragma'', ''synchronous(NORMAL)''), (''_pragma'', ''foreign_keys(on)'')]"
proof -
  have "CHR ''?'' \<notin> set (sqlite_path sqlite_cfg0)" by (simp add: sqlite_path_def sqlite_cfg0_def)
  moreover have "show_int 5000 = ''5000''"
    by (simp add: show_int_def show_nat.simps digit_def)
  ultimately show ?thesis
    using sqlite_dsn_pragmas [of sqlite_cfg0]
    by (simp add: sqlite_pragmas_def sqlite_cfg0_def sqlite_busyTimeout_def milliseconds_def
        sqlite_journalMode_def sqlite_synchronous_def sqlite_foreignKeys_def)
qed

text \<open>
  A path that has a query of its own swallows the first pragma: with a path ending in
  \<open>?mode=memory\<close>, which \<open>inMemory\<close> recognises, \<open>busy_timeout\<close> is not set and becomes part of the
  value of \<open>mode\<close>.
\<close>
theorem sqlite_query_path:
  assumes "CHR ''?'' \<notin> set f" and "sq_Path c = f @ ''?mode=memory''"
  shows "sqlite_inMemory c \<and>
    parse_query (snd (cut CHR ''?'' (sqlite_dsn c))) =
      (''mode'', ''memory?_pragma='' @ hd (sqlite_pragmas c)) # map (Pair ''_pragma'') (tl (sqlite_pragmas c))"
proof -
  obtain p q rest where prag: "sqlite_pragmas c = p # q # rest"
    by (simp add: sqlite_pragmas_def)
  have path: "sqlite_path c = f @ ''?mode=memory''"
    using assms(2) by (simp add: sqlite_path_def)
  then have mem: "sqlite_inMemory c"
    by (simp add: sqlite_inMemory_def contains_iff) (metis append.assoc append_Cons append_Nil append_Nil2)
  let ?one = "''mode=memory?_pragma='' @ escape EncQuery p"
  have dsn: "sqlite_dsn c = (''file:'' @ f) @ CHR ''?'' # ?one @ CHR ''&'' #
      encode_values ''_pragma'' (q # rest)"
  proof -
    have "escape EncQuery ''_pragma'' = ''_pragma''"
      by (rule escape_id) (simp add: should_escape_def is_alnum_def)
    then show ?thesis by (simp add: sqlite_dsn_def path prag)
  qed
  have "CHR ''?'' \<notin> set (''file:'' @ f)" using assms(1) by simp
  with dsn have query: "snd (cut CHR ''?'' (sqlite_dsn c)) = ?one @ CHR ''&'' # encode_values ''_pragma'' (q # rest)"
    by (metis cut_sep snd_conv)
  have "CHR ''&'' \<notin> set ?one" using query_clean(1) [of p] by simp
  then have head: "cut CHR ''&'' (?one @ CHR ''&'' # encode_values ''_pragma'' (q # rest)) =
      (?one, encode_values ''_pragma'' (q # rest))" by (rule cut_sep)
  have "parse_pair ?one = [(''mode'', ''memory?_pragma='' @ p)]"
  proof -
    have "unescape EncQuery (''memory?_pragma='' @ escape EncQuery p) = Some (''memory?_pragma='' @ p)"
      by simp
    moreover have "cut CHR ''='' ?one = (''mode'', ''memory?_pragma='' @ escape EncQuery p)"
      using cut_sep [of "CHR ''=''" "''mode''" "''memory?_pragma='' @ escape EncQuery p"] by simp
    moreover have "CHR '';'' \<notin> set ?one" using query_clean(3) [of p] by simp
    ultimately show ?thesis by (simp add: parse_pair_def)
  qed
  then have "parse_query (?one @ CHR ''&'' # encode_values ''_pragma'' (q # rest)) =
      (''mode'', ''memory?_pragma='' @ p) # parse_query (encode_values ''_pragma'' (q # rest))"
    by (subst parse_query.simps) (simp add: head [simplified])
  then show ?thesis using mem by (simp add: query prag parse_query_encode)
qed

theorem sqlite_query_path_witness:
  "(''mode'', ''memory?_pragma=busy_timeout(5000)'') \<in>
     set (parse_query (snd (cut CHR ''?'' (sqlite_dsn (sqlite_cfg0\<lparr>sq_Path := ''x?mode=memory''\<rparr>)))))"
proof -
  have "show_int 5000 = ''5000''"
    by (simp add: show_int_def show_nat.simps digit_def)
  then have "hd (sqlite_pragmas (sqlite_cfg0\<lparr>sq_Path := ''x?mode=memory''\<rparr>)) = ''busy_timeout(5000)''"
    by (simp add: sqlite_pragmas_def sqlite_cfg0_def sqlite_busyTimeout_def milliseconds_def)
  with sqlite_query_path [of "''x''" "sqlite_cfg0\<lparr>sq_Path := ''x?mode=memory''\<rparr>"] show ?thesis by simp
qed

text \<open>
  C27. \<open>Start\<close> is ready exactly when it succeeds: the directory was made where the path needs one,
  and the database it then opened under the connection string answered the ping and has the
  configured journal mode, or is in memory; it is that database which is published. A \<open>Start\<close> that
  fails publishes nothing: it never opened a database, or it closed the very database it had
  opened, and its error wraps the one that made it fail.
\<close>
theorem sqlite_start_outcome:
  "case sqlite_Start d ch c (w, s) of (err, rdy, c', (w', s')) \<Rightarrow>
     (rdy \<longleftrightarrow> err = None) \<and> sc_stopCh c' = ch \<and>
     (case with_directory d (sc_cfg c) s of
        (Some e, s1) \<Rightarrow> s' = s1 \<and> (\<exists>x. err = Some x \<and> errors_is x e) \<and> sqlite_getDB c' = sqlite_getDB c
      | (None, s1) \<Rightarrow>
          (case q_Open d (sqlite_dsn (sc_cfg c)) s1 of
             (Inl e, s2) \<Rightarrow> s' = s2 \<and> (\<exists>x. err = Some x \<and> errors_is x e) \<and> sqlite_getDB c' = sqlite_getDB c
           | (Inr h, s2) \<Rightarrow>
               (case err of
                  None \<Rightarrow> sqlite_getDB c' = Some h \<and> accepted d (sc_cfg c) h s2 s'
                | Some x \<Rightarrow> sqlite_getDB c' = sqlite_getDB c \<and>
                    (\<exists>s3. refused d (sc_cfg c) h s2 x s3 \<and> s' = snd (q_Close d h s3)))))"
proof -
  let ?c = "sqlite_begin ch c"
  have sel: "sc_cfg ?c = sc_cfg c" "sc_stopCh ?c = ch" "sqlite_getDB ?c = sqlite_getDB c"
    "sc_stopCh (sqlite_publish h ?c) = ch" "sqlite_getDB (sqlite_publish h x) = Some h" for h x
    by (simp_all add: sqlite_begin_def sqlite_getDB_def sqlite_publish_def)
  obtain m s1 where dir: "with_directory d (sc_cfg c) s = (m, s1)" by (metis surj_pair)
  show ?thesis
  proof (cases m)
    case (Some e)
    with dir show ?thesis by (simp add: sqlite_Start_def connect_directory sel)
  next
    case None
    obtain r w' s' where con: "sqlite_open_verified d ?c (w, s1) = (r, (w', s'))" by (metis surj_pair)
    obtain o1 s2 where opened: "q_Open d (sqlite_dsn (sc_cfg c)) s1 = (o1, s2)" by (metis surj_pair)
    from open_cases [OF con] opened dir None con show ?thesis
      by (cases o1; cases r) (auto simp: sqlite_Start_def connect_directory sel)
  qed
qed

end
