(* ===== verification/Postgresql.thy ===== *)
theory Postgresql
  imports Observe Lifecycle Net_Url
begin

text \<open>
  The postgresql module: \<open>Config\<close> and its connection string, \<open>Start\<close>, \<open>Stop\<close>, \<open>Health\<close>, the
  pool options, and the five operations of the \<open>DB\<close> interface. pgx, pgxpool and pgxscan are a
  parameter, the record \<open>pgx_driver\<close>.
\<close>

section \<open>Configuration\<close>

record pg_config =
  pg_Host :: string
  pg_Port :: int
  pg_Name :: string
  pg_User :: string
  pg_Pass :: string
  pg_SSLMode :: string
  pg_URI :: string
  pg_ConnectTimeout :: duration
  pg_MaxConns :: int
  pg_MinConns :: int
  pg_OnOperation :: "sink option"

definition pg_onOperation :: "pg_config \<Rightarrow> sink option" where
  "pg_onOperation c = pg_OnOperation c"

definition pg_dsn :: "pg_config \<Rightarrow> string" where
  "pg_dsn c =
     (if pg_URI c \<noteq> '''' then pg_URI c
      else (let host = (if pg_Host c = '''' then ''localhost'' else pg_Host c);
                port = (if pg_Port c = 0 then 5432 else pg_Port c);
                name = (if pg_Name c = '''' then ''postgres'' else pg_Name c);
                user = (if pg_User c = '''' then ''postgres'' else pg_User c);
                ssl = (if pg_SSLMode c = '''' then ''disable'' else pg_SSLMode c)
            in url_string ''postgres'' user (pg_Pass c) (host_port host port) name (''sslmode='' @ ssl)))"

definition pg_connectTimeout :: "pg_config \<Rightarrow> duration" where
  "pg_connectTimeout c = (if pg_ConnectTimeout c > 0 then pg_ConnectTimeout c else 10 * second)"

section \<open>The component\<close>

record pool_config =
  po_MaxConns :: int
  po_MinConns :: int
  po_Other :: "(string \<times> int) list"

record pg_comp =
  pg_cfg :: pg_config
  pg_name :: string
  pg_opts :: "(pool_config \<Rightarrow> pool_config) list"
  pg_pool :: "handle option"
  pg_stopCh :: chan

definition pg_New :: "pg_config \<Rightarrow> (pg_comp \<Rightarrow> pg_comp) list \<Rightarrow> pg_comp" where
  "pg_New cfg opts =
     fold (\<lambda>opt c. opt c) opts
       \<lparr>pg_cfg = cfg, pg_name = ''postgresql'', pg_opts = [], pg_pool = None, pg_stopCh = 0\<rparr>"

definition pg_WithName :: "string \<Rightarrow> pg_comp \<Rightarrow> pg_comp" where
  "pg_WithName name c = c\<lparr>pg_name := name\<rparr>"

definition pg_compName :: "pg_comp \<Rightarrow> string" where "pg_compName c = pg_name c"

definition pg_getPool :: "pg_comp \<Rightarrow> handle option" where "pg_getPool c = pg_pool c"
definition pg_Pool :: "pg_comp \<Rightarrow> handle option" where "pg_Pool c = pg_getPool c"

definition pg_AddOption :: "(pool_config \<Rightarrow> pool_config) \<Rightarrow> pg_comp \<Rightarrow> pg_comp" where
  "pg_AddOption opt c = c\<lparr>pg_opts := pg_opts c @ [opt]\<rparr>"

definition pg_driverOptions :: "pg_comp \<Rightarrow> (pool_config \<Rightarrow> pool_config) list" where
  "pg_driverOptions c = pg_opts c"

type_synonym pg_query = "string \<times> nat list"

record 's pgx_driver =
  p_ParseConfig :: "string \<Rightarrow> pool_config result"
  p_New :: "pool_config \<Rightarrow> 's \<Rightarrow> handle result \<times> 's"
  p_Ping :: "handle \<Rightarrow> 's \<Rightarrow> goerr option \<times> 's"
  p_Close :: "handle \<Rightarrow> 's \<Rightarrow> 's"
  p_Select :: "handle \<Rightarrow> pg_query \<Rightarrow> 's \<Rightarrow> goerr option \<times> 's"
  p_Get :: "handle \<Rightarrow> pg_query \<Rightarrow> 's \<Rightarrow> goerr option \<times> 's"
  p_Exec :: "handle \<Rightarrow> pg_query \<Rightarrow> 's \<Rightarrow> (string \<times> goerr option) \<times> 's"
  p_BeginTx :: "handle \<Rightarrow> nat \<Rightarrow> 's \<Rightarrow> handle result \<times> 's"
  p_Commit :: "handle \<Rightarrow> 's \<Rightarrow> goerr option \<times> 's"
  p_Rollback :: "handle \<Rightarrow> 's \<Rightarrow> goerr option \<times> 's"

definition pg_begin :: "chan \<Rightarrow> pg_comp \<Rightarrow> pg_comp" where
  "pg_begin ch c = c\<lparr>pg_stopCh := ch\<rparr>"

definition pg_publish :: "handle \<Rightarrow> pg_comp \<Rightarrow> pg_comp" where
  "pg_publish h c = c\<lparr>pg_pool := Some h\<rparr>"

definition pg_swap :: "chan \<Rightarrow> pg_comp \<Rightarrow> pg_comp" where
  "pg_swap ch c = c\<lparr>pg_stopCh := ch, pg_pool := None\<rparr>"

text \<open>The pool settings: the connection string, then \<open>Config\<close>, then the options in order.\<close>

definition pg_poolConfig :: "pg_comp \<Rightarrow> pool_config \<Rightarrow> pool_config" where
  "pg_poolConfig c parsed =
     (let cfg = pg_cfg c;
          p = (if pg_MaxConns cfg > 0 then parsed\<lparr>po_MaxConns := pg_MaxConns cfg\<rparr> else parsed);
          p = (if pg_MinConns cfg > 0 then p\<lparr>po_MinConns := pg_MinConns cfg\<rparr> else p)
      in fold (\<lambda>opt p. opt p) (pg_driverOptions c) p)"

definition pg_connect :: "'s pgx_driver \<Rightarrow> pg_comp \<Rightarrow> 's \<Rightarrow> handle result \<times> 's" where
  "pg_connect d c s =
     (case p_ParseConfig d (pg_dsn (pg_cfg c)) of
        Inl e \<Rightarrow> (Inl (Errorf ''postgres: invalid DSN: %w'' [] [e]), s)
      | Inr parsed \<Rightarrow>
          (case p_New d (pg_poolConfig c parsed) s of
             (Inl e, s) \<Rightarrow> (Inl (Errorf ''postgres: pool creation failed: %w'' [] [e]), s)
           | (Inr h, s) \<Rightarrow>
               (case p_Ping d h s of
                  (Some e, s) \<Rightarrow> (Inl (Errorf ''postgres: ping failed: %w'' [] [e]), p_Close d h s)
                | (None, s) \<Rightarrow> (Inr h, s))))"

definition pg_Start ::
  "'s pgx_driver \<Rightarrow> chan \<Rightarrow> pg_comp \<Rightarrow> 's st \<Rightarrow> goerr option \<times> bool \<times> pg_comp \<times> 's st" where
  "pg_Start d ch c st =
     (let c = pg_begin ch c
      in case pg_connect d c (snd st) of
           (Inl e, s) \<Rightarrow> (Some e, False, c, (fst st, s))
         | (Inr h, s) \<Rightarrow> (None, True, pg_publish h c, (add_log Info ''postgres: connected'' (fst st), s)))"

definition pg_Stop ::
  "'s pgx_driver \<Rightarrow> chan \<Rightarrow> bool \<Rightarrow> pg_comp \<Rightarrow> chan set \<Rightarrow> 's st \<Rightarrow> pg_comp \<times> chan set \<times> 's st" where
  "pg_Stop d fresh expired c cl st =
     (let ch = pg_stopCh c; pool = pg_pool c;
          c = pg_swap fresh c; cl = insert fresh cl; cl = (if ch \<in> cl then cl else insert ch cl)
      in case pool of
           None \<Rightarrow> (c, cl, st)
         | Some h \<Rightarrow>
             (c, cl, (if expired then add_log Warn ''postgres: pool close timed out during shutdown'' (fst st)
                      else fst st, p_Close d h (snd st))))"

definition pg_ErrNotReady :: goerr where
  "pg_ErrNotReady = Sentinel ''postgres: pool not initialised (component not started)''"

definition pg_ErrNoRows :: goerr where "pg_ErrNoRows = Sentinel ''no rows in result set''"

definition pg_Health :: "'s pgx_driver \<Rightarrow> pg_comp \<Rightarrow> 's \<Rightarrow> goerr option \<times> 's" where
  "pg_Health d c s =
     (case pg_getPool c of
        None \<Rightarrow> (Some (Errorf ''postgres: pool not initialised'' [] []), s)
      | Some h \<Rightarrow> p_Ping d h s)"

section \<open>The DB operations\<close>

definition pg_record :: "pg_comp \<Rightarrow> string \<Rightarrow> duration \<Rightarrow> goerr option \<Rightarrow> world \<Rightarrow> world" where
  "pg_record c = record_op ''postgres'' (pg_onOperation (pg_cfg c))"

definition pg_observe ::
  "pg_comp \<Rightarrow> 'a \<Rightarrow> string \<Rightarrow> duration \<Rightarrow> (handle \<Rightarrow> ('s, 'a) op) \<Rightarrow> ('s, 'a) op" where
  "pg_observe c zero =
     observe_handle ''postgres'' pg_ErrNotReady (pg_onOperation (pg_cfg c)) (pg_getPool c) zero"

definition pg_observeErr ::
  "pg_comp \<Rightarrow> string \<Rightarrow> duration \<Rightarrow> (handle \<Rightarrow> 's st \<Rightarrow> goerr option \<times> 's st) \<Rightarrow> ('s, unit) op" where
  "pg_observeErr c op el fn =
     pg_observe c () op el (\<lambda>h st. case fn h st of (e, st') \<Rightarrow> (((), e), st'))"

definition pg_observeTx ::
  "pg_comp \<Rightarrow> string \<Rightarrow> duration \<Rightarrow> ('s st \<Rightarrow> goerr option \<times> 's st) \<Rightarrow> ('s, unit) op" where
  "pg_observeTx c op el fn =
     observe_plain ''postgres'' (pg_onOperation (pg_cfg c)) op el
       (\<lambda>st. case fn st of (e, st') \<Rightarrow> (((), e), st'))"

definition pg_Select :: "'s pgx_driver \<Rightarrow> pg_comp \<Rightarrow> pg_query \<Rightarrow> duration \<Rightarrow> ('s, unit) op" where
  "pg_Select d c q el =
     pg_observeErr c ''postgres.select'' el (\<lambda>h st. case call (p_Select d h q) st of
       (err, st) \<Rightarrow> (map_option (\<lambda>e. Errorf ''postgres select: %w'' [] [e]) err, st))"

definition pg_Get :: "'s pgx_driver \<Rightarrow> pg_comp \<Rightarrow> pg_query \<Rightarrow> duration \<Rightarrow> ('s, unit) op" where
  "pg_Get d c q el =
     pg_observeErr c ''postgres.get'' el (\<lambda>h st. case call (p_Get d h q) st of
       (err, st) \<Rightarrow> (map_option (\<lambda>e. Errorf ''postgres get: %w'' [] [e]) err, st))"

definition pg_Exec :: "'s pgx_driver \<Rightarrow> pg_comp \<Rightarrow> pg_query \<Rightarrow> duration \<Rightarrow> ('s, string) op" where
  "pg_Exec d c q el =
     pg_observe c '''' ''postgres.exec'' el (\<lambda>h st. case call (p_Exec d h q) st of
       ((tag, err), st) \<Rightarrow> ((tag, map_option (\<lambda>e. Errorf ''postgres exec: %w'' [] [e]) err), st))"

definition pg_BeginTx :: "'s pgx_driver \<Rightarrow> pg_comp \<Rightarrow> nat \<Rightarrow> duration \<Rightarrow> ('s, handle option) op" where
  "pg_BeginTx d c opts el =
     pg_observe c None ''postgres.begin_tx'' el (\<lambda>h st.
       apfst (\<lambda>r. wrapped ''postgres begin tx: %w'' [] None (map_sum id Some r)) (call (p_BeginTx d h opts) st))"

definition pg_finalise :: "'s pgx_driver \<Rightarrow> handle \<Rightarrow> goerr option \<Rightarrow> 's st \<Rightarrow> goerr option \<times> 's st" where
  "pg_finalise d tx inErr st =
     (case inErr of
        Some e \<Rightarrow>
          (case call (p_Rollback d tx) st of (rbErr, (w, s)) \<Rightarrow>
             (case rbErr of
                Some rb \<Rightarrow>
                  (Some (Errorf ''postgres rollback (%w) after: %w'' [] [rb, e]),
                   (add_log Error ''postgres: rollback failed'' w, s))
              | None \<Rightarrow> (Some e, (w, s))))
      | None \<Rightarrow>
          (case call (p_Commit d tx) st of (err, st) \<Rightarrow>
             (map_option (\<lambda>x. Errorf ''postgres commit: %w'' [] [x]) err, st)))"

definition pg_CommitTx ::
  "'s pgx_driver \<Rightarrow> pg_comp \<Rightarrow> handle \<Rightarrow> goerr option \<Rightarrow> duration \<Rightarrow> ('s, unit) op" where
  "pg_CommitTx d c tx inErr el =
     pg_observeTx c ''postgres.commit_tx'' el (pg_finalise d tx inErr)"

section \<open>The lifecycle\<close>

definition pg_ops :: "pg_comp lc_ops" where
  "pg_ops = \<lparr>op_stop_ch = pg_stopCh, op_handle = pg_getPool, op_begin = pg_begin,
             op_publish = pg_publish, op_swap = pg_swap\<rparr>"

lemma pg_New_sel [simp]:
  "pg_stopCh (pg_New cfg (map pg_WithName names)) = 0"
  "pg_pool (pg_New cfg (map pg_WithName names)) = None"
  "pg_cfg (pg_New cfg (map pg_WithName names)) = cfg"
  by (simp_all add: pg_New_def pg_WithName_def
      fold_options [of pg_stopCh pg_WithName]
      fold_options [of pg_pool pg_WithName]
      fold_options [of pg_cfg pg_WithName])

lemmas pg_sections = pg_ops_def pg_begin_def pg_publish_def pg_swap_def pg_getPool_def

interpretation pg_lc: lifecycle pg_ops "pg_New cfg (map pg_WithName names)" for cfg names
  by unfold_locales (simp_all add: pg_sections)

interpretation pg_health: health_checked pg_ops "pg_New cfg (map pg_WithName names)"
    "\<lambda>c. pg_cfg c = cfg" "\<lambda>c s. fst (pg_Health d c s)" for cfg names d
  by unfold_locales (simp_all add: pg_sections pg_Health_def)

section \<open>Properties\<close>

text \<open>
  C24. The connection string keeps the credentials apart: with no \<open>URI\<close>, a host name of unreserved
  characters, a port that is not negative and an SSL mode without a number sign or control
  characters, parsing the string gives back the user and the password, whatever bytes they consist
  of, the host and the port, the SSL mode, and the database name as a path, with a slash put in
  front where the name has none.
\<close>
theorem pg_dsn_roundtrip:
  assumes "pg_URI c = ''''" and "host = (if pg_Host c = '''' then ''localhost'' else pg_Host c)"
    and "port = (if pg_Port c = 0 then 5432 else pg_Port c)" and "valid_host host" and "0 \<le> pg_Port c"
    and "CHR ''#'' \<notin> set (pg_SSLMode c)" and "\<not> has_ctl (pg_SSLMode c)"
  shows "url_parse (pg_dsn c) =
    Some (''postgres'', if pg_User c = '''' then ''postgres'' else pg_User c, pg_Pass c,
          host_port host port, rooted (if pg_Name c = '''' then ''postgres'' else pg_Name c),
          ''sslmode='' @ (if pg_SSLMode c = '''' then ''disable'' else pg_SSLMode c))"
proof -
  have "valid_scheme ''postgres''" "to_lower ''postgres'' = ''postgres''" "\<not> has_ctl ''postgres''"
    "\<not> has_ctl ''sslmode=''" "\<not> has_ctl ''disable''" by code_simp+
  with assms url_parse_string [of "''postgres''" "if pg_User c = '''' then ''postgres'' else pg_User c"
      host port "''sslmode='' @ (if pg_SSLMode c = '''' then ''disable'' else pg_SSLMode c)"]
  show ?thesis by (simp add: pg_dsn_def Let_def is_ctl_def)
qed

definition pg_cfg0 :: pg_config where
  "pg_cfg0 = \<lparr>pg_Host = '''', pg_Port = 0, pg_Name = ''orders'', pg_User = '''', pg_Pass = ''p@ss:/?#'',
     pg_SSLMode = '''', pg_URI = '''', pg_ConnectTimeout = 0, pg_MaxConns = 0, pg_MinConns = 0,
     pg_OnOperation = None\<rparr>"

theorem pg_dsn_roundtrip_witness:
  "url_parse (pg_dsn pg_cfg0) =
     Some (''postgres'', ''postgres'', ''p@ss:/?#'', ''localhost:5432'', ''/orders'', ''sslmode=disable'')"
proof -
  have hp: "host_port ''localhost'' 5432 = ''localhost:5432''"
    by (simp add: host_port_def show_int_def show_nat.simps digit_def)
  have "valid_host ''localhost''"
    by (simp add: valid_host_def should_escape_def is_alnum_def)
  with pg_dsn_roundtrip [of pg_cfg0 "''localhost''" 5432] hp show ?thesis
    by (simp add: pg_cfg0_def rooted_def)
qed

text \<open>
  \<open>Start\<close> signals ready exactly when it succeeds, and then holds the pool it pinged, which was
  made with the configured sizes and every added option applied last; a \<open>Start\<close> that fails
  publishes nothing, and a pool that did not answer the ping has been closed.
\<close>
theorem pg_start_outcome:
  "case pg_Start d ch c (w, s) of (err, rdy, c', (w', s')) \<Rightarrow>
     (rdy \<longleftrightarrow> err = None) \<and> pg_stopCh c' = ch \<and>
     (if err = None
      then \<exists>parsed h s1. p_ParseConfig d (pg_dsn (pg_cfg c)) = Inr parsed \<and>
        p_New d (pg_poolConfig c parsed) s = (Inr h, s1) \<and> p_Ping d h s1 = (None, s') \<and>
        pg_getPool c' = Some h
      else pg_getPool c' = pg_getPool c \<and>
        ((\<exists>e. p_ParseConfig d (pg_dsn (pg_cfg c)) = Inl e \<and> errors_is (the err) e \<and> s' = s) \<or>
         (\<exists>p e. p_New d p s = (Inl e, s') \<and> errors_is (the err) e) \<or>
         (\<exists>h s1 e s2. p_Ping d h s1 = (Some e, s2) \<and> errors_is (the err) e \<and> s' = p_Close d h s2)))"
proof -
  have same: "pg_poolConfig (pg_begin ch c) = pg_poolConfig c" "pg_cfg (pg_begin ch c) = pg_cfg c"
    by (simp_all add: fun_eq_iff pg_poolConfig_def pg_driverOptions_def pg_begin_def)
  show ?thesis
  proof (cases "p_ParseConfig d (pg_dsn (pg_cfg c))")
    case (Inl e)
    then show ?thesis
      by (simp add: pg_Start_def pg_connect_def same Let_def) (simp add: pg_begin_def pg_getPool_def)
  next
    case (Inr parsed)
    obtain r s1 where made: "p_New d (pg_poolConfig c parsed) s = (r, s1)" by (metis surj_pair)
    show ?thesis
    proof (cases r)
      case (Inl e)
      have "\<exists>p x. p_New d p s = (Inl x, s1) \<and> (x = y \<or> errors_is e x)" for y
        using made Inl errors_is_refl by blast
      with made Inl Inr show ?thesis
        by (simp add: pg_Start_def pg_connect_def same Let_def) (simp add: pg_begin_def pg_getPool_def)
    next
      case (Inr h)
      obtain pe s2 where ping: "p_Ping d h s1 = (pe, s2)" by (metis surj_pair)
      show ?thesis
      proof (cases pe)
        case None
        with made ping Inr \<open>p_ParseConfig d (pg_dsn (pg_cfg c)) = Inr parsed\<close> show ?thesis
          by (simp add: pg_Start_def pg_connect_def same Let_def)
            (simp add: pg_publish_def pg_begin_def pg_getPool_def)
      next
        case (Some e)
        have "\<exists>h' s1' x s2'. p_Ping d h' s1' = (Some x, s2') \<and> (x = y \<or> errors_is e x) \<and>
            p_Close d h s2 = p_Close d h' s2'" for y
          using ping Some errors_is_refl by blast
        with made ping Some Inr \<open>p_ParseConfig d (pg_dsn (pg_cfg c)) = Inr parsed\<close> show ?thesis
          by (simp add: pg_Start_def pg_connect_def same Let_def)
            (simp add: pg_begin_def pg_getPool_def)
      qed
    qed
  qed
qed

end
