(* ===== verification/S3.thy ===== *)
theory S3
  imports Observe Lifecycle Paging
begin

text \<open>
  The s3 module: \<open>Config\<close> and its bounds, the connectivity probe, \<open>Start\<close>, \<open>Stop\<close>, \<open>Health\<close>, the
  upload policy with the sniffing of the content type, and the other six operations of the
  \<open>Storage\<close> interface. The AWS client, presigner and transfer manager, and
  \<open>http.DetectContentType\<close>, are a parameter, the record \<open>s3_driver\<close>.
\<close>

section \<open>Configuration\<close>

record s3_config =
  s3_Endpoint :: string
  s3_Region :: string
  s3_KeyID :: string
  s3_Secret :: string
  s3_ConnectTimeout :: duration
  s3_PresignTTL :: duration
  s3_UploadPartSize :: int
  s3_UploadConcurrency :: int
  s3_HealthBucket :: string
  s3_PathStyleForcing :: bool
  s3_OnOperation :: "sink option"

definition s3_onOperation :: "s3_config \<Rightarrow> sink option" where
  "s3_onOperation c = s3_OnOperation c"

definition s3_connectTimeout :: "s3_config \<Rightarrow> duration" where
  "s3_connectTimeout c = (if s3_ConnectTimeout c > 0 then s3_ConnectTimeout c else 10 * second)"

definition s3_presignTTL :: "s3_config \<Rightarrow> duration" where
  "s3_presignTTL c = (if s3_PresignTTL c > 0 then s3_PresignTTL c else 15 * minute)"

definition minUploadPartSize :: int where "minUploadPartSize = 5 * 2 ^ 20"

definition s3_uploadPartSize :: "s3_config \<Rightarrow> int" where
  "s3_uploadPartSize c =
     (if s3_UploadPartSize c < minUploadPartSize
      then if s3_UploadPartSize c > 0 then minUploadPartSize else 8 * 2 ^ 20
      else s3_UploadPartSize c)"

definition s3_uploadConcurrency :: "s3_config \<Rightarrow> int" where
  "s3_uploadConcurrency c = (if s3_UploadConcurrency c > 0 then s3_UploadConcurrency c else 5)"

definition syntheticProbeBucket :: string where "syntheticProbeBucket = ''samsara-health-probe''"

definition s3_probeBucket :: "s3_config \<Rightarrow> string" where
  "s3_probeBucket c = (if s3_HealthBucket c \<noteq> '''' then s3_HealthBucket c else syntheticProbeBucket)"

section \<open>Data\<close>

text \<open>A body: the bytes it still yields, and the error it then reports (None is the end of file).\<close>

record reader =
  rd_bytes :: string
  rd_err :: "goerr option"

text \<open>A canned ACL value is a string; the empty one is unset.\<close>

type_synonym acl = string

definition ACLPrivate :: acl where "ACLPrivate = ''private''"
definition ACLPublicRead :: acl where "ACLPublicRead = ''public-read''"
definition ACLPublicReadWrite :: acl where "ACLPublicReadWrite = ''public-read-write''"
definition ACLAuthenticatedRead :: acl where "ACLAuthenticatedRead = ''authenticated-read''"
definition ACLBucketOwnerRead :: acl where "ACLBucketOwnerRead = ''bucket-owner-read''"
definition ACLBucketOwnerFullControl :: acl where
  "ACLBucketOwnerFullControl = ''bucket-owner-full-control''"

record upload_request =
  ur_Bucket :: string
  ur_Key :: string
  ur_Body :: "reader option"
  ur_ContentType :: string
  ur_ACL :: acl

record presign_request =
  pr_Bucket :: string
  pr_Key :: string
  pr_TTL :: duration
  pr_ContentType :: string
  pr_ContentLength :: int

record put_params =
  pp_Bucket :: string
  pp_Key :: string
  pp_Body :: reader
  pp_ContentType :: string
  pp_ACL :: acl

text \<open>One page of \<open>ListObjectsV2\<close>: object keys, \<open>IsTruncated\<close>, \<open>NextContinuationToken\<close>, each a pointer.\<close>

record list_page =
  lp_Keys :: "string option list"
  lp_IsTruncated :: "bool option"
  lp_Next :: "string option"

record s3_options =
  so_UsePathStyle :: bool
  so_BaseEndpoint :: "string option"
  so_Other :: "(string \<times> int) list"

record engine =
  en_client :: handle
  en_PartSizeBytes :: int
  en_Concurrency :: int
  en_MultipartUploadThreshold :: int

record 's s3_driver =
  s_LoadConfig :: "string \<Rightarrow> string \<times> string \<Rightarrow> 's \<Rightarrow> goerr option \<times> 's"
  s_NewFromConfig :: "s3_options \<Rightarrow> 's \<Rightarrow> handle \<times> 's"
  s_HeadBucket :: "handle \<Rightarrow> string \<Rightarrow> 's \<Rightarrow> goerr option \<times> 's"
  s_GetObject :: "handle \<Rightarrow> string \<Rightarrow> string \<Rightarrow> 's \<Rightarrow> reader result \<times> 's"
  s_DeleteObject :: "handle \<Rightarrow> string \<Rightarrow> string \<Rightarrow> 's \<Rightarrow> goerr option \<times> 's"
  s_DeleteObjects :: "handle \<Rightarrow> string \<Rightarrow> string list \<Rightarrow> 's \<Rightarrow> string list result \<times> 's"
  s_ListObjectsV2 :: "handle \<Rightarrow> string \<Rightarrow> string \<Rightarrow> string option \<Rightarrow> 's \<Rightarrow> list_page result \<times> 's"
  s_PresignGet :: "handle \<Rightarrow> string \<Rightarrow> string \<Rightarrow> duration \<Rightarrow> 's \<Rightarrow> string result \<times> 's"
  s_PresignPut :: "handle \<Rightarrow> string \<Rightarrow> string \<Rightarrow> string option \<Rightarrow> int option \<Rightarrow> duration \<Rightarrow> 's \<Rightarrow> string result \<times> 's"
  s_UploadObject :: "engine \<Rightarrow> put_params \<Rightarrow> 's \<Rightarrow> goerr option \<times> 's"
  http_DetectContentType :: "string \<Rightarrow> string"

section \<open>The component\<close>

record s3_comp =
  s3_cfg :: s3_config
  s3_name :: string
  s3_opts :: "(s3_options \<Rightarrow> s3_options) list"
  s3_client :: "handle option"
  s3_presigner :: "handle option"
  s3_engine :: "engine option"
  s3_stopCh :: chan

definition s3_New :: "s3_config \<Rightarrow> (s3_comp \<Rightarrow> s3_comp) list \<Rightarrow> s3_comp" where
  "s3_New cfg opts =
     fold (\<lambda>opt c. opt c) opts
       \<lparr>s3_cfg = cfg, s3_name = ''s3'', s3_opts = [], s3_client = None, s3_presigner = None,
        s3_engine = None, s3_stopCh = 0\<rparr>"

definition s3_WithName :: "string \<Rightarrow> s3_comp \<Rightarrow> s3_comp" where
  "s3_WithName name c = c\<lparr>s3_name := name\<rparr>"

definition s3_Name :: "s3_comp \<Rightarrow> string" where "s3_Name c = s3_name c"
definition s3_getClient :: "s3_comp \<Rightarrow> handle option" where "s3_getClient c = s3_client c"
definition s3_Client :: "s3_comp \<Rightarrow> handle option" where "s3_Client c = s3_getClient c"
definition s3_getEngine :: "s3_comp \<Rightarrow> engine option" where "s3_getEngine c = s3_engine c"
definition s3_getPresigner :: "s3_comp \<Rightarrow> handle option" where "s3_getPresigner c = s3_presigner c"

definition s3_AddOption :: "(s3_options \<Rightarrow> s3_options) \<Rightarrow> s3_comp \<Rightarrow> s3_comp" where
  "s3_AddOption opt c = c\<lparr>s3_opts := s3_opts c @ [opt]\<rparr>"

definition s3_driverOptions :: "s3_comp \<Rightarrow> (s3_options \<Rightarrow> s3_options) list" where
  "s3_driverOptions c = s3_opts c"

definition newTransferManagerEngine :: "handle \<Rightarrow> s3_config \<Rightarrow> engine" where
  "newTransferManagerEngine client cfg =
     (let partSize = s3_uploadPartSize cfg
      in \<lparr>en_client = client, en_PartSizeBytes = partSize, en_Concurrency = s3_uploadConcurrency cfg,
          en_MultipartUploadThreshold = partSize\<rparr>)"

definition s3_begin :: "chan \<Rightarrow> s3_comp \<Rightarrow> s3_comp" where
  "s3_begin ch c = c\<lparr>s3_stopCh := ch\<rparr>"

definition s3_publish :: "handle \<Rightarrow> s3_comp \<Rightarrow> s3_comp" where
  "s3_publish h c = c\<lparr>s3_client := Some h, s3_presigner := Some h,
     s3_engine := Some (newTransferManagerEngine h (s3_cfg c))\<rparr>"

definition s3_swap :: "chan \<Rightarrow> s3_comp \<Rightarrow> s3_comp" where
  "s3_swap ch c = c\<lparr>s3_stopCh := ch, s3_client := None, s3_presigner := None, s3_engine := None\<rparr>"

section \<open>Connectivity\<close>

definition s3_ErrNotReady :: goerr where "s3_ErrNotReady = Sentinel ''s3: client not initialised''"
definition ErrProbeForbidden :: goerr where
  "ErrProbeForbidden = Sentinel ''s3: health bucket access denied''"
definition ErrProbeBucketMissing :: goerr where
  "ErrProbeBucketMissing = Sentinel ''s3: health bucket not found''"

fun is_response_error :: "goerr \<Rightarrow> bool" where
  "is_response_error (HttpResponse n ws) = True"
| "is_response_error _ = False"

fun http_status :: "goerr \<Rightarrow> int" where
  "http_status (HttpResponse n ws) = n"
| "http_status _ = 0"

definition statusCode :: "goerr \<Rightarrow> int" where
  "statusCode err = (case errors_as is_response_error err of None \<Rightarrow> 0 | Some re \<Rightarrow> http_status re)"

definition isExpectedHealthError :: "goerr option \<Rightarrow> bool" where
  "isExpectedHealthError err =
     (case err of
        None \<Rightarrow> False
      | Some e \<Rightarrow>
          (case errors_as is_response_error e of
             None \<Rightarrow> False
           | Some re \<Rightarrow> (let code = http_status re in code = 404 \<or> code = 403)))"

definition verifyConnectivity ::
  "'s s3_driver \<Rightarrow> handle \<Rightarrow> string \<Rightarrow> bool \<Rightarrow> 's \<Rightarrow> goerr option \<times> 's" where
  "verifyConnectivity d client bucket strict s =
     (case s_HeadBucket d client bucket s of
        (None, s) \<Rightarrow> (None, s)
      | (Some err, s) \<Rightarrow>
          (if strict
           then (if statusCode err = 403 then Some (Errorf ''%w: %q: %w'' [AStr bucket] [ErrProbeForbidden, err])
                 else if statusCode err = 404
                   then Some (Errorf ''%w: %q: %w'' [AStr bucket] [ErrProbeBucketMissing, err])
                 else Some err)
           else if isExpectedHealthError (Some err) then None else Some err, s))"

definition s3_probe :: "'s s3_driver \<Rightarrow> s3_comp \<Rightarrow> handle \<Rightarrow> 's \<Rightarrow> goerr option \<times> 's" where
  "s3_probe d c client =
     verifyConnectivity d client (s3_probeBucket (s3_cfg c)) (s3_HealthBucket (s3_cfg c) \<noteq> '''')"

definition s3_clientOptions :: "s3_comp \<Rightarrow> s3_options" where
  "s3_clientOptions c =
     (let o1 = \<lparr>so_UsePathStyle = s3_PathStyleForcing (s3_cfg c), so_BaseEndpoint = None, so_Other = []\<rparr>;
          o2 = (if s3_Endpoint (s3_cfg c) \<noteq> ''''
                then o1\<lparr>so_BaseEndpoint := Some (s3_Endpoint (s3_cfg c))\<rparr> else o1)
      in fold (\<lambda>opt o'. opt o') (s3_driverOptions c) o2)"

definition s3_connect :: "'s s3_driver \<Rightarrow> s3_comp \<Rightarrow> 's \<Rightarrow> handle result \<times> 's" where
  "s3_connect d c s =
     (case s_LoadConfig d (s3_Region (s3_cfg c)) (s3_KeyID (s3_cfg c), s3_Secret (s3_cfg c)) s of
        (Some e, s) \<Rightarrow> (Inl (Errorf ''s3: load config: %w'' [] [e]), s)
      | (None, s) \<Rightarrow>
          (case s_NewFromConfig d (s3_clientOptions c) s of
             (client, s) \<Rightarrow>
               (case s3_probe d c client s of
                  (Some e, s) \<Rightarrow> (Inl (Errorf ''s3: connectivity check failed: %w'' [] [e]), s)
                | (None, s) \<Rightarrow> (Inr client, s))))"

definition s3_Start ::
  "'s s3_driver \<Rightarrow> chan \<Rightarrow> s3_comp \<Rightarrow> 's st \<Rightarrow> goerr option \<times> bool \<times> s3_comp \<times> 's st" where
  "s3_Start d ch c st =
     (let c = s3_begin ch c
      in case s3_connect d c (snd st) of
           (Inl e, s) \<Rightarrow> (Some e, False, c, (fst st, s))
         | (Inr h, s) \<Rightarrow> (None, True, s3_publish h c, (add_log Info ''s3: connected'' (fst st), s)))"

definition s3_Stop :: "chan \<Rightarrow> s3_comp \<Rightarrow> chan set \<Rightarrow> s3_comp \<times> chan set" where
  "s3_Stop fresh c cl =
     (let ch = s3_stopCh c; c = s3_swap fresh c; cl = insert fresh cl
      in (c, if ch \<in> cl then cl else insert ch cl))"

definition s3_Health :: "'s s3_driver \<Rightarrow> s3_comp \<Rightarrow> 's \<Rightarrow> goerr option \<times> 's" where
  "s3_Health d c s =
     (case s3_getClient c of None \<Rightarrow> (Some s3_ErrNotReady, s) | Some client \<Rightarrow> s3_probe d c client s)"

section \<open>Uploading\<close>

definition sniffLen :: nat where "sniffLen = 512"

text \<open>
  \<open>io.ReadFull\<close> into a buffer of \<open>n\<close> bytes: the bytes read, the reader left, and the error,
  where None is no error or one of the end-of-file errors that a short body gives.
\<close>

definition read_full :: "nat \<Rightarrow> reader \<Rightarrow> string \<times> reader \<times> goerr option" where
  "read_full n r =
     (take n (rd_bytes r), r\<lparr>rd_bytes := drop n (rd_bytes r)\<rparr>,
      if length (rd_bytes r) \<ge> n then None else rd_err r)"

definition io_ErrUnexpectedEOF :: goerr where "io_ErrUnexpectedEOF = Sentinel ''unexpected EOF''"

definition multi_reader :: "string \<Rightarrow> reader \<Rightarrow> reader" where
  "multi_reader head r = r\<lparr>rd_bytes := head @ rd_bytes r\<rparr>"

definition sniffContentType :: "'s s3_driver \<Rightarrow> string \<Rightarrow> reader \<Rightarrow> (string \<times> reader) result" where
  "sniffContentType d key body =
     (case read_full sniffLen body of (head, rest, err) \<Rightarrow>
        if err \<noteq> None \<and> err \<noteq> Some io_ErrUnexpectedEOF then Inl (the err)
        else (let ct = http_DetectContentType d head;
                  ct = (if suffix ''.svg'' (to_lower key) \<or> contains (to_lower head) ''<svg''
                        then ''image/svg+xml'' else ct)
              in Inr (ct, multi_reader head rest)))"

definition s3_upload :: "'s s3_driver \<Rightarrow> s3_comp \<Rightarrow> upload_request \<Rightarrow> 's \<Rightarrow> goerr option \<times> 's" where
  "s3_upload d c r s =
     (case s3_getEngine c of
        None \<Rightarrow> (Some s3_ErrNotReady, s)
      | Some engine \<Rightarrow>
          (if ur_Bucket r = '''' \<or> ur_Key r = ''''
           then (Some (Errorf ''s3 upload: bucket and key are required'' [] []), s)
           else case ur_Body r of
             None \<Rightarrow> (Some (Errorf ''s3 upload: body is required'' [] []), s)
           | Some body \<Rightarrow>
               (case (if ur_ContentType r = '''' then sniffContentType d (ur_Key r) body
                      else Inr (ur_ContentType r, body)) of
                  Inl e \<Rightarrow> (Some (Errorf ''s3 upload: content-type detection: %w'' [] [e]), s)
                | Inr (contentType, body) \<Rightarrow>
                    (let acl = (if ur_ACL r = '''' then ACLPrivate else ur_ACL r)
                     in case s_UploadObject d engine
                            \<lparr>pp_Bucket = ur_Bucket r, pp_Key = ur_Key r, pp_Body = body,
                             pp_ContentType = contentType, pp_ACL = acl\<rparr> s of
                          (None, s) \<Rightarrow> (None, s)
                        | (Some e, s) \<Rightarrow>
                            (Some (Errorf ''s3 upload %q/%q: %w'' [AStr (ur_Bucket r), AStr (ur_Key r)] [e]), s)))))"

section \<open>The other operations\<close>

definition s3_download :: "'s s3_driver \<Rightarrow> s3_comp \<Rightarrow> string \<Rightarrow> string \<Rightarrow> 's \<Rightarrow> reader option ret \<times> 's" where
  "s3_download d c bucket key s =
     (case s3_getClient c of
        None \<Rightarrow> ((None, Some s3_ErrNotReady), s)
      | Some client \<Rightarrow>
          (if bucket = '''' \<or> key = ''''
           then ((None, Some (Errorf ''s3 download: bucket and key are required'' [] [])), s)
           else case s_GetObject d client bucket key s of
             (Inl e, s) \<Rightarrow> ((None, Some (Errorf ''s3 download %q/%q: %w'' [AStr bucket, AStr key] [e])), s)
           | (Inr body, s) \<Rightarrow> ((Some body, None), s)))"

definition s3_delete :: "'s s3_driver \<Rightarrow> s3_comp \<Rightarrow> string \<Rightarrow> string \<Rightarrow> 's \<Rightarrow> goerr option \<times> 's" where
  "s3_delete d c bucket key s =
     (case s3_getClient c of
        None \<Rightarrow> (Some s3_ErrNotReady, s)
      | Some client \<Rightarrow>
          (if bucket = '''' \<or> key = ''''
           then (Some (Errorf ''s3 delete: bucket and key are required'' [] []), s)
           else case s_DeleteObject d client bucket key s of
             (err, s) \<Rightarrow> (map_option (\<lambda>e. Errorf ''s3 delete %q/%q: %w'' [AStr bucket, AStr key] [e]) err, s)))"

fun keys_of :: "string option list \<Rightarrow> string list" where
  "keys_of [] = []"
| "keys_of (None # ks) = keys_of ks"
| "keys_of (Some k # ks) = k # keys_of ks"

partial_function (option) s3_list_loop ::
  "'s s3_driver \<Rightarrow> handle \<Rightarrow> string \<Rightarrow> string \<Rightarrow> string option \<Rightarrow> string list \<Rightarrow> 's \<Rightarrow>
   (string list ret \<times> 's) option" where
  "s3_list_loop d client bucket pfx token keys s =
     (case s_ListObjectsV2 d client bucket pfx token s of
        (Inl e, s') \<Rightarrow> Some (([], Some (Errorf ''s3 list-keys %q/%q: %w'' [AStr bucket, AStr pfx] [e])), s')
      | (Inr out, s') \<Rightarrow>
          (let keys' = keys @ keys_of (lp_Keys out)
           in if lp_IsTruncated out \<noteq> Some True then Some ((keys', None), s')
              else s3_list_loop d client bucket pfx (lp_Next out) keys' s'))"

definition s3_listKeys ::
  "'s s3_driver \<Rightarrow> s3_comp \<Rightarrow> string \<Rightarrow> string \<Rightarrow> 's \<Rightarrow> (string list ret \<times> 's) option" where
  "s3_listKeys d c bucket pfx s =
     (case s3_getClient c of
        None \<Rightarrow> Some (([], Some s3_ErrNotReady), s)
      | Some client \<Rightarrow>
          (if bucket = '''' then Some (([], Some (Errorf ''s3 list-keys: bucket is required'' [] [])), s)
           else s3_list_loop d client bucket pfx None [] s))"

definition s3_deleteByPrefix ::
  "'s s3_driver \<Rightarrow> s3_comp \<Rightarrow> string \<Rightarrow> string \<Rightarrow> 's \<Rightarrow> (int ret \<times> 's) option" where
  "s3_deleteByPrefix d c bucket pfx s =
     (case s3_getClient c of
        None \<Rightarrow> Some ((0, Some s3_ErrNotReady), s)
      | Some client \<Rightarrow>
          (if bucket = '''' then Some ((0, Some (Errorf ''s3 delete-by-prefix: bucket is required'' [] [])), s)
           else case s3_listKeys d c bucket pfx s of
             None \<Rightarrow> None
           | Some ((keys, Some e), s) \<Rightarrow>
               Some ((0, Some (Errorf ''s3 delete-by-prefix: list: %w'' [] [e])), s)
           | Some ((keys, None), s) \<Rightarrow>
               (if length keys = 0 then Some ((0, None), s)
                else case s_DeleteObjects d client bucket keys s of
                  (Inl e, s) \<Rightarrow>
                    Some ((0, Some (Errorf ''s3 delete-by-prefix %q/%q: %w'' [AStr bucket, AStr pfx] [e])), s)
                | (Inr failed, s) \<Rightarrow> Some ((int (length keys), None), s))))"

definition s3_presignDownload :: "'s s3_driver \<Rightarrow> s3_comp \<Rightarrow> presign_request \<Rightarrow> 's \<Rightarrow> string ret \<times> 's" where
  "s3_presignDownload d c r s =
     (case s3_getPresigner c of
        None \<Rightarrow> (('''', Some s3_ErrNotReady), s)
      | Some p \<Rightarrow>
          (if pr_Bucket r = '''' \<or> pr_Key r = ''''
           then (('''', Some (Errorf ''s3 presign-download: bucket and key are required'' [] [])), s)
           else (let ttl = (if pr_TTL r = 0 then s3_presignTTL (s3_cfg c) else pr_TTL r)
                 in apfst (wrapped ''s3 presign-download %q/%q: %w'' [AStr (pr_Bucket r), AStr (pr_Key r)] '''')
                      (s_PresignGet d p (pr_Bucket r) (pr_Key r) ttl s))))"

definition s3_presignUpload :: "'s s3_driver \<Rightarrow> s3_comp \<Rightarrow> presign_request \<Rightarrow> 's \<Rightarrow> string ret \<times> 's" where
  "s3_presignUpload d c r s =
     (case s3_getPresigner c of
        None \<Rightarrow> (('''', Some s3_ErrNotReady), s)
      | Some p \<Rightarrow>
          (if pr_Bucket r = '''' \<or> pr_Key r = ''''
           then (('''', Some (Errorf ''s3 presign-upload: bucket and key are required'' [] [])), s)
           else (let ttl = (if pr_TTL r = 0 then s3_presignTTL (s3_cfg c) else pr_TTL r);
                     ct = (if pr_ContentType r \<noteq> '''' then Some (pr_ContentType r) else None);
                     len = (if pr_ContentLength r > 0 then Some (pr_ContentLength r) else None)
                 in apfst (wrapped ''s3 presign-upload %q/%q: %w'' [AStr (pr_Bucket r), AStr (pr_Key r)] '''')
                      (s_PresignPut d p (pr_Bucket r) (pr_Key r) ct len ttl s))))"

section \<open>Instrumentation\<close>

definition s3_record :: "s3_comp \<Rightarrow> string \<Rightarrow> duration \<Rightarrow> goerr option \<Rightarrow> world \<Rightarrow> world" where
  "s3_record c = record_op ''s3'' (s3_onOperation (s3_cfg c))"

definition s3_observe :: "s3_comp \<Rightarrow> string \<Rightarrow> duration \<Rightarrow> ('s, 'a) op \<Rightarrow> ('s, 'a) op" where
  "s3_observe c = observe_inside ''s3'' s3_ErrNotReady (s3_onOperation (s3_cfg c))"

definition s3_observeErr ::
  "s3_comp \<Rightarrow> string \<Rightarrow> duration \<Rightarrow> ('s st \<Rightarrow> goerr option \<times> 's st) \<Rightarrow> ('s, unit) op" where
  "s3_observeErr c op el fn = s3_observe c op el (\<lambda>st. case fn st of (e, st') \<Rightarrow> (((), e), st'))"

text \<open>The same around a body that may not return.\<close>

definition s3_observe_loop ::
  "s3_comp \<Rightarrow> string \<Rightarrow> duration \<Rightarrow> ('s \<Rightarrow> ('a ret \<times> 's) option) \<Rightarrow> 's st \<Rightarrow> ('a ret \<times> 's st) option" where
  "s3_observe_loop c op el fn st =
     map_option (\<lambda>(r, s). s3_observe c op el (\<lambda>(w, _). (r, (w, s))) st) (fn (snd st))"

definition s3_Upload :: "'s s3_driver \<Rightarrow> s3_comp \<Rightarrow> upload_request \<Rightarrow> duration \<Rightarrow> ('s, unit) op" where
  "s3_Upload d c r el = s3_observeErr c ''s3.upload'' el (call (s3_upload d c r))"

definition s3_Download :: "'s s3_driver \<Rightarrow> s3_comp \<Rightarrow> string \<Rightarrow> string \<Rightarrow> duration \<Rightarrow> ('s, reader option) op" where
  "s3_Download d c bucket key el = s3_observe c ''s3.download'' el (call (s3_download d c bucket key))"

definition s3_Delete :: "'s s3_driver \<Rightarrow> s3_comp \<Rightarrow> string \<Rightarrow> string \<Rightarrow> duration \<Rightarrow> ('s, unit) op" where
  "s3_Delete d c bucket key el = s3_observeErr c ''s3.delete'' el (call (s3_delete d c bucket key))"

definition s3_DeleteByPrefix ::
  "'s s3_driver \<Rightarrow> s3_comp \<Rightarrow> string \<Rightarrow> string \<Rightarrow> duration \<Rightarrow> 's st \<Rightarrow> (int ret \<times> 's st) option" where
  "s3_DeleteByPrefix d c bucket pfx el =
     s3_observe_loop c ''s3.delete_by_prefix'' el (s3_deleteByPrefix d c bucket pfx)"

definition s3_ListKeys ::
  "'s s3_driver \<Rightarrow> s3_comp \<Rightarrow> string \<Rightarrow> string \<Rightarrow> duration \<Rightarrow> 's st \<Rightarrow> (string list ret \<times> 's st) option" where
  "s3_ListKeys d c bucket pfx el =
     s3_observe_loop c ''s3.list_keys'' el (s3_listKeys d c bucket pfx)"

definition s3_PresignDownload :: "'s s3_driver \<Rightarrow> s3_comp \<Rightarrow> presign_request \<Rightarrow> duration \<Rightarrow> ('s, string) op" where
  "s3_PresignDownload d c r el = s3_observe c ''s3.presign_download'' el (call (s3_presignDownload d c r))"

definition s3_PresignUpload :: "'s s3_driver \<Rightarrow> s3_comp \<Rightarrow> presign_request \<Rightarrow> duration \<Rightarrow> ('s, string) op" where
  "s3_PresignUpload d c r el = s3_observe c ''s3.presign_upload'' el (call (s3_presignUpload d c r))"

section \<open>The lifecycle\<close>

definition s3_ops :: "s3_comp lc_ops" where
  "s3_ops = \<lparr>op_stop_ch = s3_stopCh, op_handle = s3_getClient, op_begin = s3_begin,
             op_publish = s3_publish, op_swap = s3_swap\<rparr>"

lemma s3_New_sel [simp]:
  "s3_stopCh (s3_New cfg (map s3_WithName names)) = 0"
  "s3_client (s3_New cfg (map s3_WithName names)) = None"
  "s3_cfg (s3_New cfg (map s3_WithName names)) = cfg"
  "s3_presigner (s3_New cfg (map s3_WithName names)) = None"
  "s3_engine (s3_New cfg (map s3_WithName names)) = None"
  by (simp_all add: s3_New_def s3_WithName_def
      fold_options [of s3_stopCh s3_WithName]
      fold_options [of s3_client s3_WithName]
      fold_options [of s3_cfg s3_WithName]
      fold_options [of s3_presigner s3_WithName]
      fold_options [of s3_engine s3_WithName])

lemmas s3_sections = s3_ops_def s3_begin_def s3_publish_def s3_swap_def s3_getClient_def

interpretation s3_lc: lifecycle s3_ops "s3_New cfg (map s3_WithName names)" for cfg names
  by unfold_locales (simp_all add: s3_sections)

text \<open>
  The three handles of the component are there together or not at all, and the upload engine is
  the one of the client and the configuration.
\<close>

definition s3_whole :: "s3_config \<Rightarrow> s3_comp \<Rightarrow> bool" where
  "s3_whole cfg c \<longleftrightarrow> s3_cfg c = cfg \<and> s3_presigner c = s3_client c \<and>
     s3_engine c = map_option (\<lambda>h. newTransferManagerEngine h cfg) (s3_client c)"

interpretation s3_health: health_checked s3_ops "s3_New cfg (map s3_WithName names)"
    "s3_whole cfg" "\<lambda>c s. fst (s3_Health d c s)" for cfg names d
  by unfold_locales (simp_all add: s3_sections s3_Health_def s3_whole_def)

section \<open>Listing as a paged listing\<close>

text \<open>One answer of the provider as a page: the cursor is the continuation token, if there is one.\<close>

definition s3_fetch ::
  "'s s3_driver \<Rightarrow> handle \<Rightarrow> string \<Rightarrow> string \<Rightarrow> (string option, string, 's) fetcher" where
  "s3_fetch d client bucket pfx token s =
     (case s_ListObjectsV2 d client bucket pfx token s of
        (Inl e, s') \<Rightarrow> (Inl e, s')
      | (Inr out, s') \<Rightarrow>
          (Inr (keys_of (lp_Keys out),
                if lp_IsTruncated out = Some True then Some (lp_Next out) else None), s'))"

definition s3_list_wrap :: "string \<Rightarrow> string \<Rightarrow> goerr \<Rightarrow> goerr" where
  "s3_list_wrap bucket pfx e = Errorf ''s3 list-keys %q/%q: %w'' [AStr bucket, AStr pfx] [e]"

lemma s3_list_turn:
  "page_turn (s3_fetch d h b p) (s3_list_wrap b p) loop c acc s =
     (case s_ListObjectsV2 d h b p c s of
        (Inl e, s') \<Rightarrow> Some (([], Some (Errorf ''s3 list-keys %q/%q: %w'' [AStr b, AStr p] [e])), s')
      | (Inr out, s') \<Rightarrow>
          (let keys' = acc @ keys_of (lp_Keys out)
           in if lp_IsTruncated out \<noteq> Some True then Some ((keys', None), s')
              else loop (lp_Next out) keys' s'))"
  by (auto simp: page_turn_def s3_fetch_def s3_list_wrap_def Let_def split: prod.splits sum.splits)

interpretation s3_pages: paging "s3_fetch d h b p" "s3_list_wrap b p" "s3_list_loop d h b p" for d h b p
proof unfold_locales
  show "s3_list_loop d h b p c acc s =
      page_turn (s3_fetch d h b p) (s3_list_wrap b p) (s3_list_loop d h b p) c acc s" for c acc s
    unfolding s3_list_turn by (rule s3_list_loop.simps)
next
  fix P c acc s r
  assume step: "\<And>next c acc s r. \<lbrakk>\<And>c acc s r. next c acc s = Some r \<Longrightarrow> P c acc s r;
      page_turn (s3_fetch d h b p) (s3_list_wrap b p) next c acc s = Some r\<rbrakk> \<Longrightarrow> P c acc s r"
    and ret: "s3_list_loop d h b p c acc s = Some r"
  have "d = d \<longrightarrow> h = h \<longrightarrow> b = b \<longrightarrow> p = p \<longrightarrow> P c acc s r"
  proof (rule s3_list_loop.raw_induct [OF _ ret,
      where P = "\<lambda>d' h' b' p' c acc s r. d' = d \<longrightarrow> h' = h \<longrightarrow> b' = b \<longrightarrow> p' = p \<longrightarrow> P c acc s r"],
      intro impI)
    fix f d' h' b' p' c acc s r
    assume IH: "\<And>d' h' b' p' c acc s r. f d' h' b' p' c acc s = Some r \<Longrightarrow>
        d' = d \<longrightarrow> h' = h \<longrightarrow> b' = b \<longrightarrow> p' = p \<longrightarrow> P c acc s r"
      and body: "(case s_ListObjectsV2 d' h' b' p' c s of
        (Inl e, s') \<Rightarrow> Some (([], Some (Errorf ''s3 list-keys %q/%q: %w'' [AStr b', AStr p'] [e])), s')
      | (Inr out, s') \<Rightarrow>
          (let keys' = acc @ keys_of (lp_Keys out)
           in if lp_IsTruncated out \<noteq> Some True then Some ((keys', None), s')
              else f d' h' b' p' (lp_Next out) keys' s')) = Some r"
      and eq: "d' = d" "h' = h" "b' = b" "p' = p"
    show "P c acc s r"
    proof (rule step [of "f d h b p"])
      show "page_turn (s3_fetch d h b p) (s3_list_wrap b p) (f d h b p) c acc s = Some r"
        using body unfolding eq s3_list_turn .
    qed (use IH in blast)
  qed
  then show "P c acc s r" by simp
qed

section \<open>Lemmas\<close>

lemma multi_reader_full: "multi_reader (take n (rd_bytes r)) (r\<lparr>rd_bytes := drop n (rd_bytes r)\<rparr>) = r"
  by (simp add: multi_reader_def)

text \<open>Sniffing fails only with the body's own error, and hands on a reader equal to the body.\<close>

lemma sniff_body: "sniffContentType d key body = Inr (ct, body') \<Longrightarrow> body' = body"
  by (auto simp: sniffContentType_def read_full_def Let_def multi_reader_full split: if_splits)

lemma sniff_err: "sniffContentType d key body = Inl e \<Longrightarrow> rd_err body = Some e"
  by (auto simp: sniffContentType_def read_full_def Let_def split: if_splits)

text \<open>
  The provider serves a run of pages: each answer but the last is marked truncated, and each
  request carries the token of the answer before it.
\<close>

fun serves_pages ::
  "'s s3_driver \<Rightarrow> handle \<Rightarrow> string \<Rightarrow> string \<Rightarrow> string option \<Rightarrow> list_page list \<Rightarrow> 's \<Rightarrow> 's \<Rightarrow> bool" where
  "serves_pages d h bucket pfx token [] s s' = False"
| "serves_pages d h bucket pfx token (pg # pgs) s s' =
     (case s_ListObjectsV2 d h bucket pfx token s of
        (Inl e, s1) \<Rightarrow> False
      | (Inr out, s1) \<Rightarrow> out = pg \<and>
          (if lp_IsTruncated pg = Some True then serves_pages d h bucket pfx (lp_Next pg) pgs s1 s'
           else pgs = [] \<and> s' = s1))"

lemma serves_pages_paged:
  "serves_pages d h bucket pfx token pgs s s' \<Longrightarrow>
     paged (s3_fetch d h bucket pfx) token s (Inr (concat (map (\<lambda>pg. keys_of (lp_Keys pg)) pgs))) s'"
proof (induction pgs arbitrary: token s)
  case (Cons pg pgs)
  then obtain s1 where ans: "s_ListObjectsV2 d h bucket pfx token s = (Inr pg, s1)"
    and rest: "if lp_IsTruncated pg = Some True then serves_pages d h bucket pfx (lp_Next pg) pgs s1 s'
      else pgs = [] \<and> s' = s1"
    by (auto split: prod.splits sum.splits)
  show ?case
  proof (cases "lp_IsTruncated pg = Some True")
    case False
    with ans rest show ?thesis by (auto simp: s3_fetch_def intro: paged.ends)
  next
    case True
    with ans have "s3_fetch d h bucket pfx token s = (Inr (keys_of (lp_Keys pg), Some (lp_Next pg)), s1)"
      by (simp add: s3_fetch_def)
    from paged.goes_on [OF this Cons.IH [of "lp_Next pg" s1]] True rest show ?thesis by simp
  qed
qed simp

lemma list_loop_serves:
  "serves_pages d h bucket pfx token pgs s s' \<Longrightarrow>
     s3_list_loop d h bucket pfx token keys s = Some ((keys @ concat (map (\<lambda>pg. keys_of (lp_Keys pg)) pgs), None), s')"
  by (simp add: s3_pages.complete [OF serves_pages_paged])

definition stuck_at :: "'s s3_driver \<Rightarrow> handle \<Rightarrow> string \<Rightarrow> string \<Rightarrow> bool" where
  "stuck_at d h bucket pfx \<longleftrightarrow>
     (\<forall>s. \<exists>out s'. s_ListObjectsV2 d h bucket pfx None s = (Inr out, s') \<and>
        lp_IsTruncated out = Some True \<and> lp_Next out = None)"

lemma stuck_endless:
  assumes "stuck_at d h b p"
  shows "endless (s3_fetch d h b p) (\<lambda>tok s. tok = None)"
  unfolding endless_def
proof (intro allI impI)
  fix tok :: "string option" and s
  assume "tok = None"
  moreover from assms obtain out s' where "s_ListObjectsV2 d h b p None s = (Inr out, s')"
    "lp_IsTruncated out = Some True" "lp_Next out = None" unfolding stuck_at_def by blast
  ultimately have "s3_fetch d h b p tok s = (Inr (keys_of (lp_Keys out), Some None), s')"
    by (simp add: s3_fetch_def)
  then show "\<exists>xs c' s'. s3_fetch d h b p tok s = (Inr (xs, Some c'), s') \<and> c' = None" by blast
qed

lemma list_loop_stuck: "stuck_at d h bucket pfx \<Longrightarrow> s3_list_loop d h bucket pfx None keys s = None"
  by (rule s3_pages.endless_diverges [OF stuck_endless]) simp_all

lemma observe_loop_blind:
  "fn (snd st) = Some (r, s') \<Longrightarrow>
     \<exists>w. s3_observe_loop c op el fn st = Some (r, (w, s'))"
  by (cases r) (simp add: s3_observe_loop_def s3_observe_def observe_inside_def Let_def split_beta)

section \<open>Properties\<close>

text \<open>
  C18. Listing is complete and returns: when the provider serves a run of pages, \<open>ListKeys\<close>
  returns every non-nil key of every page, in the order served, and nothing else; and
  \<open>DeleteByPrefix\<close> then asks for exactly these keys in one request, and counts them all as
  deleted whatever the provider says of the single objects.
\<close>
theorem s3_list_complete:
  assumes "s3_client c = Some h" and "bucket \<noteq> ''''" and "serves_pages d h bucket pfx None pgs s s'"
    and "keys = concat (map (\<lambda>pg. keys_of (lp_Keys pg)) pgs)"
  shows "(\<exists>w'. s3_ListKeys d c bucket pfx el (w, s) = Some ((keys, None), (w', s'))) \<and>
    s3_deleteByPrefix d c bucket pfx s =
      (if keys = [] then Some ((0, None), s')
       else case s_DeleteObjects d h bucket keys s' of
         (Inl e, s2) \<Rightarrow>
           Some ((0, Some (Errorf ''s3 delete-by-prefix %q/%q: %w'' [AStr bucket, AStr pfx] [e])), s2)
       | (Inr failed, s2) \<Rightarrow> Some ((int (length keys), None), s2))"
proof -
  have listed: "s3_listKeys d c bucket pfx s = Some ((keys, None), s')"
    using assms list_loop_serves [OF assms(3), of "[]"] by (simp add: s3_listKeys_def s3_getClient_def)
  have "\<exists>w'. s3_ListKeys d c bucket pfx el (w, s) = Some ((keys, None), (w', s'))"
    unfolding s3_ListKeys_def by (rule observe_loop_blind) (simp add: listed)
  moreover have "s3_deleteByPrefix d c bucket pfx s =
      (if keys = [] then Some ((0, None), s')
       else case s_DeleteObjects d h bucket keys s' of
         (Inl e, s2) \<Rightarrow>
           Some ((0, Some (Errorf ''s3 delete-by-prefix %q/%q: %w'' [AStr bucket, AStr pfx] [e])), s2)
       | (Inr failed, s2) \<Rightarrow> Some ((int (length keys), None), s2))"
    using assms(1,2) by (simp add: s3_deleteByPrefix_def s3_getClient_def listed)
  ultimately show ?thesis by blast
qed

text \<open>A provider with two pages that refuses to delete any object, and a client of it.\<close>

definition two_pages :: "string list s3_driver" where
  "two_pages = \<lparr>s_LoadConfig = \<lambda>_ _ s. (None, s), s_NewFromConfig = \<lambda>_ s. (0, s),
     s_HeadBucket = \<lambda>_ _ s. (Some (HttpResponse 404 []), s), s_GetObject = \<lambda>_ _ _ s. (Inl (Foreign 0), s),
     s_DeleteObject = \<lambda>_ _ _ s. (None, s), s_DeleteObjects = \<lambda>_ _ keys s. (Inr keys, s),
     s_ListObjectsV2 = \<lambda>_ _ _ tok s.
       (Inr (if tok = None
             then \<lparr>lp_Keys = [Some ''a'', None, Some ''b''], lp_IsTruncated = Some True, lp_Next = Some ''t''\<rparr>
             else \<lparr>lp_Keys = [Some ''c''], lp_IsTruncated = None, lp_Next = None\<rparr>), s),
     s_PresignGet = \<lambda>_ _ _ _ s. (Inr [], s), s_PresignPut = \<lambda>_ _ _ _ _ _ s. (Inr [], s),
     s_UploadObject = \<lambda>_ p s. (None, s @ [rd_bytes (pp_Body p)]),
     http_DetectContentType = \<lambda>_. ''text/plain''\<rparr>"

definition s3_cfg0 :: s3_config where
  "s3_cfg0 = \<lparr>s3_Endpoint = '''', s3_Region = '''', s3_KeyID = '''', s3_Secret = '''', s3_ConnectTimeout = 0,
     s3_PresignTTL = 0, s3_UploadPartSize = 0, s3_UploadConcurrency = 0, s3_HealthBucket = '''',
     s3_PathStyleForcing = False, s3_OnOperation = None\<rparr>"

definition s3_live :: s3_comp where
  "s3_live = s3_publish 0 (s3_New s3_cfg0 [])"

theorem s3_list_complete_witness:
  "s3_deleteByPrefix two_pages s3_live ''bkt'' ''p'' [] = Some ((3, None), [])"
proof -
  have "s3_client s3_live = Some 0" by (simp add: s3_live_def s3_publish_def)
  moreover have "serves_pages two_pages 0 ''bkt'' ''p'' None
      [\<lparr>lp_Keys = [Some ''a'', None, Some ''b''], lp_IsTruncated = Some True, lp_Next = Some ''t''\<rparr>,
       \<lparr>lp_Keys = [Some ''c''], lp_IsTruncated = None, lp_Next = None\<rparr>] [] []"
    by (simp add: two_pages_def)
  ultimately show ?thesis
    using s3_list_complete [of s3_live 0 "''bkt''" two_pages "''p''"
        "[\<lparr>lp_Keys = [Some ''a'', None, Some ''b''], lp_IsTruncated = Some True, lp_Next = Some ''t''\<rparr>,
          \<lparr>lp_Keys = [Some ''c''], lp_IsTruncated = None, lp_Next = None\<rparr>]" "[]" "[]"
        "[''a'', ''b'', ''c'']" 0 world0]
    by (simp add: two_pages_def)
qed

text \<open>
  Listing trusts the continuation token: against a provider that marks its answer truncated
  and gives no token, the next request is the first one again, and \<open>ListKeys\<close> never returns.
\<close>
theorem s3_list_diverges:
  assumes "s3_client c = Some h" and "bucket \<noteq> ''''"
    and "\<forall>s. \<exists>out s'. s_ListObjectsV2 d h bucket pfx None s = (Inr out, s') \<and>
      lp_IsTruncated out = Some True \<and> lp_Next out = None"
  shows "s3_ListKeys d c bucket pfx el st = None"
  using assms list_loop_stuck [of d h bucket pfx]
  by (simp add: s3_ListKeys_def s3_observe_loop_def s3_listKeys_def s3_getClient_def stuck_at_def)

theorem s3_list_diverges_witness:
  "s3_ListKeys (two_pages\<lparr>s_ListObjectsV2 := \<lambda>_ _ _ _ s.
     (Inr \<lparr>lp_Keys = [], lp_IsTruncated = Some True, lp_Next = None\<rparr>, s)\<rparr>) s3_live ''bkt'' ''p'' 0
     (world0, []) = None"
  by (rule s3_list_diverges [of _ 0]) (simp_all add: s3_live_def s3_publish_def)

text \<open>
  C17. \<open>Upload\<close> makes one call with the bytes of the given body, all of them and in order, although it
  has read its head to find the content type; the explicit content type is kept, the default
  access is private; a refused upload makes no call at all.
\<close>
theorem s3_upload_intact:
  "case s3_upload d c r s of (err, s') \<Rightarrow>
     (s' = s \<and> err \<noteq> None \<and>
        (s3_engine c = None \<or> ur_Bucket r = '''' \<or> ur_Key r = '''' \<or> ur_Body r = None \<or>
         ur_ContentType r = '''' \<and> (\<exists>b e. ur_Body r = Some b \<and> rd_err b = Some e \<and> errors_is (the err) e))) \<or>
     (\<exists>en b ct e. s3_engine c = Some en \<and> ur_Body r = Some b \<and>
        s_UploadObject d en \<lparr>pp_Bucket = ur_Bucket r, pp_Key = ur_Key r, pp_Body = b, pp_ContentType = ct,
          pp_ACL = (if ur_ACL r = '''' then ACLPrivate else ur_ACL r)\<rparr> s = (e, s') \<and>
        ct = (if ur_ContentType r \<noteq> '''' then ur_ContentType r
              else if suffix ''.svg'' (to_lower (ur_Key r)) \<or> contains (to_lower (take 512 (rd_bytes b))) ''<svg''
              then ''image/svg+xml'' else http_DetectContentType d (take 512 (rd_bytes b))) \<and>
        (err = None \<longleftrightarrow> e = None) \<and> (if e = None then True else errors_is (the err) (the e)))"
proof (cases "s3_engine c = None \<or> ur_Bucket r = '''' \<or> ur_Key r = '''' \<or> ur_Body r = None")
  case True
  then show ?thesis
    by (auto simp: s3_upload_def s3_getEngine_def split: option.splits)
next
  case False
  then obtain en b where live: "s3_engine c = Some en" "ur_Body r = Some b"
    "ur_Bucket r \<noteq> ''''" "ur_Key r \<noteq> ''''" by auto
  define typed where "typed = (if ur_ContentType r = '''' then sniffContentType d (ur_Key r) b
                      else Inr (ur_ContentType r, b))"
  show ?thesis
  proof (cases typed)
    case (Inl e)
    then have "ur_ContentType r = ''''" "rd_err b = Some e"
      by (auto simp: typed_def sniff_err split: if_splits)
    with Inl live show ?thesis by (simp add: s3_upload_def s3_getEngine_def typed_def)
  next
    case (Inr p)
    then obtain ct b' where p: "typed = Inr (ct, b')" by (cases p) auto
    then have body: "b' = b" by (auto simp: typed_def split: if_splits dest: sniff_body)
    have ct: "ct = (if ur_ContentType r \<noteq> '''' then ur_ContentType r
        else if suffix ''.svg'' (to_lower (ur_Key r)) \<or> contains (to_lower (take 512 (rd_bytes b))) ''<svg''
        then ''image/svg+xml'' else http_DetectContentType d (take 512 (rd_bytes b)))"
      using p unfolding typed_def sniffContentType_def read_full_def Let_def sniffLen_def
      by (auto split: if_splits)
    obtain e s' where "s_UploadObject d en \<lparr>pp_Bucket = ur_Bucket r, pp_Key = ur_Key r, pp_Body = b,
          pp_ContentType = ct, pp_ACL = (if ur_ACL r = '''' then ACLPrivate else ur_ACL r)\<rparr> s = (e, s')"
      by (metis surj_pair)
    with live p body show ?thesis
      unfolding ct [symmetric]
      by (cases e) (simp_all add: s3_upload_def s3_getEngine_def typed_def [symmetric] Let_def ct [symmetric])
  qed
qed

lemma expected_status: "isExpectedHealthError (Some e) \<longleftrightarrow> statusCode e = 404 \<or> statusCode e = 403"
  by (auto simp: isExpectedHealthError_def statusCode_def Let_def split: option.splits)

lemma probe_errors_distinct [simp]:
  "ErrProbeForbidden \<noteq> ErrProbeBucketMissing" "ErrProbeBucketMissing \<noteq> ErrProbeForbidden"
  "Errorf f as ws \<noteq> ErrProbeForbidden" "Errorf f as ws \<noteq> ErrProbeBucketMissing"
  "ErrProbeForbidden \<noteq> Errorf f as ws" "ErrProbeBucketMissing \<noteq> Errorf f as ws"
  "errors_is ErrProbeForbidden ErrProbeBucketMissing = False"
  "errors_is ErrProbeBucketMissing ErrProbeForbidden = False"
  by (simp_all add: ErrProbeForbidden_def ErrProbeBucketMissing_def)

text \<open>A probe passes on an answer, or, with no bucket configured, on a signed refusal.\<close>

lemma probe_passes:
  "s3_probe d c h s = (None, s') \<longleftrightarrow>
     (\<exists>e. s_HeadBucket d h (s3_probeBucket (s3_cfg c)) s = (e, s') \<and>
        (case e of None \<Rightarrow> True
         | Some x \<Rightarrow> s3_HealthBucket (s3_cfg c) = '''' \<and> (statusCode x = 403 \<or> statusCode x = 404)))"
  by (auto simp: s3_probe_def verifyConnectivity_def expected_status split: prod.splits option.splits if_splits)

text \<open>
  C29. What \<open>Health\<close> says of a HEAD request on the probe bucket: an answer is healthy; a failure
  keeps the provider's error in its chain; with no health bucket a 403 or a 404 is healthy too;
  with one it is not, and the two sentinel errors tell exactly these two statuses apart.
\<close>
theorem s3_health_verdict:
  "case s3_Health d c s of (r, s') \<Rightarrow>
     (case s3_client c of
        None \<Rightarrow> r = Some s3_ErrNotReady \<and> s' = s
      | Some h \<Rightarrow>
          (case s_HeadBucket d h (s3_probeBucket (s3_cfg c)) s of
             (None, s1) \<Rightarrow> r = None \<and> s' = s1
           | (Some e, s1) \<Rightarrow> s' = s1 \<and>
               (if s3_HealthBucket (s3_cfg c) = ''''
                then r = (if statusCode e = 403 \<or> statusCode e = 404 then None else Some e)
                else (\<exists>x. r = Some x \<and> errors_is x e \<and>
                  (errors_is x ErrProbeForbidden \<longleftrightarrow> statusCode e = 403 \<or> errors_is e ErrProbeForbidden) \<and>
                  (errors_is x ErrProbeBucketMissing \<longleftrightarrow>
                     statusCode e = 404 \<or> errors_is e ErrProbeBucketMissing)))))"
  by (auto simp: s3_Health_def s3_getClient_def s3_probe_def verifyConnectivity_def expected_status
      split: prod.splits option.splits)

text \<open>
  C28. \<open>Start\<close> is ready exactly when it succeeds, and then the client, the presigner and the upload
  engine are those of the client that passed the probe, with parts of at least 5 MiB and at least
  one part at a time; a \<open>Start\<close> that fails publishes nothing.
\<close>
theorem s3_start_outcome:
  "case s3_Start d ch c (w, s) of (err, rdy, c', (w', s')) \<Rightarrow>
     (rdy \<longleftrightarrow> err = None) \<and> s3_stopCh c' = ch \<and>
     (if err = None
      then \<exists>h en s1 s2 e. s3_client c' = Some h \<and> s3_presigner c' = Some h \<and> s3_engine c' = Some en \<and>
        en_client en = h \<and> en_PartSizeBytes en \<ge> 5 * 2 ^ 20 \<and>
        en_MultipartUploadThreshold en = en_PartSizeBytes en \<and> en_Concurrency en \<ge> 1 \<and>
        s_NewFromConfig d (s3_clientOptions c) s1 = (h, s2) \<and>
        s_HeadBucket d h (s3_probeBucket (s3_cfg c)) s2 = (e, s') \<and>
        (case e of None \<Rightarrow> True
         | Some x \<Rightarrow> s3_HealthBucket (s3_cfg c) = '''' \<and> (statusCode x = 403 \<or> statusCode x = 404))
      else s3_client c' = s3_client c \<and> s3_presigner c' = s3_presigner c \<and> s3_engine c' = s3_engine c)"
proof -
  have same: "s3_clientOptions (s3_begin ch c) = s3_clientOptions c" "s3_cfg (s3_begin ch c) = s3_cfg c"
    "s3_probe d (s3_begin ch c) = s3_probe d c"
    by (simp_all add: fun_eq_iff s3_clientOptions_def s3_driverOptions_def s3_begin_def s3_probe_def Let_def)
  have bounds: "s3_uploadPartSize cfg \<ge> 5 * 2 ^ 20 \<and> s3_uploadConcurrency cfg \<ge> 1" for cfg
    by (simp add: s3_uploadPartSize_def s3_uploadConcurrency_def minUploadPartSize_def)
  obtain r s' where con: "s3_connect d (s3_begin ch c) s = (r, s')" by (metis surj_pair)
  show ?thesis
  proof (cases r)
    case (Inl e)
    with con show ?thesis by (simp add: s3_Start_def) (simp add: s3_begin_def)
  next
    case (Inr h)
    with con obtain s1 s2 e where made: "s_NewFromConfig d (s3_clientOptions c) s1 = (h, s2)"
      "s_HeadBucket d h (s3_probeBucket (s3_cfg c)) s2 = (e, s')"
      "case e of None \<Rightarrow> True
       | Some x \<Rightarrow> s3_HealthBucket (s3_cfg c) = '''' \<and> (statusCode x = 403 \<or> statusCode x = 404)"
      unfolding s3_connect_def same
      by (auto simp: probe_passes split: prod.splits option.splits)
    have "s3_stopCh (s3_begin ch c) = ch" by (simp add: s3_begin_def)
    with con Inr bounds [of "s3_cfg c"] show ?thesis
      by (simp add: s3_Start_def s3_publish_def newTransferManagerEngine_def Let_def same)
        (use made in blast)
  qed
qed

end
