(* ===== verification/Data_Modules.thy ===== *)
theory Data_Modules
  imports Redis Rabbit_Proofs Sqlite Postgresql S3
begin

text \<open>
  What the five data modules (redis, rabbitmq, sqlite, postgresql, s3) have in common, proved once
  per operation: every exported operation is instrumented, one report per call and no influence of
  the sink on anything else, and without a live handle it fails with the module's \<open>ErrNotReady\<close>
  and leaves the driver alone.
\<close>

section \<open>Instrumentation\<close>

text \<open>
  \<open>instrumented op ex\<close>, for the operation \<open>ex\<close> as a function of the sink: with a sink each call
  adds one observation, of the name \<open>op\<close> and the error the caller gets; with none it adds
  nothing; the log only grows; the result and the driver's state do not depend on the sink, even one that panics.
  \<open>instrumented_loop\<close> is the same of an operation that may not return, when it returns, and that
  whether it returns does not depend on the sink either.
\<close>

definition instrumented :: "string \<Rightarrow> (sink option \<Rightarrow> ('s, 'a) op) \<Rightarrow> bool" where
  "instrumented op ex \<longleftrightarrow> reports_once op ex \<and> sink_blind ex"

definition instrumented_loop ::
  "string \<Rightarrow> (sink option \<Rightarrow> 's st \<Rightarrow> ('a ret \<times> 's st) option) \<Rightarrow> bool" where
  "instrumented_loop op ex \<longleftrightarrow>
     (\<forall>st. case ex None st of None \<Rightarrow> True | Some (r, (w, s)) \<Rightarrow> fst st \<le> w \<and> w_obs w = w_obs (fst st)) \<and>
     (\<forall>f st. case ex (Some f) st of
        None \<Rightarrow> ex None st = None
      | Some (r, (w, s)) \<Rightarrow> fst st \<le> w \<and> (\<exists>d. w_obs w = w_obs (fst st) @ [(op, d, snd r)]) \<and>
          (\<exists>w0. ex None st = Some (r, (w0, s))))"

text \<open>The shapes the modules use, each instrumented by construction.\<close>

lemma instrumented_handle:
  "(\<And>h. silent (fn h)) \<Longrightarrow> instrumented op (\<lambda>f. observe_handle m nr f h z op el fn)"
  by (simp add: instrumented_def observed)

lemma instrumented_inside: "silent fn \<Longrightarrow> instrumented op (\<lambda>f. observe_inside m nr f op el fn)"
  by (simp add: instrumented_def observed)

lemma instrumented_plain: "silent fn \<Longrightarrow> instrumented op (\<lambda>f. observe_plain m f op el fn)"
  by (simp add: instrumented_def observed)

lemma instrumented_observe_loop:
  assumes "\<And>h st r w s. fn h st = Some (r, (w, s)) \<Longrightarrow> fst st \<le> w \<and> w_obs w = w_obs (fst st)"
  shows "instrumented_loop op (\<lambda>f. observe_loop m nr f h z op el fn)"
proof (cases h)
  case None
  then show ?thesis by (simp add: instrumented_loop_def observe_loop_def)
next
  case (Some x)
  with assms show ?thesis
    by (auto simp: instrumented_loop_def observe_loop_def record_op_grows_from split: option.splits)
qed

lemma instrumented_loop_inside:
  "instrumented_loop op (\<lambda>f st. map_option (\<lambda>(r, s). observe_inside m nr f op el (\<lambda>(w, _). (r, (w, s))) st) (fn (snd st)))"
  by (auto simp: instrumented_loop_def observe_inside_def Let_def split: option.splits prod.splits)

lemmas instrumented_shapes = instrumented_handle instrumented_inside instrumented_plain
  instrumented_observe_loop instrumented_loop_inside

text \<open>The component of a module with another sink.\<close>

definition sqlite_with_sink :: "sink option \<Rightarrow> sqlite_comp \<Rightarrow> sqlite_comp" where
  "sqlite_with_sink f c = c\<lparr>sc_cfg := (sc_cfg c)\<lparr>sq_OnOperation := f\<rparr>\<rparr>"

definition pg_with_sink :: "sink option \<Rightarrow> pg_comp \<Rightarrow> pg_comp" where
  "pg_with_sink f c = c\<lparr>pg_cfg := (pg_cfg c)\<lparr>pg_OnOperation := f\<rparr>\<rparr>"

definition s3_with_sink :: "sink option \<Rightarrow> s3_comp \<Rightarrow> s3_comp" where
  "s3_with_sink f c = c\<lparr>s3_cfg := (s3_cfg c)\<lparr>s3_OnOperation := f\<rparr>\<rparr>"

lemma with_sink_sel [simp]:
  "sqlite_onOperation (sc_cfg (sqlite_with_sink f c)) = f" "sqlite_getDB (sqlite_with_sink f c) = sqlite_getDB c"
  "pg_onOperation (pg_cfg (pg_with_sink f c')) = f" "pg_getPool (pg_with_sink f c') = pg_getPool c'"
  "s3_onOperation (s3_cfg (s3_with_sink f c'')) = f"
  by (simp_all add: sqlite_with_sink_def sqlite_onOperation_def sqlite_getDB_def pg_with_sink_def
      pg_onOperation_def pg_getPool_def s3_with_sink_def s3_onOperation_def)

text \<open>The bodies of the s3 operations do not look at the sink.\<close>

lemma s3_bodies_blind [simp]:
  "s3_upload d (s3_with_sink f c) = s3_upload d c" "s3_download d (s3_with_sink f c) = s3_download d c"
  "s3_delete d (s3_with_sink f c) = s3_delete d c" "s3_listKeys d (s3_with_sink f c) = s3_listKeys d c"
  "s3_deleteByPrefix d (s3_with_sink f c) = s3_deleteByPrefix d c"
  "s3_presignDownload d (s3_with_sink f c) = s3_presignDownload d c"
  "s3_presignUpload d (s3_with_sink f c) = s3_presignUpload d c"
proof -
  have sel: "s3_getClient (s3_with_sink f c) = s3_getClient c" "s3_getEngine (s3_with_sink f c) = s3_getEngine c"
    "s3_getPresigner (s3_with_sink f c) = s3_getPresigner c"
    "s3_presignTTL (s3_cfg (s3_with_sink f c)) = s3_presignTTL (s3_cfg c)"
    by (simp_all add: s3_with_sink_def s3_getClient_def s3_getEngine_def s3_getPresigner_def s3_presignTTL_def)
  show list: "s3_listKeys d (s3_with_sink f c) = s3_listKeys d c"
    by (simp add: fun_eq_iff s3_listKeys_def sel)
  show "s3_upload d (s3_with_sink f c) = s3_upload d c" "s3_download d (s3_with_sink f c) = s3_download d c"
    "s3_delete d (s3_with_sink f c) = s3_delete d c"
    "s3_presignDownload d (s3_with_sink f c) = s3_presignDownload d c"
    "s3_presignUpload d (s3_with_sink f c) = s3_presignUpload d c"
    unfolding fun_eq_iff s3_upload_def s3_download_def s3_delete_def s3_presignDownload_def
      s3_presignUpload_def sel by simp_all
  show "s3_deleteByPrefix d (s3_with_sink f c) = s3_deleteByPrefix d c"
    unfolding fun_eq_iff s3_deleteByPrefix_def sel list by simp
qed

lemma silent_call [simp]: "silent (\<lambda>st. case call g st of (e, st') \<Rightarrow> (((), e), st'))"
  by (simp add: silent_def split_beta)

lemma silent_call_ret [simp]: "silent (call g)"
  by (simp add: silent_def)

lemma finalise_obs [simp]:
  "w_obs (fst (snd (sqlite_finalise d tx e st))) = w_obs (fst st)"
  "w_obs (fst (snd (pg_finalise d' tx e st))) = w_obs (fst st)"
  by (auto simp: sqlite_finalise_def pg_finalise_def split_beta call_def split: option.split)

lemma finalise_grows [simp]:
  "w \<le> fst (snd (sqlite_finalise d tx e (w, s)))" "w \<le> fst (snd (pg_finalise d' tx e (w, s)))"
  by (auto simp: sqlite_finalise_def pg_finalise_def split_beta call_def split: option.split)

lemma redis_instrumented:
  "instrumented opSet (\<lambda>f. redis_Set d (redis_with_sink f c) k v t el)"
  "instrumented opSetNX (\<lambda>f. redis_SetNX d (redis_with_sink f c) k v t el)"
  "instrumented opGet (\<lambda>f. redis_Get d (redis_with_sink f c) k el)"
  "instrumented opDel (\<lambda>f. redis_Del d (redis_with_sink f c) ks el)"
  "instrumented opExists (\<lambda>f. redis_Exists d (redis_with_sink f c) ks el)"
  "instrumented opIncr (\<lambda>f. redis_Incr d (redis_with_sink f c) k el)"
  "instrumented opExpire (\<lambda>f. redis_Expire d (redis_with_sink f c) k t el)"
  "instrumented opTTL (\<lambda>f. redis_TTL d (redis_with_sink f c) k el)"
  by (rule instrumented_def [THEN iffD2], use redis_observed in blast)+

lemma redis_scans_instrumented:
  "instrumented_loop opScan (\<lambda>f. redis_Scan d (redis_with_sink f c) p el)"
  "instrumented_loop opScanFunc (\<lambda>f. redis_ScanFunc d (redis_with_sink f c) p fn el)"
  unfolding redis_with_sink_sel redis_Scan_def redis_ScanFunc_def
  by (rule instrumented_observe_loop; auto split: prod.splits)+

lemma rabbit_instrumented:
  "instrumented opPublish (\<lambda>f. rabbit_Publish d (rabbit_with_sink f c) now x k ct body el)"
  "instrumented opPublishWithType (\<lambda>f. rabbit_PublishWithType d (rabbit_with_sink f c) now x k ct mt body el)"
  "instrumented opPublishWithHeaders
     (\<lambda>f. rabbit_PublishWithHeaders d (rabbit_with_sink f c) now x k ct hs body el)"
  by (rule instrumented_def [THEN iffD2], use rabbit_observed in blast)+

lemma sqlite_instrumented:
  "instrumented ''sqlite.select'' (\<lambda>f. sqlite_Select d (sqlite_with_sink f c) q el)"
  "instrumented ''sqlite.get'' (\<lambda>f. sqlite_Get d (sqlite_with_sink f c) q el)"
  "instrumented ''sqlite.exec'' (\<lambda>f. sqlite_Exec d (sqlite_with_sink f c) q el)"
  "instrumented ''sqlite.begin_tx'' (\<lambda>f. sqlite_BeginTx d (sqlite_with_sink f c) o' el)"
  "instrumented ''sqlite.commit_tx'' (\<lambda>f. sqlite_CommitTx d (sqlite_with_sink f c) tx e el)"
  unfolding sqlite_Select_def sqlite_Get_def sqlite_Exec_def sqlite_BeginTx_def sqlite_CommitTx_def
    sqlite_observeErr_def sqlite_observe_def sqlite_observeTx_def with_sink_sel
  by (rule instrumented_shapes; auto simp: silent_def split_beta)+

lemma pg_instrumented:
  "instrumented ''postgres.select'' (\<lambda>f. pg_Select d (pg_with_sink f c) q el)"
  "instrumented ''postgres.get'' (\<lambda>f. pg_Get d (pg_with_sink f c) q el)"
  "instrumented ''postgres.exec'' (\<lambda>f. pg_Exec d (pg_with_sink f c) q el)"
  "instrumented ''postgres.begin_tx'' (\<lambda>f. pg_BeginTx d (pg_with_sink f c) o' el)"
  "instrumented ''postgres.commit_tx'' (\<lambda>f. pg_CommitTx d (pg_with_sink f c) tx e el)"
  unfolding pg_Select_def pg_Get_def pg_Exec_def pg_BeginTx_def pg_CommitTx_def
    pg_observeErr_def pg_observe_def pg_observeTx_def with_sink_sel
  by (rule instrumented_shapes; auto simp: silent_def split_beta)+

lemma s3_instrumented:
  "instrumented ''s3.upload'' (\<lambda>f. s3_Upload d (s3_with_sink f c) r el)"
  "instrumented ''s3.download'' (\<lambda>f. s3_Download d (s3_with_sink f c) b k el)"
  "instrumented ''s3.delete'' (\<lambda>f. s3_Delete d (s3_with_sink f c) b k el)"
  "instrumented ''s3.presign_download'' (\<lambda>f. s3_PresignDownload d (s3_with_sink f c) pr el)"
  "instrumented ''s3.presign_upload'' (\<lambda>f. s3_PresignUpload d (s3_with_sink f c) pr el)"
  "instrumented_loop ''s3.delete_by_prefix'' (\<lambda>f. s3_DeleteByPrefix d (s3_with_sink f c) b p el)"
  "instrumented_loop ''s3.list_keys'' (\<lambda>f. s3_ListKeys d (s3_with_sink f c) b p el)"
  unfolding s3_Upload_def s3_Download_def s3_Delete_def s3_DeleteByPrefix_def s3_ListKeys_def
    s3_PresignDownload_def s3_PresignUpload_def s3_observeErr_def s3_observe_loop_def [abs_def]
    s3_observe_def with_sink_sel s3_bodies_blind
  by (rule instrumented_shapes; simp)+

section \<open>Without a handle\<close>

text \<open>
  \<open>refuses op nr ex zero rec\<close>: from every state \<open>ex\<close> returns the zero value and \<open>nr\<close>, leaves the
  driver's state alone, and reports a zero duration through \<open>rec\<close>.
\<close>

definition refuses ::
  "string \<Rightarrow> goerr \<Rightarrow> (string \<Rightarrow> duration \<Rightarrow> goerr option \<Rightarrow> world \<Rightarrow> world) \<Rightarrow> 'a \<Rightarrow> ('s, 'a) op \<Rightarrow> bool" where
  "refuses op nr report zero ex \<longleftrightarrow>
     (\<forall>w s. ex (w, s) = ((zero, Some nr), (report op 0 (Some nr) w, s)))"

lemma sqlite_refuses:
  assumes "sc_db c = None"
  shows "refuses ''sqlite.select'' sqlite_ErrNotReady (sqlite_record c) () (sqlite_Select d c q el)"
    "refuses ''sqlite.get'' sqlite_ErrNotReady (sqlite_record c) () (sqlite_Get d c q el)"
    "refuses ''sqlite.exec'' sqlite_ErrNotReady (sqlite_record c) None (sqlite_Exec d c q el)"
    "refuses ''sqlite.begin_tx'' sqlite_ErrNotReady (sqlite_record c) None (sqlite_BeginTx d c o' el)"
    "fst (sqlite_Health d c s) \<noteq> None"
  using assms
  by (simp_all add: refuses_def sqlite_Health_def sqlite_Select_def sqlite_Get_def sqlite_Exec_def sqlite_BeginTx_def
      sqlite_observeErr_def sqlite_observe_def sqlite_getDB_def observe_handle_not_ready sqlite_record_def)

lemma pg_refuses:
  assumes "pg_pool c = None"
  shows "refuses ''postgres.select'' pg_ErrNotReady (pg_record c) () (pg_Select d c q el)"
    "refuses ''postgres.get'' pg_ErrNotReady (pg_record c) () (pg_Get d c q el)"
    "refuses ''postgres.exec'' pg_ErrNotReady (pg_record c) '''' (pg_Exec d c q el)"
    "refuses ''postgres.begin_tx'' pg_ErrNotReady (pg_record c) None (pg_BeginTx d c o' el)"
    "fst (pg_Health d c s) \<noteq> None"
  using assms
  by (simp_all add: refuses_def pg_Health_def pg_Select_def pg_Get_def pg_Exec_def pg_BeginTx_def
      pg_observeErr_def pg_observe_def pg_getPool_def observe_handle_not_ready pg_record_def)

lemma s3_refuses:
  assumes "s3_client c = None" and "s3_engine c = None" and "s3_presigner c = None"
  shows "refuses ''s3.upload'' s3_ErrNotReady (s3_record c) () (s3_Upload d c r el)"
    "refuses ''s3.download'' s3_ErrNotReady (s3_record c) None (s3_Download d c b k el)"
    "refuses ''s3.delete'' s3_ErrNotReady (s3_record c) () (s3_Delete d c b k el)"
    "refuses ''s3.presign_download'' s3_ErrNotReady (s3_record c) '''' (s3_PresignDownload d c pr el)"
    "refuses ''s3.presign_upload'' s3_ErrNotReady (s3_record c) '''' (s3_PresignUpload d c pr el)"
    "s3_ListKeys d c b p el (w, s) =
       Some (([], Some s3_ErrNotReady), (s3_record c ''s3.list_keys'' 0 (Some s3_ErrNotReady) w, s))"
    "s3_DeleteByPrefix d c b p el (w, s) =
       Some ((0, Some s3_ErrNotReady), (s3_record c ''s3.delete_by_prefix'' 0 (Some s3_ErrNotReady) w, s))"
    "fst (s3_Health d c s) = Some s3_ErrNotReady"
  using assms
  by (simp_all add: refuses_def s3_Health_def s3_Upload_def s3_Download_def s3_Delete_def s3_PresignDownload_def
      s3_PresignUpload_def s3_ListKeys_def s3_DeleteByPrefix_def s3_observeErr_def s3_observe_def
      s3_observe_loop_def observe_inside_def s3_upload_def s3_download_def s3_delete_def
      s3_presignDownload_def s3_presignUpload_def s3_listKeys_def s3_deleteByPrefix_def s3_getEngine_def
      s3_getClient_def s3_getPresigner_def s3_record_def call_def Let_def)

section \<open>Finishing a transaction\<close>

text \<open>
  What \<open>CommitTx\<close> promises: without an error exactly the commit is called, and its error is in the
  chain of the result; with one exactly the rollback, the result is never nil, the caller's error
  is in its chain, and so is the rollback's unless it says the transaction was over already.
\<close>

definition finalises ::
  "(goerr \<Rightarrow> bool) \<Rightarrow> ('s \<Rightarrow> goerr option \<times> 's) \<Rightarrow> ('s \<Rightarrow> goerr option \<times> 's) \<Rightarrow>
   (goerr option \<Rightarrow> 's \<Rightarrow> goerr option \<times> 's) \<Rightarrow> bool" where
  "finalises over commit rollback run \<longleftrightarrow>
     (\<forall>e s. case run e s of (err, s') \<Rightarrow>
        (case e of
           None \<Rightarrow> s' = snd (commit s) \<and>
             (case fst (commit s) of None \<Rightarrow> err = None | Some x \<Rightarrow> errors_is_opt err x)
         | Some cause \<Rightarrow> s' = snd (rollback s) \<and> errors_is_opt err cause \<and>
             (case fst (rollback s) of
                None \<Rightarrow> err = Some cause
              | Some x \<Rightarrow> if over x then err = Some cause else errors_is_opt err x)))"

lemma sqlite_finalises:
  "finalises (\<lambda>x. errors_is x sql_ErrTxDone) (q_Commit d tx) (q_Rollback d tx)
     (\<lambda>e s. case sqlite_CommitTx d c tx e el (w, s) of ((u, err), (w', s')) \<Rightarrow> (err, s'))"
  by (auto simp: finalises_def sqlite_CommitTx_def sqlite_observeTx_def observe_plain_def sqlite_finalise_def
      call_def split: option.splits prod.splits)

lemma pg_finalises:
  "finalises (\<lambda>x. False) (p_Commit d tx) (p_Rollback d tx)
     (\<lambda>e s. case pg_CommitTx d c tx e el (w, s) of ((u, err), (w', s')) \<Rightarrow> (err, s'))"
  by (auto simp: finalises_def pg_CommitTx_def pg_observeTx_def observe_plain_def pg_finalise_def
      call_def split: option.splits prod.splits)

section \<open>Listings\<close>

text \<open>
  \<open>lists fetch wrap c0 run\<close>: the operation \<open>run\<close> on the driver's state returns exactly when the
  listing from cursor \<open>c0\<close> on has a result, and then all the keys, or no keys and the first
  error wrapped, with the state the listing leaves.
\<close>

definition lists ::
  "('c, string, 's) fetcher \<Rightarrow> (goerr \<Rightarrow> goerr) \<Rightarrow> 'c \<Rightarrow> ('s \<Rightarrow> (string list ret \<times> 's) option) \<Rightarrow> bool" where
  "lists fetch wrap c0 run \<longleftrightarrow>
     (\<forall>s r s'. run s = Some (r, s') \<longleftrightarrow> (\<exists>res. paged fetch c0 s res s' \<and> r = page_ret wrap [] res))"

lemma redis_lists:
  assumes "redis_getClient c = Some h"
  shows "lists (redis_fetch d h p) (redis_scan_wrap p) 0
     (\<lambda>s. map_option (\<lambda>(r, w, s). (r, s)) (redis_Scan d c p el (w, s)))"
proof -
  have run: "map_option (\<lambda>(r, w, s). (r, s)) (redis_Scan d c p el (w, s)) = redis_scan_loop d h p 0 [] s" for s
    using assms by (cases "redis_scan_loop d h p 0 [] s") (auto simp: redis_Scan_def observe_loop_def)
  show ?thesis unfolding lists_def run by (simp add: redis_pages.returns_iff)
qed

lemma s3_lists:
  assumes "s3_client c = Some h" and "b \<noteq> ''''"
  shows "lists (s3_fetch d h b p) (s3_list_wrap b p) None
     (\<lambda>s. map_option (\<lambda>(r, w, s). (r, s)) (s3_ListKeys d c b p el (w, s)))"
proof -
  have run: "map_option (\<lambda>(r, w, s). (r, s)) (s3_ListKeys d c b p el (w, s)) = s3_list_loop d h b p None [] s" for s
    using assms
    by (cases "s3_list_loop d h b p None [] s")
      (auto simp: s3_ListKeys_def s3_listKeys_def s3_getClient_def s3_observe_loop_def s3_observe_def
        observe_inside_def Let_def)
  show ?thesis unfolding lists_def run by (simp add: s3_pages.returns_iff)
qed

end
