(* ===== verification/Rabbit_Consumers.thy ===== *)
theory Rabbit_Consumers
  imports Rabbit_Proofs
begin

text \<open>
  The consumer goroutines of the rabbitmq component, as a transition relation: any number of
  consumers, each bound to the context of the run it was started in, the runs of \<open>Start\<close> one after
  the other, any number of calls of \<open>Subscribe\<close>, \<open>Stop\<close>, and the dead-consumer list that \<open>Health\<close>
  reads. A step is one turn of a consumer's \<open>select\<close>, one critical section, or one stretch of
  broker calls between two of them.
\<close>

text \<open>
  Where a consumer stands: in its loop; past its check of the context, about to record its death;
  gone after recording it, while the list was in its \<open>n\<close>-th generation; gone after a normal
  shutdown. A consumer is started by the loop of \<open>Start\<close> or by a \<open>Subscribe\<close>.
\<close>

datatype cn_state = Consuming | Marking | Died nat | Finished

record consumer =
  cn_sub :: subscription
  cn_ctx :: nat
  cn_by_start :: bool
  cn_state :: cn_state

text \<open>
  Where \<open>Start\<close> stands: not running; past its first critical section, with its context; past the
  publication of connection and channel, with the exchanges still to declare; past the snapshot of
  the subscriptions, about to reset the list of the dead; binding the rest of the snapshot; past
  the cancellation that follows a failed binding; blocked; past the cancellation that follows.
\<close>

datatype run_phase =
    NoRun
  | Opening nat
  | Declaring nat handle handle "exchangeDecl list"
  | Resetting nat handle handle "subscription list"
  | Binding nat handle handle "subscription list"
  | Failing handle handle goerr
  | Running nat
  | Ending

text \<open>
  Where a \<open>Subscribe\<close> stands: it has put its subscription on the list; it has read the channel and
  the run's context, in one critical section; it has returned.
\<close>

datatype sub_call =
    Registered subscription
  | Looked subscription "handle option" "nat option"
  | Answered "goerr option"

record 's rsys =
  rs_comp :: rabbit_comp
  rs_run :: run_phase
  rs_resets :: nat
  rs_cancelled :: "nat set"
  rs_next_ctx :: nat
  rs_consumers :: "consumer list"
  rs_calls :: "sub_call list"
  rs_st :: "'s bst"

definition consumer_closed_reason :: string where
  "consumer_closed_reason = ''delivery channel closed by broker''"

definition move :: "nat \<Rightarrow> cn_state \<Rightarrow> 's rsys \<Rightarrow> 's rsys" where
  "move i x s = s\<lparr>rs_consumers := (rs_consumers s)[i := (rs_consumers s ! i)\<lparr>cn_state := x\<rparr>]\<rparr>"

definition at_state :: "'s rsys \<Rightarrow> nat \<Rightarrow> cn_state \<Rightarrow> bool" where
  "at_state s i x \<longleftrightarrow> i < length (rs_consumers s) \<and> cn_state (rs_consumers s ! i) = x"

definition cancelled :: "'s rsys \<Rightarrow> nat \<Rightarrow> bool" where
  "cancelled s i \<longleftrightarrow> cn_ctx (rs_consumers s ! i) \<in> rs_cancelled s"

definition call_at :: "'s rsys \<Rightarrow> nat \<Rightarrow> sub_call \<Rightarrow> bool" where
  "call_at s j k \<longleftrightarrow> j < length (rs_calls s) \<and> rs_calls s ! j = k"

definition goes :: "nat \<Rightarrow> sub_call \<Rightarrow> 's rsys \<Rightarrow> 's rsys" where
  "goes j k s = s\<lparr>rs_calls := (rs_calls s)[j := k]\<rparr>"

definition starts :: "subscription \<Rightarrow> nat \<Rightarrow> bool \<Rightarrow> 's rsys \<Rightarrow> 's rsys" where
  "starts sub x by_start s = s\<lparr>rs_consumers := rs_consumers s @
     [\<lparr>cn_sub = sub, cn_ctx = x, cn_by_start = by_start, cn_state = Consuming\<rparr>]\<rparr>"

text \<open>
  The runs are a supervisor's: \<open>Start\<close> begins when no earlier run is in progress. \<open>cancels\<close> is the
  cancellation of any context, by \<open>Stop\<close>, by the parent context or by both; \<open>outside\<close> any change in the
  broker that no call of these goroutines makes: a dropped connection, a queue deleted, the closes
  of \<open>Stop\<close>. \<open>wakes\<close> may happen at any time; when it does is the matter of \<open>Rabbit_Lifecycle\<close>.
\<close>

inductive consumer_step :: "(float64 \<Rightarrow> int) \<Rightarrow> 's amqp \<Rightarrow> 's rsys \<Rightarrow> 's rsys \<Rightarrow> bool"
  for oob :: "float64 \<Rightarrow> int" and d :: "'s amqp" where
  ctx_done: "at_state s i Consuming \<Longrightarrow> cancelled s i \<Longrightarrow> consumer_step oob d s (move i Finished s)"
| delivered: "at_state s i Consuming \<Longrightarrow>
     consumer_step oob d s
       (s\<lparr>rs_st := rabbit_deliver oob d (rs_comp s) (cn_sub (rs_consumers s ! i)) dl result (rs_st s)\<rparr>)"
| closed_running: "at_state s i Consuming \<Longrightarrow> \<not> cancelled s i \<Longrightarrow>
     consumer_step oob d s (move i Marking s)"
| marks: "at_state s i Marking \<Longrightarrow>
     consumer_step oob d s
       ((move i (Died (rs_resets s)) s)\<lparr>rs_comp :=
          rabbit_markConsumerDead (sub_queue (cn_sub (rs_consumers s ! i))) consumer_closed_reason (rs_comp s)\<rparr>)"
| begins: "rs_run s = NoRun \<Longrightarrow>
     consumer_step oob d s
       (s\<lparr>rs_comp := rabbit_begin ch (rs_next_ctx s) (rs_comp s), rs_run := Opening (rs_next_ctx s),
          rs_next_ctx := Suc (rs_next_ctx s)\<rparr>)"
| open_fails: "rs_run s = Opening x \<Longrightarrow> rabbit_open d race (rs_comp s) (rs_st s) = (res, st') \<Longrightarrow>
     \<forall>conn ch. res \<noteq> Live conn ch \<Longrightarrow> consumer_step oob d s (s\<lparr>rs_run := NoRun, rs_st := st'\<rparr>)"
| goes_live: "rs_run s = Opening x \<Longrightarrow> rabbit_open d race (rs_comp s) (rs_st s) = (Live conn ch, st') \<Longrightarrow>
     consumer_step oob d s
       (s\<lparr>rs_comp := rabbit_set_live conn ch (rs_comp s),
          rs_run := Declaring x conn ch (mq_exchanges (rs_comp s)), rs_st := st'\<rparr>)"
| declares: "rs_run s = Declaring x conn ch (e # es) \<Longrightarrow>
     rabbit_declare_all d ch [e] (rs_st s) = (None, st') \<Longrightarrow>
     consumer_step oob d s (s\<lparr>rs_run := Declaring x conn ch es, rs_st := st'\<rparr>)"
| declare_fails: "rs_run s = Declaring x conn ch (e # es) \<Longrightarrow>
     rabbit_declare_all d ch [e] (rs_st s) = (Some err, st') \<Longrightarrow>
     consumer_step oob d s (s\<lparr>rs_run := NoRun, rs_st := rabbit_close_both d conn ch st'\<rparr>)"
| snapshots: "rs_run s = Declaring x conn ch [] \<Longrightarrow>
     consumer_step oob d s (s\<lparr>rs_run := Resetting x conn ch (mq_subs (rs_comp s))\<rparr>)"
| resets: "rs_run s = Resetting x conn ch subs \<Longrightarrow>
     consumer_step oob d s
       (s\<lparr>rs_comp := (rs_comp s)\<lparr>mq_dead := []\<rparr>, rs_resets := Suc (rs_resets s),
          rs_run := Binding x conn ch subs\<rparr>)"
| binds: "rs_run s = Binding x conn ch (sub # subs) \<Longrightarrow>
     rabbit_bindAndConsume d ch sub (rs_st s) = (None, st') \<Longrightarrow>
     consumer_step oob d s (starts sub x True (s\<lparr>rs_run := Binding x conn ch subs, rs_st := st'\<rparr>))"
| bind_fails: "rs_run s = Binding x conn ch (sub # subs) \<Longrightarrow>
     rabbit_bindAndConsume d ch sub (rs_st s) = (Some e, st') \<Longrightarrow>
     consumer_step oob d s
       (s\<lparr>rs_run := Failing conn ch e, rs_cancelled := insert x (rs_cancelled s), rs_st := st'\<rparr>)"
| unsets: "rs_run s = Failing conn ch e \<Longrightarrow>
     consumer_step oob d s
       (s\<lparr>rs_comp := rabbit_unset (rs_comp s), rs_run := NoRun,
          rs_st := rabbit_close_both d conn ch (rs_st s)\<rparr>)"
| calls_ready: "rs_run s = Binding x conn ch [] \<Longrightarrow> consumer_step oob d s (s\<lparr>rs_run := Running x\<rparr>)"
| wakes: "rs_run s = Running x \<Longrightarrow>
     consumer_step oob d s (s\<lparr>rs_run := Ending, rs_cancelled := insert x (rs_cancelled s)\<rparr>)"
| finishes: "rs_run s = Ending \<Longrightarrow>
     consumer_step oob d s (s\<lparr>rs_comp := rabbit_finish (rs_comp s), rs_run := NoRun\<rparr>)"
| stops: "consumer_step oob d s (s\<lparr>rs_comp := rabbit_swap ch (rs_comp s)\<rparr>)"
| cancels: "consumer_step oob d s (s\<lparr>rs_cancelled := insert x (rs_cancelled s)\<rparr>)"
| outside: "consumer_step oob d s (s\<lparr>rs_st := (fst (rs_st s), (bcalls (rs_st s), b))\<rparr>)"
| registers: "consumer_step oob d s
     (s\<lparr>rs_comp := (rs_comp s)\<lparr>mq_subs := mq_subs (rs_comp s) @ [sub]\<rparr>,
        rs_calls := rs_calls s @ [Registered sub]\<rparr>)"
| looks_up: "call_at s j (Registered sub) \<Longrightarrow>
     consumer_step oob d s (goes j (Looked sub (mq_ch (rs_comp s)) (mq_runCtx (rs_comp s))) s)"
| not_running: "call_at s j (Looked sub ch x) \<Longrightarrow>
     (case ch of None \<Rightarrow> True | Some h \<Rightarrow> a_ChClosed d h (bstate (rs_st s))) \<or> x = None \<Longrightarrow>
     consumer_step oob d s (goes j (Answered None) s)"
| attaches: "call_at s j (Looked sub (Some ch) (Some x)) \<Longrightarrow> \<not> a_ChClosed d ch (bstate (rs_st s)) \<Longrightarrow>
     rabbit_bindAndConsume d ch sub (rs_st s) = (None, st') \<Longrightarrow>
     consumer_step oob d s (starts sub x False (goes j (Answered None) (s\<lparr>rs_st := st'\<rparr>)))"
| attach_fails: "call_at s j (Looked sub (Some ch) (Some x)) \<Longrightarrow> \<not> a_ChClosed d ch (bstate (rs_st s)) \<Longrightarrow>
     rabbit_bindAndConsume d ch sub (rs_st s) = (Some e, st') \<Longrightarrow>
     consumer_step oob d s (goes j (Answered (Some e)) (s\<lparr>rs_st := st'\<rparr>))"

inductive consumer_reach :: "(float64 \<Rightarrow> int) \<Rightarrow> 's amqp \<Rightarrow> 's rsys \<Rightarrow> 's rsys \<Rightarrow> bool"
  for oob :: "float64 \<Rightarrow> int" and d :: "'s amqp" and s0 :: "'s rsys" where
  here: "consumer_reach oob d s0 s0"
| more: "consumer_reach oob d s0 s \<Longrightarrow> consumer_step oob d s s' \<Longrightarrow> consumer_reach oob d s0 s'"

definition rsys0 :: "rabbit_comp \<Rightarrow> 's \<Rightarrow> 's rsys" where
  "rsys0 c b = \<lparr>rs_comp = c, rs_run = NoRun, rs_resets = 0, rs_cancelled = {}, rs_next_ctx = 0,
     rs_consumers = [], rs_calls = [], rs_st = (world0, ([], b))\<rparr>"

text \<open>A \<open>Subscribe\<close> that nothing interrupts is the function of \<open>Rabbitmq\<close>.\<close>

lemma subscribe_alone:
  assumes "rabbit_SubscribeWithOptions d ex q k h opts (rs_comp s) (rs_st s) = (err, c', x, st')"
    and "sub = \<lparr>sub_routingKey = k, sub_exchange = ex, sub_queue = q, sub_queueArgs = buildQueueArgs opts,
           sub_retry = so_Retry opts, sub_handler = h\<rparr>"
    and "s' = (case x of None \<Rightarrow> (\<lambda>s. s) | Some x \<Rightarrow> starts sub x False)
           (s\<lparr>rs_comp := c', rs_calls := rs_calls s @ [Answered err], rs_st := st'\<rparr>)"
  shows "consumer_reach oob d s s'"
proof -
  let ?j = "length (rs_calls s)"
  let ?s1 = "s\<lparr>rs_comp := (rs_comp s)\<lparr>mq_subs := mq_subs (rs_comp s) @ [sub]\<rparr>,
    rs_calls := rs_calls s @ [Registered sub]\<rparr>"
  let ?s2 = "goes ?j (Looked sub (mq_ch (rs_comp s)) (mq_runCtx (rs_comp s))) ?s1"
  have "consumer_reach oob d s ?s2"
    using consumer_reach.more [OF consumer_reach.more [OF consumer_reach.here consumer_step.registers [of oob d s sub]]
        consumer_step.looks_up [of ?s1 ?j sub]]
    by (simp add: call_at_def)
  moreover have "consumer_step oob d ?s2 s'"
  proof (cases "no_channel d (rs_comp s) (bstate (rs_st s)) \<or> mq_runCtx (rs_comp s) = None")
    case True
    with assms consumer_step.not_running [of ?s2 ?j sub "mq_ch (rs_comp s)" "mq_runCtx (rs_comp s)" d oob]
    show ?thesis
      by (auto simp: rabbit_SubscribeWithOptions_def Let_def call_at_def goes_def no_channel_def
          split: if_splits option.splits)
  next
    case False
    then obtain ch y where live: "mq_ch (rs_comp s) = Some ch" "mq_runCtx (rs_comp s) = Some y"
      "\<not> a_ChClosed d ch (bstate (rs_st s))"
      by (auto simp: no_channel_def split: option.splits)
    let ?s3 = "s\<lparr>rs_comp := (rs_comp s)\<lparr>mq_subs := mq_subs (rs_comp s) @ [sub]\<rparr>,
      rs_calls := rs_calls s @ [Looked sub (Some ch) (Some y)]\<rparr>"
    have at: "call_at ?s3 ?j (Looked sub (Some ch) (Some y))" by (simp add: call_at_def)
    obtain r st1 where bind: "rabbit_bindAndConsume d ch sub (rs_st s) = (r, st1)"
      by (metis surj_pair)
    with assms(1,2) live have res: "err = r" "st' = st1" "x = (if r = None then Some y else None)"
      "c' = (rs_comp s)\<lparr>mq_subs := mq_subs (rs_comp s) @ [sub]\<rparr>"
      by (auto simp: rabbit_SubscribeWithOptions_def Let_def no_channel_def)
    show ?thesis
    proof (cases r)
      case None
      with consumer_step.attaches [OF at, of d st1 oob] bind live res assms(3) show ?thesis
        by (cases s) (simp add: goes_def starts_def)
    next
      case (Some e)
      with consumer_step.attach_fails [OF at, of d e st1 oob] bind live res assms(3) show ?thesis
        by (cases s) (simp add: goes_def)
    qed
  qed
  ultimately show ?thesis by (rule consumer_reach.more)
qed

section \<open>Invariants\<close>

text \<open>
  A death recorded in the list's present generation is listed, and whatever is listed was recorded in
  it; a consumer that \<open>Start\<close> bound and whose context is not cancelled belongs to the run in
  progress, and if it died it did so in the present generation.
\<close>

definition dead_queues :: "rabbit_comp \<Rightarrow> string set" where
  "dead_queues c = fst ` set (mq_dead c)"

definition queue_of :: "'s rsys \<Rightarrow> nat \<Rightarrow> string" where
  "queue_of s i = sub_queue (cn_sub (rs_consumers s ! i))"

definition by_start :: "'s rsys \<Rightarrow> nat \<Rightarrow> bool" where
  "by_start s i \<longleftrightarrow> i < length (rs_consumers s) \<and> cn_by_start (rs_consumers s ! i)"

fun bound_ctx :: "run_phase \<Rightarrow> nat option" where
  "bound_ctx (Binding x conn ch subs) = Some x"
| "bound_ctx (Running x) = Some x"
| "bound_ctx _ = None"

definition listed_inv :: "'s rsys \<Rightarrow> bool" where
  "listed_inv s \<longleftrightarrow>
     (\<forall>i e. at_state s i (Died e) \<longrightarrow> e \<le> rs_resets s) \<and>
     (\<forall>i. at_state s i (Died (rs_resets s)) \<longrightarrow> queue_of s i \<in> dead_queues (rs_comp s)) \<and>
     (\<forall>q \<in> dead_queues (rs_comp s). \<exists>i. at_state s i (Died (rs_resets s)) \<and> queue_of s i = q)"

definition bound_inv :: "'s rsys \<Rightarrow> bool" where
  "bound_inv s \<longleftrightarrow>
     (\<forall>i. by_start s i \<longrightarrow> \<not> cancelled s i \<longrightarrow>
        bound_ctx (rs_run s) = Some (cn_ctx (rs_consumers s ! i)) \<and>
        (\<forall>e. at_state s i (Died e) \<longrightarrow> e = rs_resets s))"

lemmas consumer_defs = listed_inv_def bound_inv_def at_state_def cancelled_def queue_of_def by_start_def

lemma mark_queues [simp]:
  "dead_queues (rabbit_markConsumerDead q r c) = insert q (dead_queues c)"
proof -
  have "fst ` set (AList.update q r xs) = insert q (fst ` set xs)" for xs
    by (induction xs) auto
  then show ?thesis by (simp add: dead_queues_def rabbit_markConsumerDead_def)
qed

lemma sections_dead [simp]:
  "dead_queues (rabbit_begin ch x c) = dead_queues c" "dead_queues (rabbit_set_live h k c) = dead_queues c"
  "dead_queues (rabbit_unset c) = dead_queues c" "dead_queues (rabbit_finish c) = dead_queues c"
  "dead_queues (rabbit_swap ch c) = dead_queues c" "dead_queues (c\<lparr>mq_subs := subs\<rparr>) = dead_queues c"
  "dead_queues (c\<lparr>mq_dead := []\<rparr>) = {}"
  by (simp_all add: dead_queues_def rabbit_begin_def rabbit_set_live_def rabbit_unset_def
      rabbit_finish_def rabbit_swap_def)

lemma moves_sel [simp]:
  "rs_comp (move i x s) = rs_comp s" "rs_cancelled (move i x s) = rs_cancelled s"
  "rs_run (move i x s) = rs_run s" "rs_resets (move i x s) = rs_resets s"
  "rs_consumers (move i x s) = (rs_consumers s)[i := (rs_consumers s ! i)\<lparr>cn_state := x\<rparr>]"
  "rs_comp (goes j k s) = rs_comp s" "rs_cancelled (goes j k s) = rs_cancelled s"
  "rs_run (goes j k s) = rs_run s" "rs_resets (goes j k s) = rs_resets s"
  "rs_consumers (goes j k s) = rs_consumers s"
  "rs_comp (starts sub y b s) = rs_comp s" "rs_cancelled (starts sub y b s) = rs_cancelled s"
  "rs_run (starts sub y b s) = rs_run s" "rs_resets (starts sub y b s) = rs_resets s"
  "rs_consumers (starts sub y b s) = rs_consumers s @
     [\<lparr>cn_sub = sub, cn_ctx = y, cn_by_start = b, cn_state = Consuming\<rparr>]"
  by (simp_all add: move_def goes_def starts_def)

text \<open>Steps that touch neither a consumer nor the list.\<close>

lemma listed_frame:
  assumes "listed_inv s" and "rs_consumers s' = rs_consumers s" and "rs_resets s' = rs_resets s"
    and "dead_queues (rs_comp s') = dead_queues (rs_comp s)"
  shows "listed_inv s'"
  using assms by (simp add: listed_inv_def at_state_def queue_of_def)

lemma bound_frame:
  assumes "bound_inv s" and "rs_consumers s' = rs_consumers s" and "rs_resets s' = rs_resets s"
    and "rs_cancelled s \<subseteq> rs_cancelled s'"
    and "\<And>x. bound_ctx (rs_run s) = Some x \<Longrightarrow> bound_ctx (rs_run s') = Some x \<or> x \<in> rs_cancelled s'"
  shows "bound_inv s'"
  using assms unfolding bound_inv_def at_state_def cancelled_def by_start_def by (metis subsetD)

lemma listed_move:
  assumes "at_state s i y" "\<And>e. y \<noteq> Died e" "\<And>e. x \<noteq> Died e" "listed_inv s"
  shows "listed_inv (move i x s)"
proof -
  have "at_state (move i x s) j (Died e) \<longleftrightarrow> at_state s j (Died e)" for j e
    using assms(1-3) by (auto simp: at_state_def nth_list_update)
  moreover have "queue_of (move i x s) j = queue_of s j" for j
    using assms(1) by (simp add: queue_of_def at_state_def nth_list_update)
  ultimately show ?thesis using assms(4) by (simp add: listed_inv_def)
qed

lemma bound_move:
  assumes "at_state s i y" "\<And>e. x = Died e \<Longrightarrow> e = rs_resets s" "bound_inv s"
  shows "bound_inv (move i x s)"
  using assms by (auto simp: bound_inv_def at_state_def by_start_def cancelled_def nth_list_update
      split: if_splits)

lemma listed_inv_step:
  assumes "consumer_step oob d s s'" and "listed_inv s"
  shows "listed_inv s'"
  using assms(1)
proof (cases rule: consumer_step.cases)
  case (marks i)
  have states: "at_state s' j (Died e) \<longleftrightarrow> (if j = i then e = rs_resets s else at_state s j (Died e))" for j e
    using marks(2) by (auto simp: marks(1) at_state_def nth_list_update)
  have queues: "queue_of s' j = queue_of s j" for j
    using marks(2) by (simp add: marks(1) queue_of_def at_state_def nth_list_update)
  have "dead_queues (rs_comp s') = insert (queue_of s i) (dead_queues (rs_comp s))" "rs_resets s' = rs_resets s"
    by (simp_all add: marks(1) queue_of_def)
  with assms(2) show ?thesis unfolding listed_inv_def states queues by (auto split: if_splits)
next
  case (resets x conn ch subs)
  with assms(2) show ?thesis by (fastforce simp: listed_inv_def at_state_def intro: le_SucI)
next
  case (binds x conn ch sub subs st')
  with assms(2) show ?thesis
    by (auto simp: listed_inv_def at_state_def queue_of_def nth_append split: if_splits)
next
  case (attaches j sub ch x st')
  with assms(2) show ?thesis
    by (auto simp: listed_inv_def at_state_def queue_of_def nth_append split: if_splits)
qed (use assms(2) in \<open>auto intro: listed_move listed_frame\<close>)

lemma bound_inv_step:
  assumes "consumer_step oob d s s'" and "bound_inv s" and "listed_inv s"
  shows "bound_inv s'"
  using assms(1)
proof (cases rule: consumer_step.cases)
  case (marks i)
  have "bound_inv (move i (Died (rs_resets s)) s)" 
    by (rule bound_move [OF marks(2) _ assms(2)]) simp
  then show ?thesis by (rule bound_frame) (simp_all add: marks(1))
next
  case (resets x conn ch subs)
  with assms(2) show ?thesis by (auto simp: bound_inv_def by_start_def cancelled_def)
next
  case (binds x conn ch sub subs st')
  with assms(2) show ?thesis
    by (auto simp: bound_inv_def by_start_def cancelled_def at_state_def nth_append split: if_splits)
next
  case (attaches j sub ch x st')
  with assms(2) show ?thesis
    by (auto simp: bound_inv_def by_start_def cancelled_def at_state_def nth_append split: if_splits)
qed (use assms(2) in \<open>auto intro: bound_move elim: bound_frame\<close>)

lemma consumer_inv:
  "consumer_reach oob d (rsys0 c b) s \<Longrightarrow> mq_dead c = [] \<Longrightarrow> listed_inv s \<and> bound_inv s"
proof (induction rule: consumer_reach.induct)
  case here
  then show ?case by (simp add: consumer_defs rsys0_def dead_queues_def)
next
  case (more s s')
  then show ?case using listed_inv_step bound_inv_step by blast
qed

section \<open>Properties\<close>

lemma dead_unhealthy: "q \<in> dead_queues c \<Longrightarrow> rabbit_Health d c t \<noteq> None"
  by (auto simp: dead_queues_def rabbit_Health_def split: list.split)

lemma health_names_dead:
  assumes "rabbit_Health d c t =
    Some (Errorf ''rabbitmq: consumer for queue %q is dead: %s'' [AStr q, AStr r] [])"
  shows "q \<in> dead_queues c"
proof (cases "mq_dead c")
  case Nil
  with assms show ?thesis by (simp add: rabbit_Health_def split: if_splits)
next
  case (Cons e es)
  with assms show ?thesis by (cases e) (simp add: rabbit_Health_def dead_queues_def)
qed

text \<open>
  C13. A consumer does not die silently. Once a consumer has recorded its death, \<open>Health\<close> fails until
  a run of \<open>Start\<close> resets the record; so it fails whenever a consumer that \<open>Start\<close> has bound is
  dead and its run has not been cancelled. And whenever \<open>Health\<close> names a dead consumer, a
  consumer of that queue has recorded its death since the last reset. A consumer that a
  \<open>Subscribe\<close> has bound between the publication of the channel and this reset is not covered: see
  \<open>rabbit_lost_death\<close>.
\<close>
theorem rabbit_dead_consumer_unhealthy:
  assumes "consumer_reach oob d (rsys0 (rabbit_New cfg []) b) s"
  shows "((\<exists>i. at_state s i (Died (rs_resets s))) \<longrightarrow> rabbit_Health d (rs_comp s) t \<noteq> None) \<and>
    ((\<exists>i e. at_state s i (Died e) \<and> by_start s i \<and> \<not> cancelled s i) \<longrightarrow>
       rabbit_Health d (rs_comp s) t \<noteq> None) \<and>
    (\<forall>q r. rabbit_Health d (rs_comp s) t =
         Some (Errorf ''rabbitmq: consumer for queue %q is dead: %s'' [AStr q, AStr r] []) \<longrightarrow>
       (\<exists>i. at_state s i (Died (rs_resets s)) \<and> queue_of s i = q))"
proof -
  from consumer_inv [OF assms] have inv: "listed_inv s" "bound_inv s" by (simp_all add: rabbit_New_def)
  have recorded: "rabbit_Health d (rs_comp s) t \<noteq> None" if "at_state s i (Died (rs_resets s))" for i
  proof (rule dead_unhealthy)
    show "queue_of s i \<in> dead_queues (rs_comp s)" using inv(1) that unfolding listed_inv_def by blast
  qed
  have bound: "rabbit_Health d (rs_comp s) t \<noteq> None"
    if "at_state s i (Died e)" "by_start s i" "\<not> cancelled s i" for i e
  proof -
    from that inv(2) have "e = rs_resets s" unfolding bound_inv_def by blast
    with that(1) show ?thesis using recorded by simp
  qed
  have named: "\<exists>i. at_state s i (Died (rs_resets s)) \<and> queue_of s i = q"
    if "rabbit_Health d (rs_comp s) t =
      Some (Errorf ''rabbitmq: consumer for queue %q is dead: %s'' [AStr q, AStr r] [])" for q r
    using inv(1) health_names_dead [OF that] unfolding listed_inv_def by blast
  show ?thesis
    by (intro conjI allI impI; (elim exE conjE)?;
        ((rule recorded; assumption) | (rule bound; assumption) | (rule named; assumption)))
qed

section \<open>Schedules\<close>

text \<open>Schedules with the broker that accepts everything, whatever it has been asked.\<close>

definition rsys_at ::
  "rabbit_comp \<Rightarrow> run_phase \<Rightarrow> nat \<Rightarrow> nat set \<Rightarrow> nat \<Rightarrow> consumer list \<Rightarrow> sub_call list \<Rightarrow> 's bst \<Rightarrow> 's rsys" where
  "rsys_at c run n cx x cs ks st = \<lparr>rs_comp = c, rs_run = run, rs_resets = n, rs_cancelled = cx,
     rs_next_ctx = x, rs_consumers = cs, rs_calls = ks, rs_st = st\<rparr>"

definition got ::
  "rabbit_comp \<Rightarrow> rabbit_comp \<Rightarrow> run_phase \<Rightarrow> nat \<Rightarrow> nat set \<Rightarrow> nat \<Rightarrow> consumer list \<Rightarrow> sub_call list \<Rightarrow> bool" where
  "got c0 c run n cx x cs ks \<longleftrightarrow>
     (\<exists>st. consumer_reach (\<lambda>_. 0) good_amqp (rsys0 c0 ()) (rsys_at c run n cx x cs ks st))"

lemma got_step:
  assumes "got c0 c run n cx x cs ks"
    and "\<And>st. consumer_step (\<lambda>_. 0) good_amqp (rsys_at c run n cx x cs ks st)
      (rsys_at c' run' n' cx' x' cs' ks' (f st))"
  shows "got c0 c' run' n' cx' x' cs' ks'"
  using assms unfolding got_def by (meson consumer_reach.more)

lemma good_broker [simp]:
  "fst (rabbit_open good_amqp DialDone c st) = Live 1 2"
  "fst (rabbit_bindAndConsume good_amqp ch sub st) = None"
  "\<not> a_ChClosed good_amqp ch b" "\<not> a_ConnClosed good_amqp ch b"
  by (simp_all add: rabbit_open_def rabbit_bindAndConsume_def rabbit_declareRetryTopology_def Let_def
      bk_def good_amqp_def split_beta split: option.split)

lemma got_start: "got c0 c0 NoRun 0 {} 0 [] []"
  using consumer_reach.here [of "\<lambda>_. 0" good_amqp "rsys0 c0 ()"]
  by (auto simp: got_def rsys_at_def rsys0_def)

text \<open>\<open>Start\<close> up to the snapshot, of a component without exchanges, and after it.\<close>

lemma got_opened:
  assumes "got c0 c NoRun n cx x cs ks" and "mq_exchanges c = []"
  shows "got c0 (rabbit_set_live 1 2 (rabbit_begin 1 x c)) (Resetting x 1 2 (mq_subs c)) n cx (Suc x) cs ks"
proof -
  let ?c1 = "rabbit_begin 1 x c"
  let ?c2 = "rabbit_set_live 1 2 ?c1"
  have "got c0 ?c1 (Opening x) n cx (Suc x) cs ks"
    by (rule got_step [OF assms(1), where f = "\<lambda>st. st"])
      (use consumer_step.begins [of "rsys_at c NoRun n cx x cs ks st" "\<lambda>_. 0" good_amqp 1 for st]
        in \<open>simp add: rsys_at_def\<close>)
  then have "got c0 ?c2 (Declaring x 1 2 []) n cx (Suc x) cs ks"
    by (rule got_step [where f = "\<lambda>st. snd (rabbit_open good_amqp DialDone ?c1 st)"])
      (use consumer_step.goes_live [of "rsys_at ?c1 (Opening x) n cx (Suc x) cs ks st" x good_amqp DialDone 1 2
          "snd (rabbit_open good_amqp DialDone ?c1 st)" "\<lambda>_. 0" for st] assms(2)
        in \<open>simp add: rsys_at_def prod_eq_iff rabbit_begin_def\<close>)
  then show ?thesis
    by (rule got_step [where f = "\<lambda>st. st"])
      (use consumer_step.snapshots [of "rsys_at ?c2 (Declaring x 1 2 []) n cx (Suc x) cs ks st" x 1 2
          "\<lambda>_. 0" good_amqp for st]
        in \<open>simp add: rsys_at_def rabbit_begin_def rabbit_set_live_def\<close>)
qed

abbreviation "fresh_cn sub x b \<equiv> \<lparr>cn_sub = sub, cn_ctx = x, cn_by_start = b, cn_state = Consuming\<rparr>"

lemma got_reset:
  assumes "got c0 c (Resetting x h k subs) n cx y cs ks"
  shows "got c0 (c\<lparr>mq_dead := []\<rparr>) (Binding x h k subs) (Suc n) cx y cs ks"
  by (rule got_step [OF assms, where f = "\<lambda>st. st"])
    (use consumer_step.resets [of "rsys_at c (Resetting x h k subs) n cx y cs ks st" x h k subs for st]
      in \<open>simp add: rsys_at_def\<close>)

lemma got_ready:
  assumes "got c0 c (Binding x h k []) n cx y cs ks"
  shows "got c0 c (Running x) n cx y cs ks"
  by (rule got_step [OF assms, where f = "\<lambda>st. st"])
    (use consumer_step.calls_ready [of "rsys_at c (Binding x h k []) n cx y cs ks st" x h k for st]
      in \<open>simp add: rsys_at_def\<close>)

lemma got_ended:
  assumes "got c0 c (Running x) n cx y cs ks"
  shows "got c0 (rabbit_finish c) NoRun n (insert x cx) y cs ks"
proof -
  have "got c0 c Ending n (insert x cx) y cs ks"
    by (rule got_step [OF assms, where f = "\<lambda>st. st"])
      (use consumer_step.wakes [of "rsys_at c (Running x) n cx y cs ks st" x for st]
        in \<open>simp add: rsys_at_def\<close>)
  then show ?thesis
    by (rule got_step [where f = "\<lambda>st. st"])
      (use consumer_step.finishes [of "rsys_at c Ending n (insert x cx) y cs ks st" for st]
        in \<open>simp add: rsys_at_def\<close>)
qed

lemma got_bound:
  assumes "got c0 c (Binding x h k (sub # subs)) n cx y cs ks"
  shows "got c0 c (Binding x h k subs) n cx y (cs @ [fresh_cn sub x True]) ks"
  by (rule got_step [OF assms, where f = "\<lambda>st. snd (rabbit_bindAndConsume good_amqp k sub st)"])
    (use consumer_step.binds [of "rsys_at c (Binding x h k (sub # subs)) n cx y cs ks st" x h k sub subs
        good_amqp "snd (rabbit_bindAndConsume good_amqp k sub st)" for st]
      in \<open>simp add: rsys_at_def starts_def prod_eq_iff\<close>)

text \<open>A \<open>Subscribe\<close> while a channel is published; the first consumer sees its deliveries end and
  records its death.\<close>

lemma got_subscribed:
  assumes "got c0 c run n cx y cs []" and "mq_ch c = Some k" and "mq_runCtx c = Some x"
  shows "got c0 (c\<lparr>mq_subs := mq_subs c @ [sub]\<rparr>) run n cx y (cs @ [fresh_cn sub x False]) [Answered None]"
proof -
  let ?c = "c\<lparr>mq_subs := mq_subs c @ [sub]\<rparr>"
  have "got c0 ?c run n cx y cs [Registered sub]"
    by (rule got_step [OF assms(1), where f = "\<lambda>st. st"])
      (use consumer_step.registers [of _ _ "rsys_at c run n cx y cs [] st" sub for st]
        in \<open>simp add: rsys_at_def\<close>)
  then have "got c0 ?c run n cx y cs [Looked sub (Some k) (Some x)]"
    by (rule got_step [where f = "\<lambda>st. st"])
      (use consumer_step.looks_up [of "rsys_at ?c run n cx y cs [Registered sub] st" 0 sub for st] assms(2,3)
        in \<open>simp add: rsys_at_def call_at_def goes_def\<close>)
  then show ?thesis
    by (rule got_step [where f = "\<lambda>st. snd (rabbit_bindAndConsume good_amqp k sub st)"])
      (use consumer_step.attaches [of "rsys_at ?c run n cx y cs [Looked sub (Some k) (Some x)] st" 0 sub k x
          good_amqp "snd (rabbit_bindAndConsume good_amqp k sub st)" for st]
        in \<open>simp add: rsys_at_def call_at_def goes_def starts_def prod_eq_iff\<close>)
qed

lemma got_closed:
  assumes "got c0 c run n cx y (fresh_cn sub x b # cs) ks" and "x \<notin> cx"
  shows "got c0 c run n cx y ((fresh_cn sub x b)\<lparr>cn_state := Marking\<rparr> # cs) ks"
  by (rule got_step [OF assms(1), where f = "\<lambda>st. st"])
    (use consumer_step.closed_running [of "rsys_at c run n cx y (fresh_cn sub x b # cs) ks st" 0 for st] assms(2)
      in \<open>simp add: rsys_at_def at_state_def cancelled_def move_def\<close>)

lemma got_marked:
  assumes "got c0 c run n cx y ((fresh_cn sub x b)\<lparr>cn_state := Marking\<rparr> # cs) ks"
  shows "got c0 (rabbit_markConsumerDead (sub_queue sub) consumer_closed_reason c) run n cx y
    ((fresh_cn sub x b)\<lparr>cn_state := Died n\<rparr> # cs) ks"
  by (rule got_step [OF assms, where f = "\<lambda>st. st"])
    (use consumer_step.marks [of "rsys_at c run n cx y ((fresh_cn sub x b)\<lparr>cn_state := Marking\<rparr> # cs) ks st" 0
        for st]
      in \<open>simp add: rsys_at_def at_state_def move_def\<close>)

text \<open>
  The exception to C13: between the snapshot of the subscriptions and the reset of the dead a
  \<open>Subscribe\<close> finds the channel of the run and binds; if the broker ends this consumer before the
  reset, the record of its death is wiped. The run goes on, nothing consumes the queue, and
  \<open>Health\<close> says that all is well.
\<close>
theorem rabbit_lost_death:
  "\<exists>s. consumer_reach (\<lambda>_. 0) good_amqp (rsys0 (rabbit_New rabbit_cfg0 []) ()) s \<and> rs_run s = Running 0 \<and>
     rs_cancelled s = {} \<and> map cn_state (rs_consumers s) = [Died 0] \<and> mq_subs (rs_comp s) = [sub] \<and>
     rabbit_Health good_amqp (rs_comp s) () = None"
proof -
  let ?c0 = "rabbit_New rabbit_cfg0 []"
  let ?live = "rabbit_set_live 1 2 (rabbit_begin 1 0 ?c0)"
  let ?c1 = "?live\<lparr>mq_subs := mq_subs ?live @ [sub]\<rparr>"
  let ?c2 = "rabbit_markConsumerDead (sub_queue sub) consumer_closed_reason ?c1"
  have fresh: "mq_exchanges ?c0 = []" "mq_subs ?c0 = []" "mq_ch ?live = Some 2" "mq_runCtx ?live = Some 0"
    by (simp_all add: rabbit_New_def rabbit_set_live_def rabbit_begin_def)
  have "got ?c0 ?live (Resetting 0 1 2 []) 0 {} 1 [] []"
    using got_opened [OF got_start, of ?c0] fresh by simp
  then have "got ?c0 ?c1 (Resetting 0 1 2 []) 0 {} 1 [fresh_cn sub 0 False] [Answered None]"
    using got_subscribed [of ?c0 ?live _ _ _ _ "[]" 2 0 sub] fresh by simp
  then have "got ?c0 ?c2 (Resetting 0 1 2 []) 0 {} 1 [(fresh_cn sub 0 False)\<lparr>cn_state := Died 0\<rparr>] [Answered None]"
    by (intro got_marked got_closed) simp_all
  then have "got ?c0 (?c2\<lparr>mq_dead := []\<rparr>) (Running 0) (Suc 0) {} 1
      [(fresh_cn sub 0 False)\<lparr>cn_state := Died 0\<rparr>] [Answered None]"
    by (intro got_ready got_reset)
  then obtain st where reach: "consumer_reach (\<lambda>_. 0) good_amqp (rsys0 ?c0 ())
      (rsys_at (?c2\<lparr>mq_dead := []\<rparr>) (Running 0) (Suc 0) {} 1 [(fresh_cn sub 0 False)\<lparr>cn_state := Died 0\<rparr>]
        [Answered None] st)"
    unfolding got_def by blast
  have healthy: "rabbit_Health good_amqp (?c2\<lparr>mq_dead := []\<rparr>) () = None"
    by (simp add: rabbit_Health_def no_channel_def rabbit_markConsumerDead_def rabbit_set_live_def)
  have one: "mq_subs (?c2\<lparr>mq_dead := []\<rparr>) = [sub]"
    by (simp add: rabbit_markConsumerDead_def rabbit_New_def rabbit_set_live_def rabbit_begin_def)
  show ?thesis by (rule exI, rule conjI, rule reach) (use healthy one in \<open>simp add: rsys_at_def\<close>)
qed

text \<open>
  The record of a death can also arrive late: a consumer that has checked its context and not yet
  written the list may do so after the next run has reset it. \<open>Health\<close> then fails although the
  subscription has a live consumer in the current run.
\<close>
theorem rabbit_stale_death:
  "\<exists>s. consumer_reach (\<lambda>_. 0) good_amqp (rsys0 ((rabbit_New rabbit_cfg0 [])\<lparr>mq_subs := [sub]\<rparr>) ()) s \<and>
     rs_run s = Running 1 \<and> rs_cancelled s = {0} \<and>
     rs_consumers s = [(fresh_cn sub 0 True)\<lparr>cn_state := Died 2\<rparr>, fresh_cn sub 1 True] \<and>
     rabbit_Health good_amqp (rs_comp s) () \<noteq> None"
proof -
  let ?c0 = "(rabbit_New rabbit_cfg0 [])\<lparr>mq_subs := [sub]\<rparr>"
  let ?run = "\<lambda>x c. (rabbit_set_live 1 2 (rabbit_begin 1 x c))\<lparr>mq_dead := []\<rparr>"
  let ?c1 = "?run 0 ?c0"
  let ?c2 = "?run 1 (rabbit_finish ?c1)"
  let ?c3 = "rabbit_markConsumerDead (sub_queue sub) consumer_closed_reason ?c2"
  have subs: "mq_exchanges ?c0 = []" "mq_subs ?c0 = [sub]"
    "mq_exchanges (rabbit_finish ?c1) = []" "mq_subs (rabbit_finish ?c1) = [sub]"
    by (simp_all add: rabbit_New_def rabbit_set_live_def rabbit_begin_def rabbit_finish_def)
  have "got ?c0 (rabbit_set_live 1 2 (rabbit_begin 1 0 ?c0)) (Resetting 0 1 2 [sub]) 0 {} 1 [] []"
    using got_opened [OF got_start, of ?c0] subs by simp
  then have "got ?c0 ?c1 (Running 0) (Suc 0) {} 1 [fresh_cn sub 0 True] []"
    using got_ready [OF got_bound [OF got_reset]] by fastforce
  then have "got ?c0 ?c1 (Running 0) (Suc 0) {} 1 [(fresh_cn sub 0 True)\<lparr>cn_state := Marking\<rparr>] []"
    using got_closed by simp
  then have "got ?c0 (rabbit_finish ?c1) NoRun (Suc 0) {0} 1 [(fresh_cn sub 0 True)\<lparr>cn_state := Marking\<rparr>] []"
    by (rule got_ended)
  from got_opened [OF this] subs
  have "got ?c0 (rabbit_set_live 1 2 (rabbit_begin 1 1 (rabbit_finish ?c1))) (Resetting 1 1 2 [sub]) (Suc 0) {0} 2
      [(fresh_cn sub 0 True)\<lparr>cn_state := Marking\<rparr>] []"
    by (simp add: numeral_2_eq_2)
  then have "got ?c0 ?c2 (Running 1) 2 {0} 2 [(fresh_cn sub 0 True)\<lparr>cn_state := Marking\<rparr>, fresh_cn sub 1 True] []"
    using got_ready [OF got_bound [OF got_reset]] by (fastforce simp: numeral_2_eq_2)
  then have "got ?c0 ?c3 (Running 1) 2 {0} 2 [(fresh_cn sub 0 True)\<lparr>cn_state := Died 2\<rparr>, fresh_cn sub 1 True] []"
    by (rule got_marked)
  then obtain st where reach: "consumer_reach (\<lambda>_. 0) good_amqp (rsys0 ?c0 ()) (rsys_at ?c3 (Running 1) 2 {0} 2
      [(fresh_cn sub 0 True)\<lparr>cn_state := Died 2\<rparr>, fresh_cn sub 1 True] [] st)"
    unfolding got_def by blast
  have sick: "rabbit_Health good_amqp ?c3 () \<noteq> None"
    by (rule dead_unhealthy [of "sub_queue sub"]) simp
  show ?thesis by (rule exI, rule conjI, rule reach) (use sick in \<open>simp add: rsys_at_def del: not_None_eq\<close>)
qed

theorem rabbit_dead_consumer_unhealthy_witness:
  "\<exists>s. consumer_reach (\<lambda>_. 0) good_amqp (rsys0 (rabbit_New rabbit_cfg0 []) ()) s \<and>
     at_state s 0 (Died 1) \<and> \<not> cancelled s 0 \<and> rabbit_Health good_amqp (rs_comp s) () \<noteq> None"
proof -
  let ?c0 = "rabbit_New rabbit_cfg0 []"
  let ?live = "(rabbit_set_live 1 2 (rabbit_begin 1 0 ?c0))\<lparr>mq_dead := []\<rparr>"
  let ?c1 = "?live\<lparr>mq_subs := mq_subs ?live @ [jobs_sub]\<rparr>"
  let ?c2 = "rabbit_markConsumerDead (sub_queue jobs_sub) consumer_closed_reason ?c1"
  let ?dead = "[(fresh_cn jobs_sub 0 False)\<lparr>cn_state := Died (Suc 0)\<rparr>]"
  have fresh: "mq_exchanges ?c0 = []" "mq_subs ?c0 = []" "mq_ch ?live = Some 2" "mq_runCtx ?live = Some 0"
    by (simp_all add: rabbit_New_def rabbit_set_live_def rabbit_begin_def)
  have "got ?c0 ?live (Running 0) (Suc 0) {} 1 [] []"
    using got_opened [OF got_start, of ?c0] fresh by (intro got_ready got_reset) simp
  then have "got ?c0 ?c1 (Running 0) (Suc 0) {} 1 [fresh_cn jobs_sub 0 False] [Answered None]"
    using got_subscribed [of ?c0 ?live _ _ _ _ "[]" 2 0 jobs_sub] fresh by simp
  then have "got ?c0 ?c2 (Running 0) (Suc 0) {} 1 ?dead [Answered None]"
    by (intro got_marked got_closed) simp_all
  then obtain st where reach: "consumer_reach (\<lambda>_. 0) good_amqp (rsys0 ?c0 ())
      (rsys_at ?c2 (Running 0) (Suc 0) {} 1 ?dead [Answered None] st)" (is "consumer_reach _ _ _ ?s")
    unfolding got_def by blast
  have dead: "at_state ?s 0 (Died (rs_resets ?s))" "at_state ?s 0 (Died 1)" "\<not> cancelled ?s 0"
    by (simp_all add: rsys_at_def at_state_def cancelled_def)
  with rabbit_dead_consumer_unhealthy [OF reach, of "()"] reach show ?thesis by blast
qed

end
