(* ===== verification/Rabbit_Lifecycle.thy ===== *)
theory Rabbit_Lifecycle
  imports Rabbit_Proofs
begin

text \<open>
  The \<open>Start\<close> and \<open>Stop\<close> of the rabbitmq component as goroutines. They differ from the common
  protocol: the connection is published before the topology is declared, so that a \<open>Start\<close> may
  fail after it, and there is a second signal beside the stop channel, the run's context, which
  the consumers listen to. A step is a critical section, a channel operation, a cancellation, or
  a stretch of broker calls. Connections are numbered, and the channel opened on one has its number.
  \<open>rl_shut\<close> lists the connections that \<open>Stop\<close>s have closed, \<open>rl_own_shut\<close> those that runs of \<open>Start\<close>
  have closed themselves, on their way out of a failed set-up.
\<close>

text \<open>
  A run of \<open>Start\<close>: dialling; declaring and binding; past the critical section of a failed
  binding; blocked; past its last \<open>select\<close> and the cancellation; returned. A run of \<open>Stop\<close>: past
  its critical section; past the cancellation; about to close the channel; about to close the
  connection; returned.
\<close>

datatype rpc =
    Dialling chan nat
  | Setup chan nat handle
  | Aborting nat handle goerr
  | RBlocked chan nat
  | Woken nat
  | RDone nat "goerr option"
  | SSwapped chan "handle option" "nat option"
  | SCancelled chan "handle option"
  | SClosing chan "handle option"
  | SSignalled "handle option"
  | SDone

record rl =
  rl_comp :: rabbit_comp
  rl_pcs :: "rpc list"
  rl_closed :: "chan set"
  rl_parents :: "nat set"
  rl_cancelled :: "nat set"
  rl_next_chan :: chan
  rl_next_ctx :: nat
  rl_next_conn :: handle
  rl_shut :: "handle list"
  rl_own_shut :: "handle list"
  rl_readies :: "nat list"
  rl_panicked :: bool

text \<open>The context of a run of \<open>Start\<close> that has not returned.\<close>

fun run_ctx :: "rpc \<Rightarrow> nat option" where
  "run_ctx (Dialling ch x) = Some x"
| "run_ctx (Setup ch x h) = Some x"
| "run_ctx (Aborting x h e) = Some x"
| "run_ctx (RBlocked ch x) = Some x"
| "run_ctx (Woken x) = Some x"
| "run_ctx _ = None"

definition at_pc :: "rl \<Rightarrow> nat \<Rightarrow> rpc \<Rightarrow> bool" where
  "at_pc s t p \<longleftrightarrow> t < length (rl_pcs s) \<and> rl_pcs s ! t = p"

definition go :: "nat \<Rightarrow> rpc \<Rightarrow> rl \<Rightarrow> rl" where
  "go t p s = s\<lparr>rl_pcs := (rl_pcs s)[t := p]\<rparr>"

text \<open>
  With \<open>solo\<close> the schedule is a supervisor's, which calls \<open>Start\<close> when no run of it is in progress.
  A run's context is cancelled with the parent context it was given (\<open>parent_done\<close>), by \<open>Stop\<close>, and
  by the run itself.
\<close>

inductive rl_step :: "bool \<Rightarrow> rl \<Rightarrow> rl \<Rightarrow> bool" for solo :: bool where
  begins: "\<forall>p \<in> set (rl_pcs s). solo \<longrightarrow> run_ctx p = None \<Longrightarrow>
     rl_step solo s (s\<lparr>rl_comp := rabbit_begin (rl_next_chan s) (rl_next_ctx s) (rl_comp s),
       rl_next_chan := Suc (rl_next_chan s), rl_next_ctx := Suc (rl_next_ctx s),
       rl_pcs := rl_pcs s @ [Dialling (rl_next_chan s) (rl_next_ctx s)]\<rparr>)"
| parent_done: "rl_step solo s
     (s\<lparr>rl_parents := insert x (rl_parents s), rl_cancelled := insert x (rl_cancelled s)\<rparr>)"
| dial_fails: "at_pc s t (Dialling ch x) \<Longrightarrow> rl_step solo s (go t (RDone x (Some e)) s)"
| dial_cancelled: "at_pc s t (Dialling ch x) \<Longrightarrow> x \<in> rl_parents s \<Longrightarrow>
     rl_step solo s (go t (RDone x None) s)"
| goes_live: "at_pc s t (Dialling ch x) \<Longrightarrow>
     rl_step solo s (go t (Setup ch x (rl_next_conn s))
       (s\<lparr>rl_comp := rabbit_set_live (rl_next_conn s) (rl_next_conn s) (rl_comp s),
          rl_next_conn := Suc (rl_next_conn s)\<rparr>))"
| declare_fails: "at_pc s t (Setup ch x h) \<Longrightarrow>
     rl_step solo s (go t (RDone x (Some e)) (s\<lparr>rl_own_shut := rl_own_shut s @ [h]\<rparr>))"
| bind_fails: "at_pc s t (Setup ch x h) \<Longrightarrow>
     rl_step solo s (go t (Aborting x h e)
       (s\<lparr>rl_comp := rabbit_unset (rl_comp s), rl_cancelled := insert x (rl_cancelled s)\<rparr>))"
| aborts: "at_pc s t (Aborting x h e) \<Longrightarrow>
     rl_step solo s (go t (RDone x (Some e)) (s\<lparr>rl_own_shut := rl_own_shut s @ [h]\<rparr>))"
| calls_ready: "at_pc s t (Setup ch x h) \<Longrightarrow>
     rl_step solo s (go t (RBlocked ch x) (s\<lparr>rl_readies := rl_readies s @ [t]\<rparr>))"
| wakes: "at_pc s t (RBlocked ch x) \<Longrightarrow> ch \<in> rl_closed s \<or> x \<in> rl_parents s \<Longrightarrow>
     rl_step solo s (go t (Woken x) (s\<lparr>rl_cancelled := insert x (rl_cancelled s)\<rparr>))"
| finishes: "at_pc s t (Woken x) \<Longrightarrow>
     rl_step solo s (go t (RDone x None) (s\<lparr>rl_comp := rabbit_finish (rl_comp s)\<rparr>))"
| stops: "rl_step solo s
     (s\<lparr>rl_comp := rabbit_swap (rl_next_chan s) (rl_comp s),
        rl_closed := insert (rl_next_chan s) (rl_closed s), rl_next_chan := Suc (rl_next_chan s),
        rl_pcs := rl_pcs s @
          [SSwapped (mq_stopCh (rl_comp s)) (mq_conn (rl_comp s)) (mq_runCancel (rl_comp s))]\<rparr>)"
| cancels: "at_pc s t (SSwapped ch h cx) \<Longrightarrow>
     rl_step solo s (go t (SCancelled ch h) (s\<lparr>rl_cancelled := set_option cx \<union> rl_cancelled s\<rparr>))"
| sees_closed: "at_pc s t (SCancelled ch h) \<Longrightarrow> ch \<in> rl_closed s \<Longrightarrow> rl_step solo s (go t (SSignalled h) s)"
| sees_open: "at_pc s t (SCancelled ch h) \<Longrightarrow> ch \<notin> rl_closed s \<Longrightarrow> rl_step solo s (go t (SClosing ch h) s)"
| closes: "at_pc s t (SClosing ch h) \<Longrightarrow>
     rl_step solo s (go t (SSignalled h) (s\<lparr>rl_closed := insert ch (rl_closed s),
       rl_panicked := (rl_panicked s \<or> ch \<in> rl_closed s)\<rparr>))"
| releases: "at_pc s t (SSignalled h) \<Longrightarrow>
     rl_step solo s (go t SDone (s\<lparr>rl_shut := rl_shut s @ (case h of None \<Rightarrow> [] | Some x \<Rightarrow> [x])\<rparr>))"

inductive_cases rl_stepE: "rl_step solo s s'"

inductive rl_reach :: "bool \<Rightarrow> rabbit_comp \<Rightarrow> rl \<Rightarrow> bool" for solo :: bool and c :: rabbit_comp where
  init: "rl_reach solo c \<lparr>rl_comp = c, rl_pcs = [], rl_closed = {}, rl_parents = {}, rl_cancelled = {}, rl_next_chan = 1,
     rl_next_ctx = 0, rl_next_conn = 0, rl_shut = [], rl_own_shut = [], rl_readies = [], rl_panicked = False\<rparr>"
| step: "rl_reach solo c s \<Longrightarrow> rl_step solo s s' \<Longrightarrow> rl_reach solo c s'"

section \<open>Invariants\<close>

fun sholds :: "rpc \<Rightarrow> chan option" where
  "sholds (SSwapped ch h cx) = Some ch"
| "sholds (SCancelled ch h) = Some ch"
| "sholds (SClosing ch h) = Some ch"
| "sholds _ = None"

fun scarries :: "rpc \<Rightarrow> handle option" where
  "scarries (SSwapped ch h cx) = h"
| "scarries (SCancelled ch h) = h"
| "scarries (SClosing ch h) = h"
| "scarries (SSignalled h) = h"
| "scarries _ = None"

definition sholder :: "rpc list \<Rightarrow> nat \<Rightarrow> chan \<Rightarrow> bool" where
  "sholder ps t ch \<longleftrightarrow> t < length ps \<and> sholds (ps ! t) = Some ch"

definition scarrier :: "rpc list \<Rightarrow> nat \<Rightarrow> handle \<Rightarrow> bool" where
  "scarrier ps t h \<longleftrightarrow> t < length ps \<and> scarries (ps ! t) = Some h"

definition scloser :: "rpc list \<Rightarrow> nat \<Rightarrow> chan \<Rightarrow> bool" where
  "scloser ps t ch \<longleftrightarrow> t < length ps \<and> (\<exists>h. ps ! t = SClosing ch h)"

text \<open>As in the common protocol: an open channel is held by one \<open>Stop\<close> at most, and not the current one.\<close>

definition rl_chan_inv :: "rl \<Rightarrow> bool" where
  "rl_chan_inv s \<longleftrightarrow>
     mq_stopCh (rl_comp s) < rl_next_chan s \<and> (\<forall>ch \<in> rl_closed s. ch < rl_next_chan s) \<and>
     (\<forall>t ch. sholder (rl_pcs s) t ch \<longrightarrow> ch < rl_next_chan s) \<and>
     (\<forall>t ch. sholder (rl_pcs s) t ch \<longrightarrow> ch \<notin> rl_closed s \<longrightarrow> ch \<noteq> mq_stopCh (rl_comp s)) \<and>
     (\<forall>t u ch. sholder (rl_pcs s) t ch \<longrightarrow> sholder (rl_pcs s) u ch \<longrightarrow> ch \<notin> rl_closed s \<longrightarrow> t = u) \<and>
     (\<forall>t ch. scloser (rl_pcs s) t ch \<longrightarrow> ch \<notin> rl_closed s) \<and> \<not> rl_panicked s"

text \<open>The connection a run of \<open>Start\<close> has opened and closes itself if its set-up fails.\<close>

fun owns :: "rpc \<Rightarrow> handle option" where
  "owns (Setup ch x h) = Some h"
| "owns (Aborting x h e) = Some h"
| "owns _ = None"

definition owner :: "rpc list \<Rightarrow> nat \<Rightarrow> handle \<Rightarrow> bool" where
  "owner ps t h \<longleftrightarrow> t < length ps \<and> owns (ps ! t) = Some h"

text \<open>
  A connection that a \<open>Stop\<close> has taken is not the component's, nor another \<open>Stop\<close>'s, nor closed by
  one; a connection has one run that opened it, and this run closes it once at most.
\<close>

definition rl_conn_inv :: "rl \<Rightarrow> bool" where
  "rl_conn_inv s \<longleftrightarrow>
     (\<forall>h. mq_conn (rl_comp s) = Some h \<longrightarrow>
        h < rl_next_conn s \<and> h \<notin> set (rl_shut s) \<and> (\<forall>t. \<not> scarrier (rl_pcs s) t h)) \<and>
     (\<forall>t h. scarrier (rl_pcs s) t h \<longrightarrow> h < rl_next_conn s \<and> h \<notin> set (rl_shut s)) \<and>
     (\<forall>t u h. scarrier (rl_pcs s) t h \<longrightarrow> scarrier (rl_pcs s) u h \<longrightarrow> t = u) \<and>
     distinct (rl_shut s) \<and> (\<forall>h \<in> set (rl_shut s). h < rl_next_conn s)"

definition rl_own_inv :: "rl \<Rightarrow> bool" where
  "rl_own_inv s \<longleftrightarrow>
     (\<forall>t h. owner (rl_pcs s) t h \<longrightarrow> h < rl_next_conn s \<and> h \<notin> set (rl_own_shut s)) \<and>
     (\<forall>t u h. owner (rl_pcs s) t h \<longrightarrow> owner (rl_pcs s) u h \<longrightarrow> t = u) \<and>
     distinct (rl_own_shut s) \<and> (\<forall>h \<in> set (rl_own_shut s). h < rl_next_conn s)"

text \<open>A run that was ready is blocked, or its context is cancelled.\<close>

definition rl_ready_inv :: "rl \<Rightarrow> bool" where
  "rl_ready_inv s \<longleftrightarrow> distinct (rl_readies s) \<and>
     (\<forall>t \<in> set (rl_readies s). t < length (rl_pcs s) \<and>
        ((\<exists>ch x. rl_pcs s ! t = RBlocked ch x) \<or>
         (\<exists>x \<in> rl_cancelled s. rl_pcs s ! t = Woken x \<or> rl_pcs s ! t = RDone x None)))"

lemma go_sel [simp]:
  "rl_comp (go t p s) = rl_comp s" "rl_pcs (go t p s) = (rl_pcs s)[t := p]"
  "rl_closed (go t p s) = rl_closed s" "rl_cancelled (go t p s) = rl_cancelled s"
  "rl_parents (go t p s) = rl_parents s" "rl_next_chan (go t p s) = rl_next_chan s"
  "rl_next_ctx (go t p s) = rl_next_ctx s" "rl_next_conn (go t p s) = rl_next_conn s"
  "rl_shut (go t p s) = rl_shut s" "rl_own_shut (go t p s) = rl_own_shut s" "rl_readies (go t p s) = rl_readies s"
  "rl_panicked (go t p s) = rl_panicked s"
  by (simp_all add: go_def)

lemma rabbit_sections [simp]:
  "mq_stopCh (rabbit_begin ch x c) = ch" "mq_conn (rabbit_begin ch x c) = mq_conn c"
  "mq_runCancel (rabbit_begin ch x c) = Some x" "mq_runCtx (rabbit_begin ch x c) = Some x"
  "mq_stopCh (rabbit_set_live h k c) = mq_stopCh c" "mq_conn (rabbit_set_live h k c) = Some h"
  "mq_runCancel (rabbit_set_live h k c) = mq_runCancel c" "mq_runCtx (rabbit_set_live h k c) = mq_runCtx c"
  "mq_stopCh (rabbit_unset c) = mq_stopCh c" "mq_conn (rabbit_unset c) = None"
  "mq_stopCh (rabbit_finish c) = mq_stopCh c" "mq_conn (rabbit_finish c) = mq_conn c"
  "mq_stopCh (rabbit_swap ch c) = ch" "mq_conn (rabbit_swap ch c) = None"
  "mq_runCancel (rabbit_swap ch c) = mq_runCancel c" "mq_runCtx (rabbit_swap ch c) = mq_runCtx c"
  by (simp_all add: rabbit_begin_def rabbit_set_live_def rabbit_unset_def rabbit_finish_def rabbit_swap_def)

lemma sholder_simps [simp]:
  "sholder (ps @ [p]) u ch \<longleftrightarrow> sholder ps u ch \<or> u = length ps \<and> sholds p = Some ch"
  "t < length ps \<Longrightarrow> sholder (ps[t := p]) u ch \<longleftrightarrow> (if u = t then sholds p = Some ch else sholder ps u ch)"
  by (auto simp: sholder_def nth_append less_Suc_eq)

lemma scarrier_simps [simp]:
  "scarrier (ps @ [p]) u h \<longleftrightarrow> scarrier ps u h \<or> u = length ps \<and> scarries p = Some h"
  "t < length ps \<Longrightarrow> scarrier (ps[t := p]) u h \<longleftrightarrow> (if u = t then scarries p = Some h else scarrier ps u h)"
  by (auto simp: scarrier_def nth_append less_Suc_eq)

lemma scloser_simps [simp]:
  "scloser (ps @ [p]) u ch \<longleftrightarrow> scloser ps u ch \<or> u = length ps \<and> (\<exists>h. p = SClosing ch h)"
  "t < length ps \<Longrightarrow>
     scloser (ps[t := p]) u ch \<longleftrightarrow> (if u = t then \<exists>h. p = SClosing ch h else scloser ps u ch)"
  by (auto simp: scloser_def nth_append less_Suc_eq)

lemma owner_simps [simp]:
  "owner (ps @ [p]) u h \<longleftrightarrow> owner ps u h \<or> u = length ps \<and> owns p = Some h"
  "t < length ps \<Longrightarrow> owner (ps[t := p]) u h \<longleftrightarrow> (if u = t then owns p = Some h else owner ps u h)"
  by (auto simp: owner_def nth_append less_Suc_eq)

lemma scloser_sholder: "scloser ps t ch \<Longrightarrow> sholder ps t ch"
  by (auto simp: scloser_def sholder_def)

lemma at_end [simp]:
  "\<not> sholder ps (length ps) ch" "\<not> scarrier ps (length ps) h" "\<not> scloser ps (length ps) ch"
  "\<not> owner ps (length ps) h"
  by (simp_all add: sholder_def scarrier_def scloser_def owner_def)

text \<open>What a goroutine at a given point holds and carries.\<close>

lemma at_pcD:
  assumes "at_pc s t p"
  shows "t < length (rl_pcs s)" "rl_pcs s ! t = p"
    "sholder (rl_pcs s) t ch \<longleftrightarrow> sholds p = Some ch" "scarrier (rl_pcs s) t h \<longleftrightarrow> scarries p = Some h"
    "scloser (rl_pcs s) t ch \<longleftrightarrow> (\<exists>h. p = SClosing ch h)"
  using assms by (auto simp: at_pc_def sholder_def scarrier_def scloser_def)

lemma holds_at: "at_pc s t p \<Longrightarrow> sholds p = Some ch \<Longrightarrow> sholder (rl_pcs s) t ch"
  by (simp add: at_pc_def sholder_def)

lemma sole_holder:
  "rl_chan_inv s \<Longrightarrow> sholder (rl_pcs s) t ch \<Longrightarrow> sholder (rl_pcs s) u ch \<Longrightarrow> ch \<in> rl_closed s \<or> u = t"
  unfolding rl_chan_inv_def by blast

lemma rl_chan_inv_step: "rl_step solo s s' \<Longrightarrow> rl_chan_inv s \<Longrightarrow> rl_chan_inv s'"
proof (induction rule: rl_step.induct)
  case (stops s)
  then show ?case using scloser_sholder by (fastforce simp: rl_chan_inv_def less_Suc_eq)
next
  case (cancels s t ch h cx)
  from holds_at [OF cancels.hyps, of ch] show ?case
    using cancels sole_holder [OF cancels.prems] by (auto simp: rl_chan_inv_def at_pcD(1))
next
  case (sees_open s t ch h)
  from holds_at [OF sees_open.hyps(1), of ch] show ?case
    using sees_open sole_holder [OF sees_open.prems] by (auto simp: rl_chan_inv_def at_pcD(1))
next
  case (closes s t ch h)
  note at = at_pcD(1,2) [OF closes.hyps]
  then have held: "sholder (rl_pcs s) t ch" and here: "scloser (rl_pcs s) t ch"
    by (simp_all add: sholder_def scloser_def)
  then have fresh: "ch \<notin> rl_closed s" using closes.prems by (simp add: rl_chan_inv_def)
  have "u = t" if "scloser (rl_pcs s) u ch" for u
    using scloser_sholder [OF that] held fresh closes.prems unfolding rl_chan_inv_def by blast
  with at(1) held fresh closes.prems show ?case by (auto simp: rl_chan_inv_def)
qed (auto simp: rl_chan_inv_def less_Suc_eq at_pcD)

lemma carries_at: "at_pc s t p \<Longrightarrow> scarries p = Some h \<Longrightarrow> scarrier (rl_pcs s) t h"
  by (simp add: at_pc_def scarrier_def)

lemma rl_conn_inv_step: "rl_step solo s s' \<Longrightarrow> rl_conn_inv s \<Longrightarrow> rl_conn_inv s'"
proof (induction rule: rl_step.induct)
  case (cancels s t ch h cx)
  with carries_at [OF cancels.hyps] show ?case by (auto simp: rl_conn_inv_def at_pcD(1))
next
  case (sees_closed s t ch h)
  with carries_at [OF sees_closed.hyps(1)] show ?case by (auto simp: rl_conn_inv_def at_pcD(1))
next
  case (sees_open s t ch h)
  with carries_at [OF sees_open.hyps(1)] show ?case by (auto simp: rl_conn_inv_def at_pcD(1))
next
  case (closes s t ch h)
  with carries_at [OF closes.hyps] show ?case by (auto simp: rl_conn_inv_def at_pcD(1))
next
  case (releases s t h)
  with carries_at [OF releases.hyps] show ?case
    by (cases h) (auto simp: rl_conn_inv_def at_pcD(1))
qed (auto simp: rl_conn_inv_def less_Suc_eq at_pcD)

lemma owns_at: "at_pc s t p \<Longrightarrow> owner (rl_pcs s) t h \<longleftrightarrow> owns p = Some h"
  by (simp add: at_pc_def owner_def)

lemma rl_own_inv_step: "rl_step solo s s' \<Longrightarrow> rl_own_inv s \<Longrightarrow> rl_own_inv s'"
proof (induction rule: rl_step.induct)
  case (declare_fails s t ch x h e)
  with owns_at [OF declare_fails.hyps] show ?case by (auto simp: rl_own_inv_def at_pcD(1))
next
  case (bind_fails s t ch x h e)
  with owns_at [OF bind_fails.hyps] show ?case by (auto simp: rl_own_inv_def at_pcD(1))
next
  case (aborts s t x h e)
  with owns_at [OF aborts.hyps] show ?case by (auto simp: rl_own_inv_def at_pcD(1))
qed (auto simp: rl_own_inv_def less_Suc_eq at_pcD)

lemma rl_ready_inv_step: "rl_step solo s s' \<Longrightarrow> rl_ready_inv s \<Longrightarrow> rl_ready_inv s'"
  by (induction rule: rl_step.induct) (auto simp: rl_ready_inv_def at_pc_def nth_append nth_list_update)

text \<open>
  Under a supervisor one run of \<open>Start\<close> is in progress at most, its context is the one the
  component holds for \<open>Stop\<close> until it clears it, and its channel is the current one, or closed, or
  about to be closed by a \<open>Stop\<close>.
\<close>

fun waits_for :: "rpc \<Rightarrow> (chan \<times> nat) option" where
  "waits_for (Dialling ch x) = Some (ch, x)"
| "waits_for (Setup ch x h) = Some (ch, x)"
| "waits_for (RBlocked ch x) = Some (ch, x)"
| "waits_for _ = None"

definition active :: "rpc list \<Rightarrow> nat \<Rightarrow> bool" where
  "active ps t \<longleftrightarrow> t < length ps \<and> run_ctx (ps ! t) \<noteq> None"

definition waiter :: "rpc list \<Rightarrow> nat \<Rightarrow> chan \<Rightarrow> nat \<Rightarrow> bool" where
  "waiter ps t ch x \<longleftrightarrow> t < length ps \<and> waits_for (ps ! t) = Some (ch, x)"

definition rl_solo_inv :: "rl \<Rightarrow> bool" where
  "rl_solo_inv s \<longleftrightarrow>
     (\<forall>t u. active (rl_pcs s) t \<longrightarrow> active (rl_pcs s) u \<longrightarrow> t = u) \<and>
     (\<forall>t ch x. waiter (rl_pcs s) t ch x \<longrightarrow>
        mq_runCancel (rl_comp s) = Some x \<and> mq_runCtx (rl_comp s) = Some x \<and>
        (ch = mq_stopCh (rl_comp s) \<or> ch \<in> rl_closed s \<or> (\<exists>u. sholder (rl_pcs s) u ch)))"

lemma active_simps [simp]:
  "active (ps @ [p]) u \<longleftrightarrow> active ps u \<or> u = length ps \<and> run_ctx p \<noteq> None"
  "t < length ps \<Longrightarrow> active (ps[t := p]) u \<longleftrightarrow> (if u = t then run_ctx p \<noteq> None else active ps u)"
  by (auto simp: active_def nth_append less_Suc_eq)

lemma waiter_simps [simp]:
  "waiter (ps @ [p]) u ch x \<longleftrightarrow> waiter ps u ch x \<or> u = length ps \<and> waits_for p = Some (ch, x)"
  "t < length ps \<Longrightarrow>
     waiter (ps[t := p]) u ch x \<longleftrightarrow> (if u = t then waits_for p = Some (ch, x) else waiter ps u ch x)"
  by (auto simp: waiter_def nth_append less_Suc_eq)

lemma waiter_active: "waiter ps t ch x \<Longrightarrow> active ps t"
  by (cases "ps ! t") (simp_all add: waiter_def active_def)

lemma active_at: "at_pc s t p \<Longrightarrow> active (rl_pcs s) t \<longleftrightarrow> run_ctx p \<noteq> None"
  by (simp add: at_pc_def active_def)

lemma waiter_at: "at_pc s t p \<Longrightarrow> waiter (rl_pcs s) t ch x \<longleftrightarrow> waits_for p = Some (ch, x)"
  by (simp add: at_pc_def waiter_def)

text \<open>The step of one goroutine that keeps the component, or is the active one's.\<close>

lemma solo_move:
  assumes inv: "rl_solo_inv s" and at: "at_pc s t p"
    and pcs: "rl_pcs s' = (rl_pcs s)[t := q]" and run: "run_ctx q \<noteq> None \<Longrightarrow> run_ctx p \<noteq> None"
    and waits: "waits_for q \<noteq> None \<Longrightarrow> waits_for q = waits_for p"
    and kept: "run_ctx p = None \<or> waits_for q \<noteq> None \<Longrightarrow>
      mq_runCancel (rl_comp s') = mq_runCancel (rl_comp s) \<and> mq_runCtx (rl_comp s') = mq_runCtx (rl_comp s)"
    and stop: "mq_stopCh (rl_comp s') = mq_stopCh (rl_comp s)" and closed: "rl_closed s \<subseteq> rl_closed s'"
    and held: "\<And>ch. sholds p = Some ch \<Longrightarrow> sholds q = Some ch \<or> ch \<in> rl_closed s'"
  shows "rl_solo_inv s'"
proof -
  have t: "t < length (rl_pcs s)" using at by (simp add: at_pc_def)
  have one: "active (rl_pcs s) u \<Longrightarrow> active (rl_pcs s) v \<Longrightarrow> u = v" for u v
    using inv by (simp add: rl_solo_inv_def)
  have holder: "sholder (rl_pcs s') u ch \<or> ch \<in> rl_closed s'" if "sholder (rl_pcs s) u ch" for u ch
    using that held [of ch] at t by (cases "u = t") (auto simp: pcs at_pcD(3))
  have "mq_runCancel (rl_comp s') = Some x \<and> mq_runCtx (rl_comp s') = Some x \<and>
      (ch = mq_stopCh (rl_comp s') \<or> ch \<in> rl_closed s' \<or> (\<exists>u. sholder (rl_pcs s') u ch))"
    if w: "waiter (rl_pcs s') u ch x" for u ch x
  proof -
    have old: "waiter (rl_pcs s) u ch x"
      using w waits t at by (auto simp: pcs waiter_at split: if_splits)
    moreover have "run_ctx p = None \<or> waits_for q \<noteq> None"
    proof (cases "u = t")
      case True
      with w t show ?thesis by (simp add: pcs)
    next
      case False
      with one [OF waiter_active [OF old], of t] active_at [OF at] show ?thesis by blast
    qed
    ultimately show ?thesis
      using inv kept holder stop closed unfolding rl_solo_inv_def by (metis subsetD)
  qed
  moreover have "u = v" if "active (rl_pcs s') u" "active (rl_pcs s') v" for u v
    using that one run t active_at [OF at] by (auto simp: pcs split: if_splits)
  ultimately show ?thesis unfolding rl_solo_inv_def by blast
qed

lemma rl_solo_inv_step: "rl_step True s s' \<Longrightarrow> rl_solo_inv s \<Longrightarrow> rl_solo_inv s'"
proof (induction rule: rl_step.induct)
  case (begins s)
  then have none: "\<not> active (rl_pcs s) t" "\<not> waiter (rl_pcs s) t ch x" for t ch x
    using waiter_active [of "rl_pcs s" t ch x] by (auto simp: active_def)
  show ?case by (auto simp: rl_solo_inv_def none)
next
  case (parent_done s x)
  then show ?case by (simp add: rl_solo_inv_def)
next
  case (stops s)
  then show ?case by (fastforce simp: rl_solo_inv_def)
qed (rule solo_move, assumption, assumption, (auto; fail)+)+

section \<open>Properties\<close>

definition rabbit_fresh :: "rabbit_config \<Rightarrow> string list \<Rightarrow> rabbit_comp" where
  "rabbit_fresh cfg names = rabbit_New cfg (map rabbit_WithName names)"

lemma rabbit_fresh_sel [simp]:
  "mq_stopCh (rabbit_fresh cfg names) = 0" "mq_conn (rabbit_fresh cfg names) = None"
  "mq_dead (rabbit_fresh cfg names) = []"
  by (simp_all add: rabbit_fresh_def rabbit_New_def rabbit_WithName_def
      fold_options [of mq_stopCh rabbit_WithName] fold_options [of mq_conn rabbit_WithName]
      fold_options [of mq_dead rabbit_WithName])

lemma rl_reach_inv:
  "rl_reach solo (rabbit_fresh cfg names) s \<Longrightarrow>
     rl_chan_inv s \<and> rl_conn_inv s \<and> rl_own_inv s \<and> rl_ready_inv s"
proof (induction rule: rl_reach.induct)
  case init
  show ?case
    by (simp add: rl_chan_inv_def rl_conn_inv_def rl_own_inv_def rl_ready_inv_def sholder_def
        scarrier_def scloser_def owner_def)
next
  case (step s s')
  then show ?case using rl_chan_inv_step rl_conn_inv_step rl_own_inv_step rl_ready_inv_step by blast
qed

lemma rl_reach_solo: "rl_reach True (rabbit_fresh cfg names) s \<Longrightarrow> rl_solo_inv s"
proof (induction rule: rl_reach.induct)
  case init
  show ?case by (simp add: rl_solo_inv_def active_def waiter_def)
next
  case (step s s')
  then show ?case using rl_solo_inv_step by blast
qed

text \<open>
  C4. However \<open>Start\<close>s and \<open>Stop\<close>s of the rabbitmq component interleave: no stop channel is closed
  twice; a connection that a \<open>Stop\<close> has taken is neither the component's nor another \<open>Stop\<close>'s, no
  connection is closed by two \<open>Stop\<close>s, and the component never holds one that a \<open>Stop\<close> has closed.
  The run that opened a connection may close it too, when its set-up fails, but it does so once
  and no other run does. A run is ready at most once, and once it has left its last \<open>select\<close> its
  context, on which its consumers wait, is cancelled and it returns no error.
\<close>
theorem rabbit_protocol:
  assumes "rl_reach solo (rabbit_fresh cfg names) s"
  shows "\<not> rl_panicked s \<and> distinct (rl_readies s) \<and>
    distinct (rl_shut s) \<and> distinct (rl_own_shut s) \<and>
    (\<forall>h. mq_conn (rl_comp s) = Some h \<longrightarrow> h \<notin> set (rl_shut s)) \<and>
    (\<forall>t u h. scarrier (rl_pcs s) t h \<longrightarrow> h \<notin> set (rl_shut s) \<and>
       mq_conn (rl_comp s) \<noteq> Some h \<and> (scarrier (rl_pcs s) u h \<longrightarrow> t = u)) \<and>
    (\<forall>t u h. owner (rl_pcs s) t h \<longrightarrow> h \<notin> set (rl_own_shut s) \<and>
       (owner (rl_pcs s) u h \<longrightarrow> t = u)) \<and>
    (\<forall>t \<in> set (rl_readies s). (\<exists>ch x. at_pc s t (RBlocked ch x)) \<or>
       (\<exists>x \<in> rl_cancelled s. at_pc s t (Woken x) \<or> at_pc s t (RDone x None)))"
proof -
  from rl_reach_inv [OF assms] have inv: "rl_chan_inv s" "rl_conn_inv s" "rl_own_inv s" "rl_ready_inv s"
    by auto
  have "scarrier (rl_pcs s) t h \<longrightarrow> h \<notin> set (rl_shut s) \<and> mq_conn (rl_comp s) \<noteq> Some h \<and>
      (scarrier (rl_pcs s) u h \<longrightarrow> t = u)" for t u h
    using inv(2) unfolding rl_conn_inv_def by blast
  moreover have "owner (rl_pcs s) t h \<longrightarrow> h \<notin> set (rl_own_shut s) \<and>
      (owner (rl_pcs s) u h \<longrightarrow> t = u)" for t u h
    using inv(3) unfolding rl_own_inv_def by blast
  moreover have "distinct (rl_shut s)" "distinct (rl_own_shut s)"
    "mq_conn (rl_comp s) = Some h \<longrightarrow> h \<notin> set (rl_shut s)" for h
    using inv(2,3) unfolding rl_conn_inv_def rl_own_inv_def by blast+
  ultimately show ?thesis using inv(1,4) by (auto simp: rl_chan_inv_def rl_ready_inv_def at_pc_def)
qed

text \<open>
  C5. Under a supervisor a \<open>Stop\<close> ends the run and its consumers: while a run is blocked, the context a
  \<open>Stop\<close> takes out of the component to cancel is this run's; and once its channel has been
  replaced and every \<open>Stop\<close> is past its signal, the run can go on.
\<close>
theorem rabbit_stop_ends_run:
  assumes "rl_reach True (rabbit_fresh cfg names) s" and "at_pc s t (RBlocked ch x)"
  shows "mq_runCancel (rl_comp s) = Some x \<and> mq_runCtx (rl_comp s) = Some x \<and>
    (ch = mq_stopCh (rl_comp s) \<or> (\<exists>p \<in> set (rl_pcs s). sholds p \<noteq> None) \<or>
     rl_step True s (go t (Woken x) (s\<lparr>rl_cancelled := insert x (rl_cancelled s)\<rparr>)))"
proof -
  have "waiter (rl_pcs s) t ch x" by (simp add: waiter_at [OF assms(2)])
  with rl_reach_solo [OF assms(1)]
  have "mq_runCancel (rl_comp s) = Some x" "mq_runCtx (rl_comp s) = Some x"
    and heard: "ch = mq_stopCh (rl_comp s) \<or> ch \<in> rl_closed s \<or> (\<exists>u. sholder (rl_pcs s) u ch)"
    unfolding rl_solo_inv_def by blast+
  moreover have "\<exists>p \<in> set (rl_pcs s). sholds p \<noteq> None" if "sholder (rl_pcs s) u ch" for u
    using that by (auto simp: sholder_def intro!: bexI [of _ "rl_pcs s ! u"])
  ultimately show ?thesis using rl_step.wakes [OF assms(2)] by blast
qed

text \<open>States of concrete schedules: a run that is ready, and a \<open>Stop\<close> that overtakes one.\<close>

definition rl_at ::
  "rabbit_comp \<Rightarrow> rpc list \<Rightarrow> chan set \<Rightarrow> nat set \<Rightarrow> chan \<Rightarrow> handle \<Rightarrow> nat list \<Rightarrow> rl" where
  "rl_at c ps cl cx nch nconn rdy =
     \<lparr>rl_comp = c, rl_pcs = ps, rl_closed = cl, rl_parents = {}, rl_cancelled = cx,
      rl_next_chan = nch, rl_next_ctx = 1, rl_next_conn = nconn, rl_shut = [], rl_own_shut = [], rl_readies = rdy,
      rl_panicked = False\<rparr>"

lemma rl_begun: "rl_reach solo c (rl_at (rabbit_begin 1 0 c) [Dialling 1 0] {} {} 2 0 [])"
  using rl_reach.step [OF rl_reach.init rl_step.begins, of c solo] by (simp add: rl_at_def numeral_2_eq_2)

lemma rl_moves:
  assumes "rl_reach solo c0 (rl_at c ps cl cx nch nconn rdy)"
  shows rl_live: "t < length ps \<Longrightarrow> ps ! t = Dialling ch x \<Longrightarrow>
      rl_reach solo c0 (rl_at (rabbit_set_live nconn nconn c) (ps[t := Setup ch x nconn]) cl cx nch (Suc nconn) rdy)"
    and rl_ready: "t < length ps \<Longrightarrow> ps ! t = Setup ch x h \<Longrightarrow>
      rl_reach solo c0 (rl_at c (ps[t := RBlocked ch x]) cl cx nch nconn (rdy @ [t]))"
    and rl_wake: "t < length ps \<Longrightarrow> ps ! t = RBlocked ch x \<Longrightarrow> ch \<in> cl \<Longrightarrow>
      rl_reach solo c0 (rl_at c (ps[t := Woken x]) cl (insert x cx) nch nconn rdy)"
    and rl_finish: "t < length ps \<Longrightarrow> ps ! t = Woken x \<Longrightarrow>
      rl_reach solo c0 (rl_at (rabbit_finish c) (ps[t := RDone x None]) cl cx nch nconn rdy)"
    and rl_stop: "rl_reach solo c0 (rl_at (rabbit_swap nch c)
      (ps @ [SSwapped (mq_stopCh c) (mq_conn c) (mq_runCancel c)]) (insert nch cl) cx (Suc nch) nconn rdy)"
    and rl_cancel: "t < length ps \<Longrightarrow> ps ! t = SSwapped ch ho cc \<Longrightarrow>
      rl_reach solo c0 (rl_at c (ps[t := SCancelled ch ho]) cl (set_option cc \<union> cx) nch nconn rdy)"
    and rl_open: "t < length ps \<Longrightarrow> ps ! t = SCancelled ch ho \<Longrightarrow> ch \<notin> cl \<Longrightarrow>
      rl_reach solo c0 (rl_at c (ps[t := SClosing ch ho]) cl cx nch nconn rdy)"
    and rl_close: "t < length ps \<Longrightarrow> ps ! t = SClosing ch ho \<Longrightarrow> ch \<notin> cl \<Longrightarrow>
      rl_reach solo c0 (rl_at c (ps[t := SSignalled ho]) (insert ch cl) cx nch nconn rdy)"
    and rl_leave: "t < length ps \<Longrightarrow> ps ! t = SSignalled None \<Longrightarrow>
      rl_reach solo c0 (rl_at c (ps[t := SDone]) cl cx nch nconn rdy)"
  using rl_reach.step [OF assms rl_step.goes_live, of t ch x] rl_reach.step [OF assms rl_step.calls_ready, of t ch x h]
    rl_reach.step [OF assms rl_step.wakes, of t ch x] rl_reach.step [OF assms rl_step.finishes, of t x]
    rl_reach.step [OF assms rl_step.stops] rl_reach.step [OF assms rl_step.cancels, of t ch ho cc]
    rl_reach.step [OF assms rl_step.sees_open, of t ch ho] rl_reach.step [OF assms rl_step.closes, of t ch ho]
    rl_reach.step [OF assms rl_step.releases, of t None]
  by (simp_all add: rl_at_def go_def at_pc_def)

text \<open>
  C32. The gap of the common protocol is here too, and deeper: a \<open>Stop\<close> that runs while \<open>Start\<close> is
  dialling cancels the run's context; \<open>Start\<close> then publishes its connection, binds its
  subscriptions to the cancelled context, signals ready and returns. Nothing consumes, nothing
  has closed the connection, and as long as it lives \<open>Health\<close> says that all is well.
\<close>
theorem rabbit_early_stop:
  "\<exists>s. rl_reach True (rabbit_fresh cfg names) s \<and> rl_pcs s = [RDone 0 None, SDone] \<and>
     rl_readies s = [0] \<and> rl_cancelled s = {0} \<and> rl_shut s = [] \<and> rl_own_shut s = [] \<and>
     mq_conn (rl_comp s) = Some 0 \<and> mq_ch (rl_comp s) = Some 0 \<and>
     (rabbit_Health d (rl_comp s) b = None \<or> a_ConnClosed d 0 b \<or> a_ChClosed d 0 b)"
proof -
  let ?c0 = "rabbit_fresh cfg names"
  let ?c1 = "rabbit_swap 2 (rabbit_begin 1 0 ?c0)"
  have conn: "mq_stopCh (rabbit_begin 1 0 ?c0) = 1" "mq_conn (rabbit_begin 1 0 ?c0) = None"
    "mq_runCancel (rabbit_begin 1 0 ?c0) = Some 0" by simp_all
  have "rl_reach True ?c0 (rl_at ?c1 [Dialling 1 0, SSwapped 1 None (Some 0)] {2} {} 3 0 [])"
    using rl_stop [OF rl_begun [of True ?c0]] by simp
  from rl_cancel [OF this, of 1 1 None "Some 0"]
  have "rl_reach True ?c0 (rl_at ?c1 [Dialling 1 0, SCancelled 1 None] {2} {0} 3 0 [])" by simp
  from rl_open [OF this, of 1 1 None]
  have "rl_reach True ?c0 (rl_at ?c1 [Dialling 1 0, SClosing 1 None] {2} {0} 3 0 [])" by simp
  from rl_close [OF this, of 1 1 None]
  have "rl_reach True ?c0 (rl_at ?c1 [Dialling 1 0, SSignalled None] {1, 2} {0} 3 0 [])" by simp
  from rl_leave [OF this, of 1]
  have "rl_reach True ?c0 (rl_at ?c1 [Dialling 1 0, SDone] {1, 2} {0} 3 0 [])" by simp
  from rl_live [OF this, of 0 1 0]
  have "rl_reach True ?c0 (rl_at (rabbit_set_live 0 0 ?c1) [Setup 1 0 0, SDone] {1, 2} {0} 3 1 [])" by simp
  from rl_ready [OF this, of 0 1 0 0]
  have "rl_reach True ?c0 (rl_at (rabbit_set_live 0 0 ?c1) [RBlocked 1 0, SDone] {1, 2} {0} 3 1 [0])" by simp
  from rl_wake [OF this, of 0 1 0]
  have "rl_reach True ?c0 (rl_at (rabbit_set_live 0 0 ?c1) [Woken 0, SDone] {1, 2} {0} 3 1 [0])" by simp
  from rl_finish [OF this, of 0 0]
  have final: "rl_reach True ?c0 (rl_at (rabbit_finish (rabbit_set_live 0 0 ?c1)) [RDone 0 None, SDone] {1, 2} {0} 3 1 [0])"
    by simp
  show ?thesis
    by (rule exI, rule conjI, rule final)
      (auto simp: rl_at_def rabbit_Health_def no_channel_def rabbit_begin_def rabbit_set_live_def
        rabbit_finish_def rabbit_swap_def)
qed

theorem rabbit_stop_ends_run_witness:
  "\<exists>s. rl_reach True (rabbit_fresh rabbit_cfg0 []) s \<and> at_pc s 0 (RBlocked 1 0) \<and>
     mq_runCancel (rl_comp s) = Some 0 \<and> rl_readies s = [0]"
proof -
  let ?s = "rl_at (rabbit_set_live 0 0 (rabbit_begin 1 0 (rabbit_fresh rabbit_cfg0 []))) [RBlocked 1 0] {} {} 2 1 [0]"
  have s: "rl_reach True (rabbit_fresh rabbit_cfg0 []) ?s"
    using rl_ready [OF rl_live [OF rl_begun [of True "rabbit_fresh rabbit_cfg0 []"], of 0 1 0], of 0 1 0 0] by simp
  have at: "at_pc ?s 0 (RBlocked 1 0)" by (simp add: at_pc_def rl_at_def)
  from rabbit_stop_ends_run [OF s at] s at show ?thesis by (intro exI [of _ ?s]) (simp add: rl_at_def)
qed

theorem rabbit_protocol_witness:
  "\<exists>s. rl_reach False (rabbit_fresh rabbit_cfg0 []) s \<and> rl_readies s = [0] \<and> \<not> rl_panicked s"
proof -
  let ?s = "rl_at (rabbit_set_live 0 0 (rabbit_begin 1 0 (rabbit_fresh rabbit_cfg0 []))) [RBlocked 1 0] {} {} 2 1 [0]"
  have s: "rl_reach False (rabbit_fresh rabbit_cfg0 []) ?s"
    using rl_ready [OF rl_live [OF rl_begun [of False "rabbit_fresh rabbit_cfg0 []"], of 0 1 0], of 0 1 0 0] by simp
  from rabbit_protocol [OF s] s show ?thesis by (intro exI [of _ ?s]) (simp add: rl_at_def)
qed

end
