(* ===== verification/Grpc.thy ===== *)
theory Grpc
  imports Lifecycle Tls
begin

text \<open>
  The grpc server component: \<open>Config\<close> and the server options built from it, the TLS
  credentials, and \<open>Start\<close>, its context watcher and \<open>Stop\<close> as a system of goroutines. grpc-go's
  server is a number; that \<open>Serve\<close> blocks until the server is stopped, or fails, is the only
  fact used of it.
\<close>

section \<open>Configuration\<close>

record grpc_config =
  gc_Host :: string
  gc_Port :: int
  gc_EnableReflection :: bool
  gc_MaxRecvMsgSizeMB :: int
  gc_MaxSendMsgSizeMB :: int
  gc_KeepaliveTime :: duration
  gc_KeepaliveTimeout :: duration
  gc_MaxConnectionIdle :: duration
  gc_StopTimeout :: duration
  gc_MaxConnectionAge :: duration
  gc_TLS :: bool
  gc_TLSCertFile :: string
  gc_TLSKeyFile :: string
  gc_TLSClientCAFile :: string
  gc_TLSMinVersion :: string

definition grpc_addr :: "grpc_config \<Rightarrow> string" where
  "grpc_addr c =
     (let host = (if gc_Host c = '''' then ''0.0.0.0'' else gc_Host c);
          port = (if gc_Port c = 0 then 9090 else gc_Port c)
      in host_port host port)"

definition grpc_maxRecvMsgSizeBytes :: "grpc_config \<Rightarrow> int" where
  "grpc_maxRecvMsgSizeBytes c =
     (if gc_MaxRecvMsgSizeMB c > 0 then wrap64 (wrap64 (gc_MaxRecvMsgSizeMB c * 1024) * 1024)
      else 4 * 1024 * 1024)"

definition grpc_maxSendMsgSizeBytes :: "grpc_config \<Rightarrow> int" where
  "grpc_maxSendMsgSizeBytes c =
     (if gc_MaxSendMsgSizeMB c > 0 then wrap64 (wrap64 (gc_MaxSendMsgSizeMB c * 1024) * 1024)
      else 4 * 1024 * 1024)"

definition grpc_stopTimeout :: "grpc_config \<Rightarrow> duration" where
  "grpc_stopTimeout c = (if gc_StopTimeout c > 0 then gc_StopTimeout c else 10 * second)"

definition grpc_keepaliveTime :: "grpc_config \<Rightarrow> duration" where
  "grpc_keepaliveTime c = (if gc_KeepaliveTime c > 0 then gc_KeepaliveTime c else 2 * minute)"

definition grpc_keepaliveTimeout :: "grpc_config \<Rightarrow> duration" where
  "grpc_keepaliveTimeout c = (if gc_KeepaliveTimeout c > 0 then gc_KeepaliveTimeout c else 20 * second)"

definition grpc_maxConnectionIdle :: "grpc_config \<Rightarrow> duration" where
  "grpc_maxConnectionIdle c = (if gc_MaxConnectionIdle c > 0 then gc_MaxConnectionIdle c else 5 * minute)"

text \<open>Server options: each sets its own field of the server, so a later one overwrites an earlier.\<close>

record server_params =
  sp_Time :: duration
  sp_Timeout :: duration
  sp_MaxConnectionIdle :: duration
  sp_MaxConnectionAge :: duration
  sp_MaxConnectionAgeGrace :: duration

datatype server_option =
    MaxRecvMsgSize int
  | MaxSendMsgSize int
  | KeepaliveParams server_params
  | KeepaliveEnforcementPolicy duration bool
  | Creds tls_config
  | OtherOption nat

record server_settings =
  ss_recv :: int
  ss_send :: int
  ss_keepalive :: "server_params option"
  ss_enforcement :: "(duration \<times> bool) option"
  ss_creds :: "tls_config option"
  ss_other :: "nat list"

fun apply_option :: "server_option \<Rightarrow> server_settings \<Rightarrow> server_settings" where
  "apply_option (MaxRecvMsgSize n) s = s\<lparr>ss_recv := n\<rparr>"
| "apply_option (MaxSendMsgSize n) s = s\<lparr>ss_send := n\<rparr>"
| "apply_option (KeepaliveParams p) s = s\<lparr>ss_keepalive := Some p\<rparr>"
| "apply_option (KeepaliveEnforcementPolicy t b) s = s\<lparr>ss_enforcement := Some (t, b)\<rparr>"
| "apply_option (Creds t) s = s\<lparr>ss_creds := Some t\<rparr>"
| "apply_option (OtherOption k) s = s\<lparr>ss_other := ss_other s @ [k]\<rparr>"

definition grpc_keepaliveOptions :: "grpc_config \<Rightarrow> server_option list" where
  "grpc_keepaliveOptions c =
     (let kp = \<lparr>sp_Time = grpc_keepaliveTime c, sp_Timeout = grpc_keepaliveTimeout c,
                sp_MaxConnectionIdle = grpc_maxConnectionIdle c, sp_MaxConnectionAge = 0,
                sp_MaxConnectionAgeGrace = 0\<rparr>;
          kp = (if gc_MaxConnectionAge c > 0
                then kp\<lparr>sp_MaxConnectionAge := gc_MaxConnectionAge c,
                        sp_MaxConnectionAgeGrace := 5 * second\<rparr> else kp)
      in [MaxRecvMsgSize (grpc_maxRecvMsgSizeBytes c), MaxSendMsgSize (grpc_maxSendMsgSizeBytes c),
          KeepaliveParams kp, KeepaliveEnforcementPolicy (5 * second) True])"

definition grpc_tlsCredentials :: "tls_env \<Rightarrow> grpc_config \<Rightarrow> tls_config option result" where
  "grpc_tlsCredentials env c =
     (if \<not> gc_TLS c then Inr None
      else if gc_TLSCertFile c = '''' \<or> gc_TLSKeyFile c = '''' then
        Inl (Errorf ''grpc: TLS requires both TLSCertFile and TLSKeyFile'' [] [])
      else case tls_LoadX509KeyPair env (gc_TLSCertFile c) (gc_TLSKeyFile c) of
        Inl e \<Rightarrow> Inl (Errorf ''grpc: load TLS cert/key: %w'' [] [e])
      | Inr cert \<Rightarrow>
          (case min_version (gc_TLSMinVersion c) of
             None \<Rightarrow> Inl (Errorf ''grpc: unsupported TLSMinVersion %q (want \"1.2\" or \"1.3\")''
                       [AStr (gc_TLSMinVersion c)] [])
           | Some v \<Rightarrow>
               (let cfg = \<lparr>tc_InsecureSkipVerify = False, tc_MinVersion = v, tc_ServerName = '''',
                           tc_RootCAs = None, tc_Certificates = [cert], tc_ClientCAs = None,
                           tc_ClientAuth = NoClientCert\<rparr>
                in if gc_TLSClientCAFile c \<noteq> '''' then
                     (case load_pool env ''grpc: read TLSClientCAFile %q: %w''
                        ''grpc: TLSClientCAFile %q: no PEM certificates found'' (gc_TLSClientCAFile c) of
                        Inl e \<Rightarrow> Inl e
                      | Inr pool \<Rightarrow>
                          Inr (Some (cfg\<lparr>tc_ClientCAs := Some pool,
                                         tc_ClientAuth := RequireAndVerifyClientCert\<rparr>)))
                   else Inr (Some cfg))))"

section \<open>The component\<close>

record grpc_comp =
  gr_cfg :: grpc_config
  gr_name :: string
  gr_server :: "handle option"
  gr_serving :: bool
  gr_regs :: "nat list"
  gr_opts :: "server_option list"
  gr_stopCh :: chan

definition grpc_New :: "grpc_config \<Rightarrow> (grpc_comp \<Rightarrow> grpc_comp) list \<Rightarrow> grpc_comp" where
  "grpc_New cfg opts =
     fold (\<lambda>opt c. opt c) opts
       \<lparr>gr_cfg = cfg, gr_name = ''grpc'', gr_server = None, gr_serving = False, gr_regs = [],
        gr_opts = [], gr_stopCh = 0\<rparr>"

definition grpc_WithName :: "string \<Rightarrow> grpc_comp \<Rightarrow> grpc_comp" where
  "grpc_WithName name c = c\<lparr>gr_name := name\<rparr>"

definition grpc_Name :: "grpc_comp \<Rightarrow> string" where "grpc_Name c = gr_name c"

definition grpc_Server :: "grpc_comp \<Rightarrow> handle option" where "grpc_Server c = gr_server c"

definition grpc_Register :: "nat \<Rightarrow> grpc_comp \<Rightarrow> grpc_comp" where
  "grpc_Register fn c = c\<lparr>gr_regs := gr_regs c @ [fn]\<rparr>"

definition grpc_AddOption :: "server_option \<Rightarrow> grpc_comp \<Rightarrow> grpc_comp" where
  "grpc_AddOption opt c = c\<lparr>gr_opts := gr_opts c @ [opt]\<rparr>"

text \<open>The critical sections of \<open>Start\<close> and of \<open>Stop\<close> (the context watcher has the same one).\<close>

definition grpc_begin :: "chan \<Rightarrow> grpc_comp \<Rightarrow> grpc_comp" where
  "grpc_begin ch c = c\<lparr>gr_stopCh := ch\<rparr>"

definition grpc_publish :: "handle \<Rightarrow> grpc_comp \<Rightarrow> grpc_comp" where
  "grpc_publish srv c = c\<lparr>gr_server := Some srv, gr_serving := True\<rparr>"

definition grpc_swap :: "chan \<Rightarrow> grpc_comp \<Rightarrow> grpc_comp" where
  "grpc_swap ch c = c\<lparr>gr_stopCh := ch, gr_server := None, gr_serving := False\<rparr>"

text \<open>
  What \<open>Start\<close> does between them: the port, the options, the server. The result is the options
  given to \<open>NewServer\<close> and the registration functions in the order they run (the flag: the
  listener is open afterwards); the health service
  comes first, and reflection after it when it is enabled.
\<close>

datatype registration = HealthService | ReflectionService | UserService nat

definition grpc_serverOptions :: "grpc_comp \<Rightarrow> tls_config option \<Rightarrow> server_option list" where
  "grpc_serverOptions c creds =
     gr_opts c @ grpc_keepaliveOptions (gr_cfg c) @
     (case creds of None \<Rightarrow> [] | Some t \<Rightarrow> [Creds t])"

definition grpc_registrations :: "grpc_comp \<Rightarrow> registration list" where
  "grpc_registrations c =
     HealthService # (if gc_EnableReflection (gr_cfg c) then [ReflectionService] else []) @
     map UserService (gr_regs c)"

definition grpc_build ::
  "tls_env \<Rightarrow> goerr option \<Rightarrow> grpc_comp \<Rightarrow> (server_option list \<times> registration list) result \<times> bool" where
  "grpc_build env listen_err c =
     (case listen_err of
        Some e \<Rightarrow> (Inl (Errorf ''grpc: listen %s: %w'' [AStr (grpc_addr (gr_cfg c))] [e]), False)
      | None \<Rightarrow>
          (case grpc_tlsCredentials env (gr_cfg c) of
             Inl e \<Rightarrow> (Inl e, False)
           | Inr creds \<Rightarrow> (Inr (grpc_serverOptions c creds, grpc_registrations c), True)))"

definition grpc_Health :: "grpc_comp \<Rightarrow> goerr option" where
  "grpc_Health c =
     (if \<not> gr_serving c
      then Some (Errorf ''grpc: server is not serving on %s'' [AStr (grpc_addr (gr_cfg c))] [])
      else None)"

section \<open>The goroutines\<close>

text \<open>
  A run of \<open>Start\<close>: binding and building; in \<open>Serve\<close>; in the last \<open>select\<close>; returned. A run of
  \<open>Stop\<close>, or of the context watcher once its context is done: holding the stop channel and the
  server it took out; past the check that the channel is open; about to drain the server; gone.
  Every \<open>Start\<close> that serves has one watcher, which knows its channel and its \<open>Start\<close>.
\<close>

datatype gpc =
    Binding chan
  | Serving chan handle
  | Waiting chan
  | GReturned "goerr option"
  | Holding chan "handle option"
  | AboutToClose chan "handle option"
  | Draining "handle option"
  | GDone

datatype gwatch = Watching chan nat | WPast gpc

record gsys =
  g_comp :: grpc_comp
  g_closed :: "chan set"
  g_next_chan :: chan
  g_next_srv :: handle
  g_pcs :: "gpc list"
  g_watch :: "gwatch list"
  g_ctx_done :: "nat set"
  g_drained :: "handle list"
  g_readies :: "nat list"
  g_panicked :: bool

text \<open>
  \<open>GFail t env e\<close> and \<open>GPublish t env\<close>: run \<open>t\<close> has tried to build its server, with the files of \<open>env\<close>
  and the answer \<open>e\<close> of \<open>net.Listen\<close>. \<open>GServe t e\<close>: \<open>Serve\<close> of run \<open>t\<close> returns \<open>e\<close>; it returns nil only once its server has been
  stopped. \<open>GSignal\<close> and \<open>WSignal\<close> are the remaining steps of a \<open>Stop\<close> and of a watcher.
\<close>

datatype gevent =
    GStart
  | GFail nat tls_env "goerr option"
  | GPublish nat tls_env
  | GServe nat "goerr option"
  | GWake nat
  | GCancel nat
  | GStop
  | GSignal nat
  | WCancelled nat
  | WStopped nat
  | WSignal nat

text \<open>The steps after the critical section, common to \<open>Stop\<close> and the watcher.\<close>

fun signal_step :: "gpc \<Rightarrow> gsys \<Rightarrow> (gpc \<times> gsys) option" where
  "signal_step (Holding ch h) s =
     Some (if ch \<in> g_closed s then Draining h else AboutToClose ch h, s)"
| "signal_step (AboutToClose ch h) s =
     Some (Draining h, s\<lparr>g_closed := insert ch (g_closed s),
                        g_panicked := g_panicked s \<or> ch \<in> g_closed s\<rparr>)"
| "signal_step (Draining h) s =
     Some (GDone, s\<lparr>g_drained := (case h of None \<Rightarrow> g_drained s | Some x \<Rightarrow> g_drained s @ [x])\<rparr>)"
| "signal_step _ s = None"

definition g_at :: "gsys \<Rightarrow> nat \<Rightarrow> gpc option" where
  "g_at s t = (if t < length (g_pcs s) then Some (g_pcs s ! t) else None)"

definition w_at :: "gsys \<Rightarrow> nat \<Rightarrow> gwatch option" where
  "w_at s i = (if i < length (g_watch s) then Some (g_watch s ! i) else None)"

definition g_set :: "nat \<Rightarrow> gpc \<Rightarrow> gsys \<Rightarrow> gsys" where
  "g_set t p s = s\<lparr>g_pcs := (g_pcs s)[t := p]\<rparr>"

definition w_set :: "nat \<Rightarrow> gwatch \<Rightarrow> gsys \<Rightarrow> gsys" where
  "w_set i w s = s\<lparr>g_watch := (g_watch s)[i := w]\<rparr>"

fun grpc_step :: "gevent \<Rightarrow> gsys \<Rightarrow> gsys option" where
  "grpc_step GStart s =
     Some (s\<lparr>g_comp := grpc_begin (g_next_chan s) (g_comp s), g_next_chan := Suc (g_next_chan s),
             g_pcs := g_pcs s @ [Binding (g_next_chan s)]\<rparr>)"
| "grpc_step (GFail t env listen_err) s =
     (case (g_at s t, fst (grpc_build env listen_err (g_comp s))) of
        (Some (Binding ch), Inl e) \<Rightarrow> Some (g_set t (GReturned (Some e)) s)
      | _ \<Rightarrow> None)"
| "grpc_step (GPublish t env) s =
     (case (g_at s t, fst (grpc_build env None (g_comp s))) of
        (Some (Binding ch), Inr built) \<Rightarrow>
          Some (g_set t (Serving ch (g_next_srv s))
            (s\<lparr>g_comp := grpc_publish (g_next_srv s) (g_comp s), g_next_srv := Suc (g_next_srv s),
               g_watch := g_watch s @ [Watching ch t], g_readies := g_readies s @ [t]\<rparr>))
      | _ \<Rightarrow> None)"
| "grpc_step (GServe t e) s =
     (case g_at s t of
        Some (Serving ch srv) \<Rightarrow>
          (case e of
             None \<Rightarrow> if srv \<in> set (g_drained s) then Some (g_set t (Waiting ch) s) else None
           | Some x \<Rightarrow>
               Some (g_set t (if gr_serving (g_comp s)
                              then GReturned (Some (Errorf ''grpc: serve: %w'' [] [x]))
                              else Waiting ch) s))
      | _ \<Rightarrow> None)"
| "grpc_step (GWake t) s =
     (case g_at s t of
        Some (Waiting ch) \<Rightarrow>
          if ch \<in> g_closed s \<or> t \<in> g_ctx_done s then Some (g_set t (GReturned None) s) else None
      | _ \<Rightarrow> None)"
| "grpc_step (GCancel t) s = Some (s\<lparr>g_ctx_done := insert t (g_ctx_done s)\<rparr>)"
| "grpc_step GStop s =
     Some (s\<lparr>g_comp := grpc_swap (g_next_chan s) (g_comp s),
             g_closed := insert (g_next_chan s) (g_closed s), g_next_chan := Suc (g_next_chan s),
             g_pcs := g_pcs s @ [Holding (gr_stopCh (g_comp s)) (gr_server (g_comp s))]\<rparr>)"
| "grpc_step (GSignal t) s =
     (case g_at s t of
        Some p \<Rightarrow> (case signal_step p s of None \<Rightarrow> None | Some (p', s') \<Rightarrow> Some (g_set t p' s'))
      | None \<Rightarrow> None)"
| "grpc_step (WCancelled i) s =
     (case w_at s i of
        Some (Watching ch t) \<Rightarrow>
          if t \<in> g_ctx_done s
          then Some (w_set i (WPast (Holding ch (gr_server (g_comp s))))
            (s\<lparr>g_comp := grpc_swap (g_next_chan s) (g_comp s),
               g_closed := insert (g_next_chan s) (g_closed s), g_next_chan := Suc (g_next_chan s)\<rparr>))
          else None
      | _ \<Rightarrow> None)"
| "grpc_step (WStopped i) s =
     (case w_at s i of
        Some (Watching ch t) \<Rightarrow> if ch \<in> g_closed s then Some (w_set i (WPast GDone) s) else None
      | _ \<Rightarrow> None)"
| "grpc_step (WSignal i) s =
     (case w_at s i of
        Some (WPast p) \<Rightarrow>
          (case signal_step p s of None \<Rightarrow> None | Some (p', s') \<Rightarrow> Some (w_set i (WPast p') s'))
      | _ \<Rightarrow> None)"

fun grpc_run :: "gevent list \<Rightarrow> gsys \<Rightarrow> gsys option" where
  "grpc_run [] s = Some s"
| "grpc_run (e # es) s = (case grpc_step e s of None \<Rightarrow> None | Some s' \<Rightarrow> grpc_run es s')"

definition gsys0 :: "grpc_comp \<Rightarrow> gsys" where
  "gsys0 c = \<lparr>g_comp = c, g_closed = {}, g_next_chan = 1, g_next_srv = 0, g_pcs = [], g_watch = [],
     g_ctx_done = {}, g_drained = [], g_readies = [], g_panicked = False\<rparr>"

section \<open>The protocol without cancellation\<close>

definition grpc_ops :: "grpc_comp lc_ops" where
  "grpc_ops = \<lparr>op_stop_ch = gr_stopCh, op_handle = grpc_Server, op_begin = grpc_begin,
               op_publish = grpc_publish, op_swap = grpc_swap\<rparr>"

lemma grpc_New_sel [simp]:
  "gr_stopCh (grpc_New cfg (map grpc_WithName names)) = 0"
  "gr_server (grpc_New cfg (map grpc_WithName names)) = None"
  by (simp_all add: grpc_New_def grpc_WithName_def
      fold_options [of gr_stopCh grpc_WithName]
      fold_options [of gr_server grpc_WithName])

lemmas grpc_sections = grpc_ops_def grpc_begin_def grpc_publish_def grpc_swap_def grpc_Server_def

interpretation grpc_lc: lifecycle grpc_ops "grpc_New cfg (map grpc_WithName names)" for cfg names
  by unfold_locales (simp_all add: grpc_sections)

text \<open>
  While no context is cancelled the watchers do nothing, and each step is one or two steps of
  the common protocol: a run in \<open>Serve\<close> or in its last \<open>select\<close> is a blocked run.
\<close>

fun abs_pc :: "gpc \<Rightarrow> pc" where
  "abs_pc (Binding ch) = Connecting ch"
| "abs_pc (Serving ch srv) = Blocked ch"
| "abs_pc (Waiting ch) = Blocked ch"
| "abs_pc (GReturned e) = Returned None"
| "abs_pc (Holding ch h) = Swapped ch h"
| "abs_pc (AboutToClose ch h) = Closing ch h"
| "abs_pc (Draining h) = Signalled h"
| "abs_pc GDone = Stopped"

definition abs_sys :: "gsys \<Rightarrow> grpc_comp sys" where
  "abs_sys s = \<lparr>comp = g_comp s, closed = g_closed s, next_chan = g_next_chan s,
     next_handle = g_next_srv s, pcs = map abs_pc (g_pcs s), released = g_drained s,
     readies = g_readies s, panicked = g_panicked s\<rparr>"

definition quiet :: "gsys \<Rightarrow> bool" where
  "quiet s \<longleftrightarrow> g_ctx_done s = {} \<and> (\<forall>w \<in> set (g_watch s). w = WPast GDone \<or> (\<exists>ch t. w = Watching ch t))"

lemma g_set_sel [simp]:
  "g_comp (g_set t p s) = g_comp s" "g_closed (g_set t p s) = g_closed s"
  "g_next_chan (g_set t p s) = g_next_chan s" "g_next_srv (g_set t p s) = g_next_srv s"
  "g_pcs (g_set t p s) = (g_pcs s)[t := p]" "g_watch (g_set t p s) = g_watch s"
  "g_ctx_done (g_set t p s) = g_ctx_done s" "g_drained (g_set t p s) = g_drained s"
  "g_readies (g_set t p s) = g_readies s" "g_panicked (g_set t p s) = g_panicked s"
  by (simp_all add: g_set_def)

lemma w_set_sel [simp]:
  "g_comp (w_set i w s) = g_comp s" "g_closed (w_set i w s) = g_closed s"
  "g_next_chan (w_set i w s) = g_next_chan s" "g_next_srv (w_set i w s) = g_next_srv s"
  "g_pcs (w_set i w s) = g_pcs s" "g_watch (w_set i w s) = (g_watch s)[i := w]"
  "g_ctx_done (w_set i w s) = g_ctx_done s" "g_drained (w_set i w s) = g_drained s"
  "g_readies (w_set i w s) = g_readies s" "g_panicked (w_set i w s) = g_panicked s"
  by (simp_all add: w_set_def)

lemma abs_at: "g_at s t = Some p \<Longrightarrow> pc_at (abs_sys s) t = Some (abs_pc p) \<and> t < length (g_pcs s)"
  by (auto simp: g_at_def pc_at_def abs_sys_def split: if_splits)

lemma abs_set: "abs_sys (g_set t p s) = set_pc t (abs_pc p) (abs_sys s)"
  by (simp add: abs_sys_def set_pc_def map_update)

lemma abs_w_set [simp]: "abs_sys (w_set i w s) = abs_sys s"
  by (simp add: abs_sys_def)

lemma abs_sel [simp]:
  "comp (abs_sys s) = g_comp s" "closed (abs_sys s) = g_closed s"
  "next_chan (abs_sys s) = g_next_chan s" "next_handle (abs_sys s) = g_next_srv s"
  "pcs (abs_sys s) = map abs_pc (g_pcs s)" "released (abs_sys s) = g_drained s"
  "readies (abs_sys s) = g_readies s" "panicked (abs_sys s) = g_panicked s"
  by (simp_all add: abs_sys_def)

lemma pc_at_set: "t < length (pcs s) \<Longrightarrow> pc_at (set_pc t p s) t = Some p"
  by (simp add: pc_at_def)

lemma set_pc_twice [simp]:
  "set_pc t p (set_pc t q s) = set_pc t p s"
  "set_pc t p (set_pc t q s\<lparr>readies := r\<rparr>) = set_pc t p (s\<lparr>readies := r\<rparr>)"
  by (simp_all add: set_pc_def)

lemma signal_simulates:
  assumes "g_at s t = Some p" and "signal_step p s = Some (p', s1)"
  shows "\<exists>e. sys_step False grpc_ops e (abs_sys s) = Some (abs_sys (g_set t p' s1))"
proof -
  note at = abs_at [OF assms(1)]
  show ?thesis
  proof (cases p)
    case (Holding ch h)
    then show ?thesis using assms(2) at
      by (intro exI [of _ "SignalCheck t"]) (auto simp: abs_set)
  next
    case (AboutToClose ch h)
    then show ?thesis using assms(2) at
      by (intro exI [of _ "SignalClose t"]) (auto simp: abs_set set_pc_def abs_sys_def map_update)
  next
    case (Draining h)
    then show ?thesis using assms(2) at
      by (intro exI [of _ "Release t"])
        (auto simp: abs_set set_pc_def abs_sys_def map_update split: option.split)
  qed (use assms(2) in simp_all)
qed

lemma one_step:
  "sys_step False grpc_ops e s = Some s' \<Longrightarrow> \<exists>es. sys_run False grpc_ops es s = Some s'"
  by (intro exI [of _ "[e]"]) simp

lemma grpc_simulates:
  assumes "grpc_step e s = Some s'" and "quiet s" and "\<forall>t. e \<noteq> GCancel t"
  shows "\<exists>es. sys_run False grpc_ops es (abs_sys s) = Some (abs_sys s')"
proof (cases e)
  case GStart
  with assms(1) show ?thesis
    by (intro one_step [of StartBegin]) (auto simp: abs_sys_def grpc_ops_def)
next
  case (GFail t env x)
  with assms(1) obtain ch e where at: "g_at s t = Some (Binding ch)" and s': "s' = g_set t (GReturned (Some e)) s"
    by (auto split: option.splits gpc.splits sum.splits)
  show ?thesis using abs_at [OF at]
    by (intro one_step [of "ConnectFail t None"]) (simp add: s' abs_set)
next
  case (GPublish t env)
  with assms(1) obtain ch where at: "g_at s t = Some (Binding ch)"
    and s': "s' = g_set t (Serving ch (g_next_srv s)) (s\<lparr>g_comp := grpc_publish (g_next_srv s) (g_comp s),
      g_next_srv := Suc (g_next_srv s), g_watch := g_watch s @ [Watching ch t],
      g_readies := g_readies s @ [t]\<rparr>)"
    by (auto split: option.splits gpc.splits sum.splits)
  from at have here: "t < length (g_pcs s)" "g_pcs s ! t = Binding ch"
    by (simp_all add: g_at_def split: if_splits)
  have "sys_run False grpc_ops [ConnectOk t, CallReady t] (abs_sys s) = Some (abs_sys s')"
    using here by (simp add: pc_at_def) (simp add: s' set_pc_def abs_sys_def grpc_ops_def map_update)
  then show ?thesis by blast
next
  case (GServe t x)
  with assms(1) obtain ch srv p where at: "g_at s t = Some (Serving ch srv)" and s': "s' = g_set t p s"
    and p: "p = Waiting ch \<or> (\<exists>y. p = GReturned y)"
    by (auto split: option.splits gpc.splits if_splits)
  from p show ?thesis
  proof
    assume "p = Waiting ch"
    then have "abs_sys s' = abs_sys s"
      using abs_at [OF at] at by (simp add: s' abs_set set_pc_def g_at_def map_update list_update_same_conv split: if_splits)
    then show ?thesis by (intro exI [of _ "[]"]) simp
  next
    assume "\<exists>y. p = GReturned y"
    then show ?thesis using abs_at [OF at]
      by (intro one_step [of "CtxDone t"]) (auto simp: s' abs_set)
  qed
next
  case (GWake t)
  with assms(1) obtain ch where at: "g_at s t = Some (Waiting ch)" and s': "s' = g_set t (GReturned None) s"
    by (auto split: option.splits gpc.splits if_splits)
  show ?thesis using abs_at [OF at]
    by (intro one_step [of "CtxDone t"]) (simp add: s' abs_set)
next
  case GStop
  with assms(1) show ?thesis
    by (intro one_step [of StopSwap]) (auto simp: abs_sys_def grpc_ops_def grpc_Server_def)
next
  case (GSignal t)
  with assms(1) obtain p p' s1 where at: "g_at s t = Some p" and sig: "signal_step p s = Some (p', s1)"
    and s': "s' = g_set t p' s1"
    by (auto split: option.splits)
  from signal_simulates [OF at sig] show ?thesis unfolding s' by (blast intro: one_step)
next
  case (WCancelled i)
  with assms show ?thesis by (auto simp: quiet_def split: option.splits gwatch.splits if_splits)
next
  case (WStopped i)
  with assms(1) have "abs_sys s' = abs_sys s" by (auto split: option.splits gwatch.splits if_splits)
  then show ?thesis by (intro exI [of _ "[]"]) simp
next
  case (WSignal i)
  with assms(1) obtain p where "w_at s i = Some (WPast p)" "signal_step p s \<noteq> None"
    by (auto split: option.splits gwatch.splits)
  with assms(2) show ?thesis
    by (auto simp: quiet_def w_at_def split: if_splits) (metis gwatch.distinct(1) gwatch.inject(2) nth_mem option.distinct(1) signal_step.simps(4-8))
qed (use assms(3) in simp)

lemma quiet_step:
  assumes "grpc_step e s = Some s'" and "quiet s" and "\<forall>t. e \<noteq> GCancel t"
  shows "quiet s'"
proof -
  have past: "w_at s i = Some (WPast p) \<Longrightarrow> p = GDone" for i p
    using assms(2) by (auto simp: quiet_def w_at_def split: if_splits) (metis gwatch.distinct(1) gwatch.inject(2) nth_mem)
  have sig: "signal_step p s = Some (p', s1) \<Longrightarrow> p \<noteq> GDone \<and> g_watch s1 = g_watch s \<and> g_ctx_done s1 = g_ctx_done s" for p p' s1
    by (cases p) auto
  show ?thesis
    using assms past
    by (cases e) (auto simp: quiet_def dest!: sig in_set_updateD
        split: option.splits gpc.splits gwatch.splits if_splits sum.splits)
qed

lemma quiet_run_reachable:
  "grpc_run es s = Some s' \<Longrightarrow> quiet s \<Longrightarrow> (\<forall>t. GCancel t \<notin> set es) \<Longrightarrow>
     reachable False grpc_ops c0 (abs_sys s) \<Longrightarrow> quiet s' \<and> reachable False grpc_ops c0 (abs_sys s')"
proof (induction es arbitrary: s)
  case (Cons e es)
  from Cons.prems(1) obtain s1 where one: "grpc_step e s = Some s1" and rest: "grpc_run es s1 = Some s'"
    by (auto split: option.splits)
  from Cons.prems(3) have live: "\<forall>t. e \<noteq> GCancel t" by auto
  from grpc_simulates [OF one Cons.prems(2) live] Cons.prems(4)
  have "reachable False grpc_ops c0 (abs_sys s1)" by (blast intro: reachable_run)
  with Cons.IH [OF rest quiet_step [OF one Cons.prems(2) live]] Cons.prems(3) show ?case by simp
qed simp

section \<open>Properties\<close>

text \<open>
  C11. Without a cancelled context the server component keeps the protocol, however its \<open>Start\<close> and
  \<open>Stop\<close> runs interleave: no channel is closed twice, no server is drained twice, the published
  server has not been drained, and a run calls \<open>ready\<close> at most once.
\<close>
theorem grpc_quiet_protocol:
  assumes "grpc_run es (gsys0 (grpc_New cfg (map grpc_WithName names))) = Some s"
    and "\<forall>t. GCancel t \<notin> set es"
  shows "\<not> g_panicked s \<and> distinct (g_drained s) \<and> distinct (g_readies s) \<and>
    (case grpc_Server (g_comp s) of None \<Rightarrow> True | Some h \<Rightarrow> h \<notin> set (g_drained s))"
proof -
  let ?c = "grpc_New cfg (map grpc_WithName names)"
  have "quiet (gsys0 ?c)" by (simp add: quiet_def gsys0_def)
  moreover have "abs_sys (gsys0 ?c) = init_sys ?c"
    by (simp add: abs_sys_def gsys0_def init_sys_def)
  ultimately have r: "reachable False grpc_ops ?c (abs_sys s)"
    using quiet_run_reachable [OF assms(1) _ assms(2)] reachable.start by metis
  from grpc_lc.never_panics [OF r] grpc_lc.released_once [OF r] grpc_lc.ready_once [OF r]
  show ?thesis by (auto simp: grpc_ops_def split: option.split)
qed

definition grpc_cfg0 :: grpc_config where
  "grpc_cfg0 = \<lparr>gc_Host = '''', gc_Port = 0, gc_EnableReflection = False, gc_MaxRecvMsgSizeMB = 0,
     gc_MaxSendMsgSizeMB = 0, gc_KeepaliveTime = 0, gc_KeepaliveTimeout = 0,
     gc_MaxConnectionIdle = 0, gc_StopTimeout = 0, gc_MaxConnectionAge = 0, gc_TLS = False,
     gc_TLSCertFile = '''', gc_TLSKeyFile = '''', gc_TLSClientCAFile = '''', gc_TLSMinVersion = ''''\<rparr>"

text \<open>An environment without files: enough for a server without TLS.\<close>

abbreviation "env0 \<equiv> \<lparr>os_ReadFile = \<lambda>_. Inl (Foreign 0), pem_has_certs = \<lambda>_. False,
  tls_LoadX509KeyPair = \<lambda>_ _. Inl (Foreign 0)\<rparr>"

lemma plain_credentials [simp]: "\<not> gc_TLS cfg \<Longrightarrow> grpc_tlsCredentials env cfg = Inr None"
  by (simp add: grpc_tlsCredentials_def)

lemma grpc_cfg0_plain [simp]: "\<not> gc_TLS grpc_cfg0" "grpc_cfg0\<lparr>gc_TLS := False\<rparr> = grpc_cfg0"
  by (simp_all add: grpc_cfg0_def)

lemmas grpc_eval = gsys0_def g_at_def w_at_def g_set_def w_set_def grpc_New_def grpc_begin_def
  grpc_publish_def grpc_swap_def grpc_Server_def grpc_build_def

theorem grpc_quiet_protocol_witness:
  "\<exists>s. grpc_run [GStart, GPublish 0 env0, GStop, GSignal 1, GSignal 1, WStopped 0, GSignal 1, GServe 0 None, GWake 0]
      (gsys0 (grpc_New grpc_cfg0 [])) = Some s \<and> g_drained s = [0] \<and> \<not> g_panicked s"
proof -
  obtain s where s: "grpc_run [GStart, GPublish 0 env0, GStop, GSignal 1, GSignal 1, WStopped 0, GSignal 1,
      GServe 0 None, GWake 0] (gsys0 (grpc_New grpc_cfg0 [])) = Some s" and "g_drained s = [0]"
    by (simp add: grpc_eval)
  moreover have "\<not> g_panicked s"
    by (rule grpc_quiet_protocol [where names = "[]", unfolded list.map, OF s, THEN conjunct1]) simp
  ultimately show ?thesis by blast
qed

text \<open>
  C12. With a cancelled context the same protocol can crash the process (the server here has no TLS): a \<open>Stop\<close> that takes the
  stop channel just before the watcher sees the cancellation holds the same channel as the
  watcher; both find it open, and the second \<open>close\<close> panics.
\<close>
theorem grpc_double_close:
  "\<exists>s. grpc_run [GStart, GPublish 0 env0, GCancel 0, GStop, WCancelled 0, GSignal 1, WSignal 0, GSignal 1, WSignal 0]
      (gsys0 (grpc_New (cfg\<lparr>gc_TLS := False\<rparr>) [])) = Some s \<and> g_panicked s"
  by (simp add: grpc_eval)

text \<open>What may still end a run whose stop was lost, and the state it is in.\<close>

definition ends_serving :: "gevent \<Rightarrow> bool" where
  "ends_serving e \<longleftrightarrow> e = GStart \<or> e = GStop \<or> (\<exists>t x. e = GServe t (Some x))"

definition orphan :: "gsys \<Rightarrow> bool" where
  "orphan s \<longleftrightarrow> g_pcs s = [Serving 1 0, GDone] \<and> g_watch s = [WPast GDone] \<and> g_drained s = [] \<and>
     grpc_Health (g_comp s) = None"

lemma orphan_step: "orphan s \<Longrightarrow> grpc_step e s = Some s' \<Longrightarrow> \<not> ends_serving e \<Longrightarrow> orphan s'"
  by (cases e) (auto simp: orphan_def ends_serving_def g_at_def w_at_def nth_Cons'
      split: if_splits option.splits)

lemma orphan_run: "orphan s \<Longrightarrow> grpc_run es s = Some s' \<Longrightarrow> \<forall>e \<in> set es. \<not> ends_serving e \<Longrightarrow> orphan s'"
  by (induction es arbitrary: s) (auto split: option.splits dest: orphan_step)

text \<open>
  C34. A \<open>Stop\<close> that comes while \<open>Start\<close> is still building its server, here one without TLS, is lost: it returns, the
  watcher leaves because the stop channel is closed, and the server then serves, healthy.
  Nothing that happens later without a new \<open>Start\<close> or \<open>Stop\<close>, a cancellation of the context
  included, ends that run, short of a failure of \<open>Serve\<close> itself.
\<close>
theorem grpc_early_stop_lost:
  "\<exists>s. grpc_run [GStart, GStop, GSignal 1, GSignal 1, GSignal 1, GPublish 0 env0, WStopped 0]
      (gsys0 (grpc_New (cfg\<lparr>gc_TLS := False\<rparr>) [])) = Some s \<and> g_pcs s = [Serving 1 0, GDone] \<and>
     (\<forall>es s'. (\<forall>e \<in> set es. \<not> ends_serving e) \<longrightarrow> grpc_run es s = Some s' \<longrightarrow>
        g_pcs s' = [Serving 1 0, GDone] \<and> g_drained s' = [] \<and> grpc_Health (g_comp s') = None)"
proof -
  obtain s where s: "grpc_run [GStart, GStop, GSignal 1, GSignal 1, GSignal 1, GPublish 0 env0, WStopped 0]
      (gsys0 (grpc_New (cfg\<lparr>gc_TLS := False\<rparr>) [])) = Some s" and "orphan s"
    by (simp add: grpc_eval orphan_def grpc_Health_def)
  with orphan_run [of s] show ?thesis unfolding orphan_def by blast
qed

theorem grpc_early_stop_lost_witness:
  "\<exists>s s'. grpc_run [GStart, GStop, GSignal 1, GSignal 1, GSignal 1, GPublish 0 env0, WStopped 0]
      (gsys0 (grpc_New grpc_cfg0 [])) = Some s \<and>
     grpc_run [GCancel 0] s = Some s' \<and> g_pcs s' = [Serving 1 0, GDone] \<and> grpc_Health (g_comp s') = None"
proof -
  from grpc_early_stop_lost [of grpc_cfg0] obtain s
    where s: "grpc_run [GStart, GStop, GSignal 1, GSignal 1, GSignal 1, GPublish 0 env0, WStopped 0]
        (gsys0 (grpc_New grpc_cfg0 [])) = Some s"
      and later: "\<forall>es s'. (\<forall>e \<in> set es. \<not> ends_serving e) \<longrightarrow> grpc_run es s = Some s' \<longrightarrow>
        g_pcs s' = [Serving 1 0, GDone] \<and> g_drained s' = [] \<and> grpc_Health (g_comp s') = None"
    unfolding grpc_cfg0_plain by blast
  define s' where "s' = s\<lparr>g_ctx_done := insert 0 (g_ctx_done s)\<rparr>"
  have run: "grpc_run [GCancel 0] s = Some s'" by (simp add: s'_def)
  have "\<forall>e \<in> set [GCancel 0]. \<not> ends_serving e" by (simp add: ends_serving_def)
  with later run have "g_pcs s' = [Serving 1 0, GDone] \<and> grpc_Health (g_comp s') = None" by blast
  with s run show ?thesis by blast
qed

definition grpc_settings0 :: server_settings where
  "grpc_settings0 = \<lparr>ss_recv = 0, ss_send = 0, ss_keepalive = None, ss_enforcement = None,
     ss_creds = None, ss_other = []\<rparr>"

lemma fold_keepalive:
  "fold apply_option (grpc_keepaliveOptions c) s =
     s\<lparr>ss_recv := grpc_maxRecvMsgSizeBytes c, ss_send := grpc_maxSendMsgSizeBytes c,
       ss_keepalive := Some \<lparr>sp_Time = grpc_keepaliveTime c, sp_Timeout = grpc_keepaliveTimeout c,
         sp_MaxConnectionIdle = grpc_maxConnectionIdle c, sp_MaxConnectionAge = max 0 (gc_MaxConnectionAge c),
         sp_MaxConnectionAgeGrace = (if gc_MaxConnectionAge c > 0 then 5 * second else 0)\<rparr>,
       ss_enforcement := Some (5 * second, True)\<rparr>"
  by (simp add: grpc_keepaliveOptions_def Let_def max_def)

text \<open>
  The safety settings of the server come from \<open>Config\<close> whatever options the caller added:
  message limits, keepalive (the age limit and the idle limit together) and the enforcement
  policy; TLS credentials are the configured ones when TLS is on. A limit of \<open>n\<close> megabytes is
  \<open>n\<close> times 2 to the 20 bytes for \<open>n\<close> below 2 to the 43, and wraps around above.
\<close>
theorem grpc_effective_settings:
  "let s = fold apply_option (grpc_serverOptions c creds) grpc_settings0; cfg = gr_cfg c
   in ss_recv s = grpc_maxRecvMsgSizeBytes cfg \<and> ss_send s = grpc_maxSendMsgSizeBytes cfg \<and>
      (\<exists>kp. ss_keepalive s = Some kp \<and> sp_Time kp = grpc_keepaliveTime cfg \<and>
        sp_Timeout kp = grpc_keepaliveTimeout cfg \<and> sp_MaxConnectionIdle kp = grpc_maxConnectionIdle cfg \<and>
        sp_MaxConnectionAge kp = max 0 (gc_MaxConnectionAge cfg)) \<and>
      ss_enforcement s = Some (5 * second, True) \<and>
      (case creds of None \<Rightarrow> True | Some t \<Rightarrow> ss_creds s = Some t) \<and>
      (if 0 < gc_MaxRecvMsgSizeMB cfg \<and> gc_MaxRecvMsgSizeMB cfg < 2 ^ 43
       then ss_recv s = gc_MaxRecvMsgSizeMB cfg * 2 ^ 20
       else if gc_MaxRecvMsgSizeMB cfg = 2 ^ 43 then ss_recv s = - (2 ^ 63) else True)"
proof -
  have fits: "0 < n \<Longrightarrow> n < 2 ^ 43 \<Longrightarrow> wrap64 (wrap64 (n * 1024) * 1024) = n * 2 ^ 20" for n
    by (subst (2) wrap64_id; simp add: is_int64_def wrap64_id)
  have over: "wrap64 (wrap64 (2 ^ 43 * 1024) * 1024) = - (2 ^ 63)" by (simp add: wrap64_def)
  have size: "(if 0 < n \<and> n < 2 ^ 43 then grpc_maxRecvMsgSizeBytes cfg = n * 2 ^ 20
      else if n = 2 ^ 43 then grpc_maxRecvMsgSizeBytes cfg = - (2 ^ 63) else True)"
    if "n = gc_MaxRecvMsgSizeMB cfg" for n cfg
    using fits [of n] over that by (auto simp: grpc_maxRecvMsgSizeBytes_def)
  show ?thesis
    using size [OF refl, of "gr_cfg c"]
    by (cases creds) (simp_all add: Let_def grpc_serverOptions_def fold_keepalive)
qed

text \<open>
  TLS fails closed: when the credentials are built, they are there exactly when TLS is on,
  with the configured key pair and minimum version, and client certificates are required and
  verified exactly when a client CA file is configured, against its certificates.
\<close>
theorem grpc_tls_fails_closed:
  assumes "grpc_tlsCredentials env c = Inr t"
  shows "(t = None \<longleftrightarrow> \<not> gc_TLS c) \<and>
    (case t of None \<Rightarrow> True | Some cfg \<Rightarrow>
       min_version (gc_TLSMinVersion c) = Some (tc_MinVersion cfg) \<and>
       (\<exists>cert. tls_LoadX509KeyPair env (gc_TLSCertFile c) (gc_TLSKeyFile c) = Inr cert \<and>
          tc_Certificates cfg = [cert]) \<and>
       (if gc_TLSClientCAFile c = '''' then tc_ClientAuth cfg = NoClientCert
        else tc_ClientAuth cfg = RequireAndVerifyClientCert \<and>
          (\<exists>pem. os_ReadFile env (gc_TLSClientCAFile c) = Inr pem \<and> pem_has_certs env pem \<and>
             tc_ClientCAs cfg = Some pem)))"
  using assms unfolding grpc_tlsCredentials_def Let_def
  by (auto split: if_splits option.splits sum.splits dest!: load_pool_Inr)

theorem grpc_tls_fails_closed_witness:
  "\<exists>t. grpc_tlsCredentials \<lparr>os_ReadFile = \<lambda>_. Inr ''pem'', pem_has_certs = \<lambda>_. True,
        tls_LoadX509KeyPair = \<lambda>_ _. Inr 0\<rparr>
      (grpc_cfg0\<lparr>gc_TLS := True, gc_TLSCertFile := ''c'', gc_TLSKeyFile := ''k'', gc_TLSClientCAFile := ''ca''\<rparr>) =
     Inr (Some t) \<and> tc_ClientAuth t = RequireAndVerifyClientCert"
proof -
  let ?env = "\<lparr>os_ReadFile = \<lambda>_. Inr ''pem'', pem_has_certs = \<lambda>_. True,
    tls_LoadX509KeyPair = \<lambda>_ _. Inr 0\<rparr>"
  let ?cfg = "grpc_cfg0\<lparr>gc_TLS := True, gc_TLSCertFile := ''c'', gc_TLSKeyFile := ''k'', gc_TLSClientCAFile := ''ca''\<rparr>"
  obtain t where t: "grpc_tlsCredentials ?env ?cfg = Inr (Some t)"
    by (simp add: grpc_tlsCredentials_def grpc_cfg0_def min_version_def load_pool_def Let_def)
  from grpc_tls_fails_closed [OF t] t show ?thesis by simp
qed

end
