(* ===== verification/Grpcclient.thy ===== *)
theory Grpcclient
  imports Observe Lifecycle Tls
begin

text \<open>
  The grpcclient module: \<open>Config\<close>, the dial options and transport credentials built from it,
  \<open>waitReady\<close>, \<open>Start\<close>, \<open>Stop\<close> and \<open>Health\<close>. grpc-go's client connection is a parameter, the
  record \<open>dial_driver\<close>; that the parent context is done is an observation of its state.
\<close>

section \<open>Configuration\<close>

record gcl_config =
  cl_Target :: string
  cl_ConnectTimeout :: duration
  cl_MaxRecvMsgSizeMB :: int
  cl_MaxSendMsgSizeMB :: int
  cl_KeepaliveTime :: duration
  cl_KeepaliveTimeout :: duration
  cl_KeepalivePermitWithoutStream :: "bool option"
  cl_TLS :: bool
  cl_TLSServerName :: string
  cl_TLSCAFile :: string
  cl_TLSCertFile :: string
  cl_TLSKeyFile :: string
  cl_TLSMinVersion :: string
  cl_TLSInsecureSkipVerify :: bool

definition gcl_connectTimeout :: "gcl_config \<Rightarrow> duration" where
  "gcl_connectTimeout c = (if cl_ConnectTimeout c > 0 then cl_ConnectTimeout c else 10 * second)"

definition gcl_maxRecvMsgSizeBytes :: "gcl_config \<Rightarrow> int" where
  "gcl_maxRecvMsgSizeBytes c =
     (if cl_MaxRecvMsgSizeMB c > 0 then wrap64 (wrap64 (cl_MaxRecvMsgSizeMB c * 1024) * 1024)
      else 4 * 1024 * 1024)"

definition gcl_maxSendMsgSizeBytes :: "gcl_config \<Rightarrow> int" where
  "gcl_maxSendMsgSizeBytes c =
     (if cl_MaxSendMsgSizeMB c > 0 then wrap64 (wrap64 (cl_MaxSendMsgSizeMB c * 1024) * 1024)
      else 4 * 1024 * 1024)"

definition gcl_keepaliveTime :: "gcl_config \<Rightarrow> duration" where
  "gcl_keepaliveTime c = (if cl_KeepaliveTime c > 0 then cl_KeepaliveTime c else 30 * second)"

definition gcl_keepaliveTimeout :: "gcl_config \<Rightarrow> duration" where
  "gcl_keepaliveTimeout c = (if cl_KeepaliveTimeout c > 0 then cl_KeepaliveTimeout c else 10 * second)"

definition gcl_keepalivePermitWithoutStream :: "gcl_config \<Rightarrow> bool" where
  "gcl_keepalivePermitWithoutStream c =
     (case cl_KeepalivePermitWithoutStream c of Some b \<Rightarrow> b | None \<Rightarrow> True)"

section \<open>Dial options\<close>

datatype transport = Insecure | NewTLS tls_config

record client_params =
  kp_Time :: duration
  kp_Timeout :: duration
  kp_PermitWithoutStream :: bool

datatype call_option = MaxCallRecvMsgSize int | MaxCallSendMsgSize int

datatype dial_option =
    WithTransportCredentials transport
  | WithDefaultCallOptions "call_option list"
  | WithKeepaliveParams client_params
  | OtherDialOption nat

definition gcl_dialOptions :: "gcl_config \<Rightarrow> dial_option list" where
  "gcl_dialOptions c =
     [WithDefaultCallOptions [MaxCallRecvMsgSize (gcl_maxRecvMsgSizeBytes c),
                              MaxCallSendMsgSize (gcl_maxSendMsgSizeBytes c)],
      WithKeepaliveParams
        \<lparr>kp_Time = gcl_keepaliveTime c, kp_Timeout = gcl_keepaliveTimeout c,
         kp_PermitWithoutStream = gcl_keepalivePermitWithoutStream c\<rparr>]"

definition gcl_transportCredentials :: "tls_env \<Rightarrow> gcl_config \<Rightarrow> transport result" where
  "gcl_transportCredentials env c =
     (if \<not> cl_TLS c then Inr Insecure
      else (case min_version (cl_TLSMinVersion c) of
          None \<Rightarrow> Inl (Errorf ''grpc-client: unsupported TLSMinVersion %q (want \"1.2\" or \"1.3\")''
                    [AStr (cl_TLSMinVersion c)] [])
        | Some v \<Rightarrow>
            (let cfg = \<lparr>tc_InsecureSkipVerify = cl_TLSInsecureSkipVerify c, tc_MinVersion = v,
                        tc_ServerName = cl_TLSServerName c, tc_RootCAs = None, tc_Certificates = [],
                        tc_ClientCAs = None, tc_ClientAuth = NoClientCert\<rparr>
             in case (if cl_TLSCAFile c \<noteq> ''''
                      then map_sum id (\<lambda>pool. cfg\<lparr>tc_RootCAs := Some pool\<rparr>)
                        (load_pool env ''grpc-client: read TLSCAFile %q: %w''
                           ''grpc-client: TLSCAFile %q: no PEM certificates found'' (cl_TLSCAFile c))
                      else Inr cfg) of
                  Inl e \<Rightarrow> Inl e
                | Inr cfg \<Rightarrow>
                    (if cl_TLSCertFile c \<noteq> '''' \<and> cl_TLSKeyFile c \<noteq> '''' then
                       (case tls_LoadX509KeyPair env (cl_TLSCertFile c) (cl_TLSKeyFile c) of
                          Inl e \<Rightarrow> Inl (Errorf ''grpc-client: load TLS client cert/key: %w'' [] [e])
                        | Inr cert \<Rightarrow> Inr (NewTLS (cfg\<lparr>tc_Certificates := [cert]\<rparr>)))
                     else if cl_TLSCertFile c \<noteq> '''' \<or> cl_TLSKeyFile c \<noteq> '''' then
                       Inl (Errorf ''grpc-client: TLSCertFile and TLSKeyFile must both be set or both empty'' [] [])
                     else Inr (NewTLS cfg)))))"

section \<open>The component\<close>

record gcl_comp =
  gl_cfg :: gcl_config
  gl_name :: string
  gl_conn :: "handle option"
  gl_stopCh :: chan
  gl_opts :: "dial_option list"

definition gcl_New :: "gcl_config \<Rightarrow> (gcl_comp \<Rightarrow> gcl_comp) list \<Rightarrow> gcl_comp" where
  "gcl_New cfg opts =
     fold (\<lambda>opt c. opt c) opts
       \<lparr>gl_cfg = cfg, gl_name = ''grpcclient'', gl_conn = None, gl_stopCh = 0, gl_opts = []\<rparr>"

definition gcl_WithName :: "string \<Rightarrow> gcl_comp \<Rightarrow> gcl_comp" where
  "gcl_WithName name c = c\<lparr>gl_name := name\<rparr>"

definition gcl_Name :: "gcl_comp \<Rightarrow> string" where "gcl_Name c = gl_name c"

definition gcl_AddOption :: "dial_option \<Rightarrow> gcl_comp \<Rightarrow> gcl_comp" where
  "gcl_AddOption opt c = c\<lparr>gl_opts := gl_opts c @ [opt]\<rparr>"

definition gcl_Conn :: "gcl_comp \<Rightarrow> handle option" where "gcl_Conn c = gl_conn c"

definition gcl_begin :: "chan \<Rightarrow> gcl_comp \<Rightarrow> gcl_comp" where
  "gcl_begin ch c = c\<lparr>gl_stopCh := ch\<rparr>"

definition gcl_publish :: "handle \<Rightarrow> gcl_comp \<Rightarrow> gcl_comp" where
  "gcl_publish h c = c\<lparr>gl_conn := Some h\<rparr>"

definition gcl_swap :: "chan \<Rightarrow> gcl_comp \<Rightarrow> gcl_comp" where
  "gcl_swap ch c = c\<lparr>gl_stopCh := ch, gl_conn := None\<rparr>"

datatype connectivity = Idle | ConnectingState | Ready | TransientFailure | Shutdown

fun state_string :: "connectivity \<Rightarrow> string" where
  "state_string Idle = ''IDLE''"
| "state_string ConnectingState = ''CONNECTING''"
| "state_string Ready = ''READY''"
| "state_string TransientFailure = ''TRANSIENT_FAILURE''"
| "state_string Shutdown = ''SHUTDOWN''"

record 's dial_driver =
  dl_NewClient :: "string \<Rightarrow> dial_option list \<Rightarrow> 's \<Rightarrow> handle result \<times> 's"
  dl_Connect :: "handle \<Rightarrow> 's \<Rightarrow> 's"
  dl_GetState :: "handle \<Rightarrow> 's \<Rightarrow> connectivity \<times> 's"
  dl_WaitForStateChange :: "handle \<Rightarrow> connectivity \<Rightarrow> 's \<Rightarrow> bool \<times> 's"
  dl_Close :: "handle \<Rightarrow> 's \<Rightarrow> 's"
  dl_CtxDone :: "'s \<Rightarrow> bool"

partial_function (option) waitReady ::
  "'s dial_driver \<Rightarrow> handle \<Rightarrow> 's \<Rightarrow> (goerr option \<times> 's) option" where
  "waitReady d h s =
     (case dl_GetState d h s of
        (state, s1) \<Rightarrow>
          (if state = Ready then Some (None, s1)
           else case dl_WaitForStateChange d h state s1 of
             (changed, s2) \<Rightarrow>
               (if \<not> changed
                then Some (Some (Errorf ''timed out in state %s'' [AStr (state_string state)] []), s2)
                else waitReady d h s2)))"

definition gcl_options :: "transport \<Rightarrow> gcl_comp \<Rightarrow> dial_option list" where
  "gcl_options creds c = (WithTransportCredentials creds # gcl_dialOptions (gl_cfg c)) @ gl_opts c"

text \<open>
  \<open>Start\<close> up to the publication: Inl is a return (with nil when the parent context is done), Inr
  the connection that is ready.
\<close>

definition gcl_connect ::
  "tls_env \<Rightarrow> 's dial_driver \<Rightarrow> gcl_comp \<Rightarrow> 's \<Rightarrow> ((goerr option + handle) \<times> 's) option" where
  "gcl_connect env d c s =
     (case gcl_transportCredentials env (gl_cfg c) of
        Inl e \<Rightarrow> Some (Inl (Some e), s)
      | Inr creds \<Rightarrow>
          (case dl_NewClient d (cl_Target (gl_cfg c)) (gcl_options creds c) s of
             (Inl e, s) \<Rightarrow>
               Some (Inl (Some (Errorf ''grpc-client: create connection to %q: %w'' [AStr (cl_Target (gl_cfg c))] [e])), s)
           | (Inr h, s) \<Rightarrow>
               (case waitReady d h (dl_Connect d h s) of
                  None \<Rightarrow> None
                | Some (None, s) \<Rightarrow> Some (Inr h, s)
                | Some (Some e, s) \<Rightarrow>
                    (let s = dl_Close d h s
                     in if dl_CtxDone d s then Some (Inl None, s)
                        else Some (Inl (Some (Errorf ''grpc-client: connect to %q: %w''
                               [AStr (cl_Target (gl_cfg c))] [e])), s)))))"

definition gcl_Start ::
  "tls_env \<Rightarrow> 's dial_driver \<Rightarrow> chan \<Rightarrow> gcl_comp \<Rightarrow> 's st \<Rightarrow>
   (goerr option \<times> bool \<times> gcl_comp \<times> 's st) option" where
  "gcl_Start env d ch c st =
     (let c = gcl_begin ch c
      in case gcl_connect env d c (snd st) of
           None \<Rightarrow> None
         | Some (Inl err, s) \<Rightarrow> Some (err, False, c, (fst st, s))
         | Some (Inr h, s) \<Rightarrow>
             Some (None, True, gcl_publish h c, (add_log Info ''grpc-client: connected'' (fst st), s)))"

definition gcl_Stop ::
  "'s dial_driver \<Rightarrow> chan \<Rightarrow> bool \<Rightarrow> gcl_comp \<Rightarrow> chan set \<Rightarrow> 's st \<Rightarrow> gcl_comp \<times> chan set \<times> 's st" where
  "gcl_Stop d fresh expired c cl st =
     (let ch = gl_stopCh c; conn = gl_conn c;
          c = gcl_swap fresh c; cl = insert fresh cl; cl = (if ch \<in> cl then cl else insert ch cl)
      in case conn of
           None \<Rightarrow> (c, cl, st)
         | Some h \<Rightarrow>
             (c, cl, (if expired then add_log Warn ''grpc-client: connection close timed out during shutdown'' (fst st)
                      else fst st, dl_Close d h (snd st))))"

definition gcl_Health :: "'s dial_driver \<Rightarrow> gcl_comp \<Rightarrow> 's \<Rightarrow> goerr option \<times> 's" where
  "gcl_Health d c s =
     (case gl_conn c of
        None \<Rightarrow> (Some (Errorf ''grpc-client: connection not initialised'' [] []), s)
      | Some h \<Rightarrow>
          (case dl_GetState d h s of (state, s) \<Rightarrow>
             (if state = Ready \<or> state = Idle then None
              else Some (Errorf ''grpc-client: connection state is %s'' [AStr (state_string state)] []), s)))"

section \<open>The lifecycle\<close>

definition gcl_ops :: "gcl_comp lc_ops" where
  "gcl_ops = \<lparr>op_stop_ch = gl_stopCh, op_handle = gcl_Conn, op_begin = gcl_begin,
              op_publish = gcl_publish, op_swap = gcl_swap\<rparr>"

lemma gcl_New_sel [simp]:
  "gl_stopCh (gcl_New cfg (map gcl_WithName names)) = 0"
  "gl_conn (gcl_New cfg (map gcl_WithName names)) = None"
  "gl_cfg (gcl_New cfg (map gcl_WithName names)) = cfg"
  by (simp_all add: gcl_New_def gcl_WithName_def
      fold_options [of gl_stopCh gcl_WithName]
      fold_options [of gl_conn gcl_WithName]
      fold_options [of gl_cfg gcl_WithName])

lemmas gcl_sections = gcl_ops_def gcl_begin_def gcl_publish_def gcl_swap_def gcl_Conn_def

interpretation gcl_lc: lifecycle gcl_ops "gcl_New cfg (map gcl_WithName names)" for cfg names
  by unfold_locales (simp_all add: gcl_sections)

interpretation gcl_health: health_checked gcl_ops "gcl_New cfg (map gcl_WithName names)"
    "\<lambda>c. gl_cfg c = cfg" "\<lambda>c s. fst (gcl_Health d c s)" for cfg names d
  by unfold_locales (simp_all add: gcl_sections gcl_Health_def)

section \<open>Lemmas\<close>

text \<open>
  What a connection may do while \<open>waitReady\<close> looks at it: after finitely many changes of its state it
  is READY; or after finitely many the context expires, while it is in the state \<open>state\<close>.
\<close>

inductive comes_up :: "'s dial_driver \<Rightarrow> handle \<Rightarrow> 's \<Rightarrow> 's \<Rightarrow> bool"
  for d :: "'s dial_driver" and h :: handle where
  up: "dl_GetState d h s = (Ready, s') \<Longrightarrow> comes_up d h s s'"
| changed: "dl_GetState d h s = (state, s1) \<Longrightarrow> state \<noteq> Ready \<Longrightarrow>
     dl_WaitForStateChange d h state s1 = (True, s2) \<Longrightarrow> comes_up d h s2 s' \<Longrightarrow> comes_up d h s s'"

inductive runs_out :: "'s dial_driver \<Rightarrow> handle \<Rightarrow> 's \<Rightarrow> connectivity \<Rightarrow> 's \<Rightarrow> bool"
  for d :: "'s dial_driver" and h :: handle where
  expired: "dl_GetState d h s = (state, s1) \<Longrightarrow> state \<noteq> Ready \<Longrightarrow>
     dl_WaitForStateChange d h state s1 = (False, s') \<Longrightarrow> runs_out d h s state s'"
| changed: "dl_GetState d h s = (state, s1) \<Longrightarrow> state \<noteq> Ready \<Longrightarrow>
     dl_WaitForStateChange d h state s1 = (True, s2) \<Longrightarrow> runs_out d h s2 final s' \<Longrightarrow>
     runs_out d h s final s'"

abbreviation "timed_out state \<equiv> Errorf ''timed out in state %s'' [AStr (state_string state)] []"

lemma wait_comes_up: "comes_up d h s s' \<Longrightarrow> waitReady d h s = Some (None, s')"
  by (induction rule: comes_up.induct) (subst waitReady.simps, simp)+

lemma wait_runs_out: "runs_out d h s state s' \<Longrightarrow> waitReady d h s = Some (Some (timed_out state), s')"
  by (induction rule: runs_out.induct) (subst waitReady.simps, simp)+

definition waited :: "'s dial_driver \<Rightarrow> handle \<Rightarrow> 's \<Rightarrow> goerr option \<times> 's \<Rightarrow> bool" where
  "waited d h s r \<longleftrightarrow> (case fst r of
     None \<Rightarrow> comes_up d h s (snd r)
   | Some e \<Rightarrow> \<exists>state. runs_out d h s state (snd r) \<and> e = timed_out state)"

lemma wait_returned:
  assumes "waitReady d h s = Some r"
  shows "waited d h s r"
proof (rule waitReady.raw_induct [OF _ assms])
  fix wait :: "'a dial_driver \<Rightarrow> handle \<Rightarrow> 'a \<Rightarrow> (goerr option \<times> 'a) option" and d h s r
  assume IH: "\<And>d h s r. wait d h s = Some r \<Longrightarrow> waited d h s r"
    and body: "(case dl_GetState d h s of (state, s1) \<Rightarrow>
      if state = Ready then Some (None, s1)
      else case dl_WaitForStateChange d h state s1 of (changed, s2) \<Rightarrow>
        if \<not> changed then Some (Some (timed_out state), s2) else wait d h s2) = Some r"
  obtain state s1 where st: "dl_GetState d h s = (state, s1)" by (metis surj_pair)
  obtain changed s2 where chg: "dl_WaitForStateChange d h state s1 = (changed, s2)" by (metis surj_pair)
  consider "state = Ready" | "state \<noteq> Ready" "\<not> changed" | "state \<noteq> Ready" "changed" by blast
  then show "waited d h s r"
  proof cases
    case 1
    with body st show ?thesis by (auto simp: waited_def intro: comes_up.up)
  next
    case 2
    then have "runs_out d h s state s2" using st chg by (auto intro: runs_out.expired)
    with 2 body st chg show ?thesis by (auto simp: waited_def)
  next
    case 3
    with body st chg have "wait d h s2 = Some r" by simp
    from IH [OF this] 3 st chg show ?thesis
      by (auto simp: waited_def split: option.splits intro: comes_up.changed runs_out.changed)
  qed
qed

lemma map_sum_Inr: "map_sum id f x = Inr y \<longleftrightarrow> (\<exists>p. x = Inr p \<and> y = f p)"
  by (cases x) auto

section \<open>Properties\<close>

text \<open>
  C16. \<open>Start\<close> gets past its connecting phase exactly when the connection it has dialled, with the
  transport credentials first and the added options last, settles: it becomes READY, or its context
  expires, after finitely many changes of its state. A ready connection is published and ready is
  signalled. When the context expires, this very connection is closed, nothing is published, and
  the error, which names the last state, is dropped just when the parent context is done. Without
  credentials or without a connection their error is returned and nothing is dialled or published.
\<close>
theorem gcl_start_outcome:
  "case gcl_Start env d ch c (w, s) of
     None \<Rightarrow> \<exists>creds h s1. gcl_transportCredentials env (gl_cfg c) = Inr creds \<and>
       dl_NewClient d (cl_Target (gl_cfg c)) (gcl_options creds c) s = (Inr h, s1) \<and>
       \<not> (\<exists>s'. comes_up d h (dl_Connect d h s1) s') \<and>
       \<not> (\<exists>state s'. runs_out d h (dl_Connect d h s1) state s')
   | Some (err, rdy, c', (w', s')) \<Rightarrow> gl_stopCh c' = ch \<and>
       (case gcl_transportCredentials env (gl_cfg c) of
          Inl e \<Rightarrow> \<not> rdy \<and> err = Some e \<and> s' = s \<and> gcl_Conn c' = gcl_Conn c
        | Inr creds \<Rightarrow>
            (case dl_NewClient d (cl_Target (gl_cfg c)) (gcl_options creds c) s of
               (Inl e, s1) \<Rightarrow> \<not> rdy \<and> s' = s1 \<and> gcl_Conn c' = gcl_Conn c \<and>
                 err = Some (Errorf ''grpc-client: create connection to %q: %w'' [AStr (cl_Target (gl_cfg c))] [e])
             | (Inr h, s1) \<Rightarrow>
                 if rdy
                 then err = None \<and> gcl_Conn c' = Some h \<and> comes_up d h (dl_Connect d h s1) s'
                 else gcl_Conn c' = gcl_Conn c \<and>
                   (\<exists>state s2. runs_out d h (dl_Connect d h s1) state s2 \<and> s' = dl_Close d h s2 \<and>
                      err = (if dl_CtxDone d s' then None
                             else Some (Errorf ''grpc-client: connect to %q: %w'' [AStr (cl_Target (gl_cfg c))]
                                    [timed_out state])))))"
proof -
  have same: "gl_cfg (gcl_begin ch c) = gl_cfg c" "gcl_options cr (gcl_begin ch c) = gcl_options cr c"
    "gl_stopCh (gcl_begin ch c) = ch" "gcl_Conn (gcl_begin ch c) = gcl_Conn c"
    "gl_stopCh (gcl_publish h (gcl_begin ch c)) = ch" "gcl_Conn (gcl_publish h x) = Some h" for cr h x
    by (simp_all add: gcl_begin_def gcl_options_def gcl_Conn_def gcl_publish_def)
  note defs = gcl_Start_def gcl_connect_def same
  show ?thesis
  proof (cases "gcl_transportCredentials env (gl_cfg c)")
    case (Inl e)
    then show ?thesis by (simp add: defs)
  next
    case cr: (Inr creds)
    obtain r s1 where new: "dl_NewClient d (cl_Target (gl_cfg c)) (gcl_options creds c) s = (r, s1)"
      by (metis surj_pair)
    show ?thesis
    proof (cases r)
      case (Inl e)
      with cr new show ?thesis by (simp add: defs)
    next
      case conn: (Inr h)
      show ?thesis
      proof (cases "waitReady d h (dl_Connect d h s1)")
        case None
        then have "\<not> comes_up d h (dl_Connect d h s1) x" "\<not> runs_out d h (dl_Connect d h s1) state x" for x state
          using wait_comes_up wait_runs_out by fastforce+
        with None cr new conn show ?thesis by (simp add: defs)
      next
        case (Some a)
        obtain e s2 where "a = (e, s2)" by (metis surj_pair)
        with Some wait_returned [OF Some] cr new conn show ?thesis
          by (cases e) (auto simp: defs Let_def waited_def)
      qed
    qed
  qed
qed

text \<open>
  Transport security fails closed: with TLS enabled the result is TLS with the configured
  floor, authorities and client key pair, or an error, never plaintext.
\<close>
theorem gcl_tls_fails_closed:
  "case gcl_transportCredentials env c of
     Inr Insecure \<Rightarrow> \<not> cl_TLS c
   | Inr (NewTLS t) \<Rightarrow> cl_TLS c \<and> min_version (cl_TLSMinVersion c) = Some (tc_MinVersion t) \<and>
       tc_InsecureSkipVerify t = cl_TLSInsecureSkipVerify c \<and> tc_ServerName t = cl_TLSServerName c \<and>
       (if cl_TLSCAFile c = '''' then tc_RootCAs t = None
        else \<exists>pem. os_ReadFile env (cl_TLSCAFile c) = Inr pem \<and> pem_has_certs env pem \<and>
          tc_RootCAs t = Some pem) \<and>
       (if cl_TLSCertFile c = '''' then cl_TLSKeyFile c = '''' \<and> tc_Certificates t = []
        else \<exists>cert. tls_LoadX509KeyPair env (cl_TLSCertFile c) (cl_TLSKeyFile c) = Inr cert \<and>
          cl_TLSKeyFile c \<noteq> '''' \<and> tc_Certificates t = [cert])
   | Inl e \<Rightarrow> cl_TLS c"
proof (cases "cl_TLS c")
  case False
  then show ?thesis by (simp add: gcl_transportCredentials_def)
next
  case True
  then show ?thesis
    by (cases "cl_TLSCAFile c = ''''"; cases "cl_TLSCertFile c = ''''"; cases "cl_TLSKeyFile c = ''''")
      (auto simp: gcl_transportCredentials_def Let_def map_sum_Inr
        split: option.splits sum.splits dest!: load_pool_Inr)
qed

end
