(* ===== verification/Fiber.thy ===== *)
theory Fiber
  imports Observe Lifecycle
begin

text \<open>
  The fiber module: \<open>Config\<close> and the settings of the app, \<open>Register\<close> and \<open>Use\<close>, the order in
  which \<open>Start\<close> installs middleware and routes, the error handler, the helpers, Swagger, and
  \<open>Start\<close> with its context watcher, \<open>Stop\<close> and \<open>Health\<close> as a system of goroutines. Fiber itself
  is a parameter wherever the source asks it something: which paths a call of \<open>app.Use\<close>
  serves, the text of an error, the answer to the health probe.
\<close>

section \<open>Configuration\<close>

record fiber_config =
  fc_Host :: string
  fc_Port :: int
  fc_PathPrefix :: string
  fc_BodyLimitMB :: int
  fc_CORSAllowOrigins :: "string list"
  fc_CORSAllowMethods :: "string list"
  fc_CORSAllowHeaders :: "string list"
  fc_ReadTimeout :: duration
  fc_WriteTimeout :: duration
  fc_IdleTimeout :: duration
  fc_ShutdownTimeout :: duration
  fc_HealthTimeout :: duration
  fc_ReadBufferSize :: int
  fc_ErrorHandler :: "nat option"
  fc_LoggerFormat :: string
  fc_EnableSecurityHeaders :: "bool option"
  fc_CompressNext :: "nat option"
  fc_DisableCompress :: bool
  fc_TrustProxy :: bool
  fc_TrustProxyConfig :: nat
  fc_ProxyHeader :: string
  fc_EnableIPValidation :: bool

definition fiber_addr :: "fiber_config \<Rightarrow> string" where
  "fiber_addr c =
     (let host = (if fc_Host c = '''' then ''0.0.0.0'' else fc_Host c);
          port = (if fc_Port c = 0 then 8080 else fc_Port c)
      in host_port host port)"

definition fiber_pathPrefix :: "fiber_config \<Rightarrow> string" where
  "fiber_pathPrefix c = (if fc_PathPrefix c \<noteq> '''' then fc_PathPrefix c else ''/api/v1'')"

definition fiber_shutdownTimeout :: "fiber_config \<Rightarrow> duration" where
  "fiber_shutdownTimeout c = (if fc_ShutdownTimeout c > 0 then fc_ShutdownTimeout c else 10 * second)"

definition fiber_healthTimeout :: "fiber_config \<Rightarrow> duration" where
  "fiber_healthTimeout c = (if fc_HealthTimeout c > 0 then fc_HealthTimeout c else 5 * second)"

definition fiber_bodyLimitBytes :: "fiber_config \<Rightarrow> int" where
  "fiber_bodyLimitBytes c =
     (if fc_BodyLimitMB c > 0 then wrap64 (wrap64 (fc_BodyLimitMB c * 1024) * 1024) else 4 * 1024 * 1024)"

definition fiber_corsOrigins :: "fiber_config \<Rightarrow> string list" where
  "fiber_corsOrigins c = (if length (fc_CORSAllowOrigins c) > 0 then fc_CORSAllowOrigins c else [''*''])"

definition fiber_corsMethods :: "fiber_config \<Rightarrow> string list" where
  "fiber_corsMethods c =
     (if length (fc_CORSAllowMethods c) > 0 then fc_CORSAllowMethods c
      else [''GET'', ''POST'', ''PUT'', ''PATCH'', ''DELETE'', ''OPTIONS''])"

definition fiber_corsHeaders :: "fiber_config \<Rightarrow> string list" where
  "fiber_corsHeaders c = (if length (fc_CORSAllowHeaders c) > 0 then fc_CORSAllowHeaders c else [''*''])"

text \<open>The default format of the request log, a constant text, stands as None.\<close>

definition fiber_loggerFormat :: "fiber_config \<Rightarrow> string option" where
  "fiber_loggerFormat c = (if fc_LoggerFormat c \<noteq> '''' then Some (fc_LoggerFormat c) else None)"

definition fiber_securityHeaders :: "fiber_config \<Rightarrow> bool" where
  "fiber_securityHeaders c = (case fc_EnableSecurityHeaders c of Some b \<Rightarrow> b | None \<Rightarrow> True)"

text \<open>An error handler: \<open>DefaultErrorHandler\<close> or the caller's, a number.\<close>

datatype error_handler = DefaultHandler | CallerHandler nat

definition fiber_errorHandler :: "fiber_config \<Rightarrow> error_handler" where
  "fiber_errorHandler c = (case fc_ErrorHandler c of Some h \<Rightarrow> CallerHandler h | None \<Rightarrow> DefaultHandler)"

section \<open>Requests, errors and helpers\<close>

record request =
  rq_method :: string
  rq_path :: string
  rq_headers :: "string \<Rightarrow> string"
  rq_ip :: string

record route =
  rt_Method :: string
  rt_Path :: string

record response =
  rs_status :: int
  rs_error :: string

fun is_fiber_error :: "goerr \<Rightarrow> bool" where
  "is_fiber_error (FiberError n m) = True"
| "is_fiber_error _ = False"

fun is_statuser :: "goerr \<Rightarrow> bool" where
  "is_statuser (StatusError n m) = True"
| "is_statuser _ = False"

fun error_code :: "goerr \<Rightarrow> int" where
  "error_code (FiberError n m) = n"
| "error_code (StatusError n m) = n"
| "error_code _ = 0"

text \<open>\<open>DefaultErrorHandler\<close>; \<open>text_of\<close> is \<open>err.Error()\<close>.\<close>

definition DefaultErrorHandler :: "(goerr \<Rightarrow> string) \<Rightarrow> goerr \<Rightarrow> response" where
  "DefaultErrorHandler text_of err =
     (let body = text_of err
      in case errors_as is_fiber_error err of
           Some fe \<Rightarrow> \<lparr>rs_status = error_code fe, rs_error = body\<rparr>
         | None \<Rightarrow>
             (case errors_as is_statuser err of
                Some se \<Rightarrow> \<lparr>rs_status = error_code se, rs_error = body\<rparr>
              | None \<Rightarrow> \<lparr>rs_status = 500, rs_error = body\<rparr>))"

definition RealIP :: "request \<Rightarrow> string" where
  "RealIP r = (let xff = rq_headers r ''X-Forwarded-For'' in if xff \<noteq> '''' then xff else rq_ip r)"

fun ExcludeRoutes :: "route list \<Rightarrow> request \<Rightarrow> bool" where
  "ExcludeRoutes [] c = True"
| "ExcludeRoutes (r # routes) c =
     (if rq_method c = rt_Method r \<and> rq_path c = rt_Path r then False else ExcludeRoutes routes c)"

text \<open>
  The wiring the comment of \<open>ExcludeRoutes\<close> gives as its example: does the authentication
  middleware run on a request?
\<close>

definition documented_auth :: "route list \<Rightarrow> request \<Rightarrow> bool" where
  "documented_auth routes c = (let skipper = ExcludeRoutes routes in if skipper c then False else True)"

section \<open>The component\<close>

text \<open>An argument of \<open>Use\<close>: a path or a handler.\<close>

datatype use_arg = PathArg string | HandlerArg nat

text \<open>A \<open>RegisterFunc\<close>: the caller's, a number, or the one \<open>WithSwagger\<close> registers.\<close>

record swagger_config =
  sw_JSONPath :: string
  sw_UIPath :: string

datatype route_action =
    StaticFile string
  | SwaggerUI string
  | RedirectTo string
  | HealthHandler
  | DomainRoutes nat

datatype register_fn = UserFn nat | SwaggerFn swagger_config

record fiber_comp =
  fi_cfg :: fiber_config
  fi_name :: string
  fi_healthClient :: duration
  fi_app :: "handle option"
  fi_listening :: bool
  fi_stopCh :: chan
  fi_routes :: "register_fn list"
  fi_middleware :: "use_arg list list"

definition newHealthClient :: "duration \<Rightarrow> duration" where "newHealthClient timeout = timeout"

definition fiber_New :: "fiber_config \<Rightarrow> (fiber_comp \<Rightarrow> fiber_comp) list \<Rightarrow> fiber_comp" where
  "fiber_New cfg opts =
     fold (\<lambda>opt c. opt c) opts
       \<lparr>fi_cfg = cfg, fi_name = ''fiber'', fi_healthClient = newHealthClient (fiber_healthTimeout cfg),
        fi_app = None, fi_listening = False, fi_stopCh = 0, fi_routes = [], fi_middleware = []\<rparr>"

definition fiber_WithName :: "string \<Rightarrow> fiber_comp \<Rightarrow> fiber_comp" where
  "fiber_WithName name c = c\<lparr>fi_name := name\<rparr>"

definition fiber_Name :: "fiber_comp \<Rightarrow> string" where "fiber_Name c = fi_name c"
definition fiber_App :: "fiber_comp \<Rightarrow> handle option" where "fiber_App c = fi_app c"

definition fiber_Register :: "register_fn \<Rightarrow> fiber_comp \<Rightarrow> fiber_comp" where
  "fiber_Register fn c = c\<lparr>fi_routes := fi_routes c @ [fn]\<rparr>"

definition fiber_Use :: "use_arg list \<Rightarrow> fiber_comp \<Rightarrow> fiber_comp" where
  "fiber_Use args c =
     (if length args = 0 then c else c\<lparr>fi_middleware := fi_middleware c @ [args]\<rparr>)"

definition uiPath :: "swagger_config \<Rightarrow> string" where
  "uiPath s = (if sw_UIPath s \<noteq> '''' then sw_UIPath s else ''/docs'')"

definition WithSwagger :: "swagger_config \<Rightarrow> fiber_comp \<Rightarrow> fiber_comp" where
  "WithSwagger cfg c = fiber_Register (SwaggerFn cfg) c"

section \<open>What Start installs\<close>

record gf_config =
  gf_BodyLimit :: int
  gf_ReadBufferSize :: int
  gf_ReadTimeout :: duration
  gf_WriteTimeout :: duration
  gf_IdleTimeout :: duration
  gf_ErrorHandler :: error_handler
  gf_TrustProxy :: bool
  gf_TrustProxyConfig :: nat
  gf_ProxyHeader :: string
  gf_EnableIPValidation :: bool

definition fiber_appConfig :: "fiber_config \<Rightarrow> gf_config" where
  "fiber_appConfig c =
     \<lparr>gf_BodyLimit = fiber_bodyLimitBytes c, gf_ReadBufferSize = fc_ReadBufferSize c,
      gf_ReadTimeout = fc_ReadTimeout c, gf_WriteTimeout = fc_WriteTimeout c,
      gf_IdleTimeout = fc_IdleTimeout c, gf_ErrorHandler = fiber_errorHandler c,
      gf_TrustProxy = fc_TrustProxy c, gf_TrustProxyConfig = fc_TrustProxyConfig c,
      gf_ProxyHeader = fc_ProxyHeader c, gf_EnableIPValidation = fc_EnableIPValidation c\<rparr>"

datatype builtin =
    Recover
  | CORS "string list" "string list" "string list"
  | SecurityHeaders
  | Compress "nat option"
  | RequestLogger "string option"

text \<open>
  What is installed, in order: a call of \<open>app.Use\<close> with a built-in middleware or with the
  arguments of one call of \<open>Use\<close>; \<open>root.Use\<close>, and routes, on the group of the path prefix, which
  carry their pattern.
\<close>

datatype installed =
    AppUse builtin
  | AppUseArgs "use_arg list"
  | RootUse builtin
  | RootUseAt string route_action
  | RootGet string route_action
  | RootFn nat

definition apply_register :: "fiber_config \<Rightarrow> register_fn \<Rightarrow> installed list" where
  "apply_register cfg fn =
     (case fn of
        UserFn k \<Rightarrow> [RootFn k]
      | SwaggerFn s \<Rightarrow>
          (let jsonRoute = uiPath s @ ''/swagger.json''; uiRoute = uiPath s @ ''/*''
           in [RootUseAt jsonRoute (StaticFile (sw_JSONPath s)),
               RootGet uiRoute (SwaggerUI (fiber_pathPrefix cfg @ jsonRoute)),
               RootGet ''/'' (RedirectTo (fiber_pathPrefix cfg @ uiPath s))]))"

definition fiber_builtins :: "fiber_config \<Rightarrow> installed list" where
  "fiber_builtins cfg =
     [AppUse Recover, AppUse (CORS (fiber_corsOrigins cfg) (fiber_corsMethods cfg) (fiber_corsHeaders cfg))] @
     (if fiber_securityHeaders cfg then [AppUse SecurityHeaders] else []) @
     (if \<not> fc_DisableCompress cfg then [AppUse (Compress (fc_CompressNext cfg))] else [])"

definition fiber_install :: "fiber_comp \<Rightarrow> installed list" where
  "fiber_install c =
     (let cfg = fi_cfg c
      in fiber_builtins cfg @ map AppUseArgs (fi_middleware c) @ [RootGet ''/health'' HealthHandler] @
         (if fc_LoggerFormat cfg \<noteq> ''-'' then [RootUse (RequestLogger (fiber_loggerFormat cfg))] else []) @
         concat (map (apply_register cfg) (fi_routes c)))"

definition security_header_list :: "(string \<times> string) list" where
  "security_header_list =
     [(''Strict-Transport-Security'', ''max-age=63072000; includeSubDomains; preload''),
      (''X-Frame-Options'', ''DENY''),
      (''Cross-Origin-Opener-Policy'', ''same-origin''),
      (''Cross-Origin-Embedder-Policy'', ''require-corp'')]"

text \<open>
  The caller's handlers that see a request path, in order. \<open>serves ps path\<close> says whether a call of
  \<open>app.Use\<close> with the path arguments \<open>ps\<close> serves the path.
\<close>

fun path_args :: "use_arg list \<Rightarrow> string list" where
  "path_args [] = []"
| "path_args (PathArg p # as) = p # path_args as"
| "path_args (HandlerArg h # as) = path_args as"

fun handler_args :: "use_arg list \<Rightarrow> nat list" where
  "handler_args [] = []"
| "handler_args (PathArg p # as) = handler_args as"
| "handler_args (HandlerArg h # as) = h # handler_args as"

fun handlers_seen :: "(string list \<Rightarrow> string \<Rightarrow> bool) \<Rightarrow> string \<Rightarrow> installed list \<Rightarrow> nat list" where
  "handlers_seen serves path [] = []"
| "handlers_seen serves path (AppUseArgs as # xs) =
     (if serves (path_args as) path then handler_args as else []) @ handlers_seen serves path xs"
| "handlers_seen serves path (_ # xs) = handlers_seen serves path xs"

section \<open>Health\<close>

text \<open>\<open>probe\<close>: building the request may fail, then sending it; else a status comes back.\<close>

definition fiber_Health :: "(string \<Rightarrow> goerr option) \<Rightarrow> (string \<Rightarrow> int result) \<Rightarrow> fiber_comp \<Rightarrow> goerr option" where
  "fiber_Health build probe c =
     (if \<not> fi_listening c then Some (Errorf ''fiber: server is not listening'' [] [])
      else (let url = ''http://'' @ fiber_addr (fi_cfg c) @ fiber_pathPrefix (fi_cfg c) @ ''/health''
            in case build url of
                 Some e \<Rightarrow> Some (Errorf ''fiber: health probe: %w'' [] [e])
               | None \<Rightarrow>
                   (case probe url of
                      Inl e \<Rightarrow> Some (Errorf ''fiber: health probe: %w'' [] [e])
                    | Inr status \<Rightarrow>
                        (if status \<noteq> 204 then Some (Errorf ''fiber: health probe returned %d'' [AInt status] [])
                         else None))))"

section \<open>The goroutines\<close>

text \<open>
  The three critical sections of \<open>Start\<close> (before \<open>Listen\<close>, in the \<open>OnListen\<close> hook, after
  \<open>Listen\<close> has returned an error or nil).
\<close>

definition fiber_publish :: "handle \<Rightarrow> chan \<Rightarrow> fiber_comp \<Rightarrow> fiber_comp" where
  "fiber_publish app ch c = c\<lparr>fi_app := Some app, fi_stopCh := ch\<rparr>"

definition fiber_onListen :: "fiber_comp \<Rightarrow> fiber_comp" where
  "fiber_onListen c = c\<lparr>fi_listening := True\<rparr>"

definition fiber_listen_failed :: "fiber_comp \<Rightarrow> fiber_comp" where
  "fiber_listen_failed c = c\<lparr>fi_app := None\<rparr>"

definition fiber_listen_done :: "fiber_comp \<Rightarrow> fiber_comp" where
  "fiber_listen_done c = c\<lparr>fi_listening := False, fi_app := None\<rparr>"

text \<open>
  A run of \<open>Start\<close>: building the app; in \<open>Listen\<close> before the port is bound; serving; returned.
  Every run that has published its app has a context watcher: waiting, about to shut the app
  down, or gone. A run of \<open>Stop\<close>: about to shut down the app it read, or gone.
\<close>

datatype frun =
    FBuilding
  | FBinding handle
  | FServing handle
  | FReturned "goerr option"

datatype fwatch = FWatching chan handle nat | FShutting handle | FGone

datatype fstop = FStopping handle | FStopped

record fsys =
  fs_comp :: fiber_comp
  fs_closed :: "chan set"
  fs_next_chan :: chan
  fs_next_app :: handle
  fs_runs :: "frun list"
  fs_watch :: "fwatch list"
  fs_stops :: "fstop list"
  fs_shut :: "handle set"
  fs_ctx :: "nat set"
  fs_readies :: "nat list"

datatype fevent =
    FStart
  | FPublish nat
  | FOnListen nat
  | FListenErr nat goerr
  | FListenEnd nat
  | FCancel nat
  | FWatchCtx nat
  | FWatchStop nat
  | FWatchShut nat
  | FStop
  | FStopShut nat

definition f_at :: "fsys \<Rightarrow> nat \<Rightarrow> frun option" where
  "f_at s t = (if t < length (fs_runs s) then Some (fs_runs s ! t) else None)"

definition f_set :: "nat \<Rightarrow> frun \<Rightarrow> fsys \<Rightarrow> fsys" where
  "f_set t p s = s\<lparr>fs_runs := (fs_runs s)[t := p]\<rparr>"

text \<open>
  With \<open>solo\<close> the schedule is a supervisor's: \<open>Start\<close> is called when no run of it is in progress.
  \<open>Listen\<close> returns nil only for an app that \<open>ShutdownWithContext\<close> was called on; it need not: a
  shutdown that comes before the library has registered its listener has no effect there, and
  \<open>Listen\<close> may fail after one. The relation allows more than the library does, and is used for
  what holds in all its states.
\<close>

fun fiber_step :: "bool \<Rightarrow> fevent \<Rightarrow> fsys \<Rightarrow> fsys option" where
  "fiber_step solo FStart s =
     (if solo \<and> (\<exists>p \<in> set (fs_runs s). \<forall>e. p \<noteq> FReturned e) then None
      else Some (s\<lparr>fs_runs := fs_runs s @ [FBuilding]\<rparr>))"
| "fiber_step solo (FPublish t) s =
     (case f_at s t of
        Some FBuilding \<Rightarrow>
          Some (f_set t (FBinding (fs_next_app s))
            (s\<lparr>fs_comp := fiber_publish (fs_next_app s) (fs_next_chan s) (fs_comp s),
               fs_next_chan := Suc (fs_next_chan s), fs_next_app := Suc (fs_next_app s),
               fs_watch := fs_watch s @ [FWatching (fs_next_chan s) (fs_next_app s) t]\<rparr>))
      | _ \<Rightarrow> None)"
| "fiber_step solo (FOnListen t) s =
     (case f_at s t of
        Some (FBinding app) \<Rightarrow>
          Some (f_set t (FServing app)
            (s\<lparr>fs_comp := fiber_onListen (fs_comp s), fs_readies := fs_readies s @ [t]\<rparr>))
      | _ \<Rightarrow> None)"
| "fiber_step solo (FListenErr t e) s =
     (case f_at s t of
        Some (FBinding app) \<Rightarrow>
          Some (f_set t (FReturned (Some (Errorf ''fiber: listen: %w'' [] [e])))
            (s\<lparr>fs_comp := fiber_listen_failed (fs_comp s)\<rparr>))
      | Some (FServing app) \<Rightarrow>
          Some (f_set t (FReturned (Some (Errorf ''fiber: listen: %w'' [] [e])))
            (s\<lparr>fs_comp := fiber_listen_failed (fs_comp s)\<rparr>))
      | _ \<Rightarrow> None)"
| "fiber_step solo (FListenEnd t) s =
     (case f_at s t of
        Some (FBinding app) \<Rightarrow>
          if app \<in> fs_shut s
          then Some (f_set t (FReturned None) (s\<lparr>fs_comp := fiber_listen_done (fs_comp s)\<rparr>)) else None
      | Some (FServing app) \<Rightarrow>
          if app \<in> fs_shut s
          then Some (f_set t (FReturned None) (s\<lparr>fs_comp := fiber_listen_done (fs_comp s)\<rparr>)) else None
      | _ \<Rightarrow> None)"
| "fiber_step solo (FCancel t) s = Some (s\<lparr>fs_ctx := insert t (fs_ctx s)\<rparr>)"
| "fiber_step solo (FWatchCtx i) s =
     (if i < length (fs_watch s) then
        case fs_watch s ! i of
          FWatching ch app t \<Rightarrow>
            if t \<in> fs_ctx s then Some (s\<lparr>fs_watch := (fs_watch s)[i := FShutting app]\<rparr>) else None
        | _ \<Rightarrow> None
      else None)"
| "fiber_step solo (FWatchStop i) s =
     (if i < length (fs_watch s) then
        case fs_watch s ! i of
          FWatching ch app t \<Rightarrow>
            if ch \<in> fs_closed s then Some (s\<lparr>fs_watch := (fs_watch s)[i := FGone]\<rparr>) else None
        | _ \<Rightarrow> None
      else None)"
| "fiber_step solo (FWatchShut i) s =
     (if i < length (fs_watch s) then
        case fs_watch s ! i of
          FShutting app \<Rightarrow>
            Some (s\<lparr>fs_watch := (fs_watch s)[i := FGone], fs_shut := insert app (fs_shut s)\<rparr>)
        | _ \<Rightarrow> None
      else None)"
| "fiber_step solo FStop s =
     (let ch = fi_stopCh (fs_comp s); app = fi_app (fs_comp s)
      in Some (s\<lparr>fs_closed := (if ch \<in> fs_closed s then fs_closed s else insert ch (fs_closed s)),
                 fs_stops := fs_stops s @ [case app of None \<Rightarrow> FStopped | Some a \<Rightarrow> FStopping a]\<rparr>))"
| "fiber_step solo (FStopShut i) s =
     (if i < length (fs_stops s) then
        case fs_stops s ! i of
          FStopping app \<Rightarrow>
            Some (s\<lparr>fs_stops := (fs_stops s)[i := FStopped], fs_shut := insert app (fs_shut s)\<rparr>)
        | FStopped \<Rightarrow> None
      else None)"

fun fiber_run :: "bool \<Rightarrow> fevent list \<Rightarrow> fsys \<Rightarrow> fsys option" where
  "fiber_run solo [] s = Some s"
| "fiber_run solo (e # es) s =
     (case fiber_step solo e s of None \<Rightarrow> None | Some s' \<Rightarrow> fiber_run solo es s')"

definition fsys0 :: "fiber_comp \<Rightarrow> fsys" where
  "fsys0 c = \<lparr>fs_comp = c, fs_closed = {}, fs_next_chan = 1, fs_next_app = 0, fs_runs = [], fs_watch = [],
     fs_stops = [], fs_shut = {}, fs_ctx = {}, fs_readies = []\<rparr>"

section \<open>Lemmas\<close>

fun active :: "frun \<Rightarrow> bool" where
  "active (FReturned e) = False"
| "active _ = True"

fun app_of :: "frun \<Rightarrow> handle option" where
  "app_of (FBinding a) = Some a"
| "app_of (FServing a) = Some a"
| "app_of _ = None"

fun serving :: "frun \<Rightarrow> bool" where
  "serving (FServing a) = True"
| "serving _ = False"

text \<open>A run that signalled ready and then returned an error: what leaves \<open>listening\<close> set.\<close>

definition died_serving :: "fsys \<Rightarrow> bool" where
  "died_serving s \<longleftrightarrow>
     (\<exists>t \<in> set (fs_readies s). \<exists>e. t < length (fs_runs s) \<and> fs_runs s ! t = FReturned (Some e))"

definition fiber_inv :: "fsys \<Rightarrow> bool" where
  "fiber_inv s \<longleftrightarrow>
     (\<forall>p \<in> set (butlast (fs_runs s)). \<not> active p) \<and>
     fi_app (fs_comp s) = (if fs_runs s = [] then None else app_of (last (fs_runs s))) \<and>
     (fs_runs s \<noteq> [] \<and> serving (last (fs_runs s)) \<longrightarrow>
        fi_listening (fs_comp s) \<and> length (fs_runs s) - 1 \<in> set (fs_readies s)) \<and>
     (fi_listening (fs_comp s) \<longrightarrow> fs_runs s \<noteq> [] \<and> serving (last (fs_runs s)) \<or> died_serving s) \<and>
     distinct (fs_readies s) \<and>
     (\<forall>t \<in> set (fs_readies s). t < length (fs_runs s) \<and> fs_runs s ! t \<noteq> FBuilding \<and>
        (\<forall>a. fs_runs s ! t \<noteq> FBinding a))"

lemma active_iff: "active p \<longleftrightarrow> (\<forall>e. p \<noteq> FReturned e)"
  by (cases p) simp_all

text \<open>Under a supervisor the run that moves is the last one.\<close>

lemma active_last:
  assumes "fiber_inv s" and "f_at s t = Some p" and "active p"
  obtains ps where "fs_runs s = ps @ [p]" and "t = length ps" and "\<And>q. q \<in> set ps \<Longrightarrow> \<not> active q"
proof (cases "fs_runs s" rule: rev_cases)
  case Nil
  with assms(2) show ?thesis by (simp add: f_at_def)
next
  case (snoc ps q)
  from assms(1) snoc have old: "\<And>x. x \<in> set ps \<Longrightarrow> \<not> active x" by (simp add: fiber_inv_def)
  have "t = length ps"
  proof (rule ccontr)
    assume "t \<noteq> length ps"
    with assms(2) snoc have "p \<in> set ps"
      by (auto simp: f_at_def nth_append less_Suc_eq split: if_splits)
    with old assms(3) show False by blast
  qed
  with assms(2) snoc that old show ?thesis by (simp add: f_at_def)
qed

lemma died_keeps:
  assumes "died_serving s" and "fs_runs s = ps @ [p]" and "active p"
    and "fs_runs s' = ps @ [p']" and "set (fs_readies s) \<subseteq> set (fs_readies s')"
  shows "died_serving s'"
proof -
  from assms(1,2) obtain t e where t: "t \<in> set (fs_readies s)" "t < length (ps @ [p])"
    "(ps @ [p]) ! t = FReturned (Some e)" by (auto simp: died_serving_def)
  with assms(3) have "t < length ps" by (auto simp: nth_append less_Suc_eq)
  with t assms(4,5) show ?thesis
    unfolding died_serving_def by (intro bexI [of _ t] exI [of _ e]) (auto simp: nth_append)
qed

lemma move_last:
  assumes inv: "fiber_inv s" and at: "f_at s t = Some p" and "active p"
    and s': "fs_runs s' = (fs_runs s)[t := p']"
    and app: "fi_app (fs_comp s') = app_of p'"
    and listen: "serving p' \<Longrightarrow> fi_listening (fs_comp s')"
    and heard: "fi_listening (fs_comp s') \<Longrightarrow>
      serving p' \<or> fi_listening (fs_comp s) \<and> (serving p \<longrightarrow> (\<exists>e. p' = FReturned (Some e)))"
    and ready: "fs_readies s' = fs_readies s @ (if serving p' then [t] else [])"
    and early: "serving p' \<Longrightarrow> \<exists>a. p = FBinding a"
    and later: "active p' \<Longrightarrow> \<not> serving p' \<Longrightarrow> p = FBuilding"
  shows "fiber_inv s'"
proof -
  obtain ps where runs: "fs_runs s = ps @ [p]" and t: "t = length ps"
    and old: "\<And>q. q \<in> set ps \<Longrightarrow> \<not> active q"
    using active_last [OF inv at assms(3)] by blast
  have runs': "fs_runs s' = ps @ [p']" using s' runs t by simp
  have was: "serving p \<Longrightarrow> t \<in> set (fs_readies s)" using inv runs t by (simp add: fiber_inv_def)
  have fresh: "t \<notin> set (fs_readies s)" if "p = FBuilding \<or> (\<exists>a. p = FBinding a)"
    using that inv runs t by (auto simp: fiber_inv_def)
  have died: "died_serving s'" if "fi_listening (fs_comp s')" "\<not> serving p'"
  proof (cases "serving p")
    case True
    with heard that obtain e where "p' = FReturned (Some e)" by blast
    with was [OF True] runs' t ready show ?thesis
      unfolding died_serving_def by (intro bexI [of _ t] exI [of _ e]) auto
  next
    case False
    with heard that inv runs have "died_serving s" by (auto simp: fiber_inv_def)
    then show ?thesis by (rule died_keeps [OF _ runs assms(3) runs']) (simp add: ready)
  qed
  have "\<forall>u \<in> set (fs_readies s'). u < length (ps @ [p']) \<and> (ps @ [p']) ! u \<noteq> FBuilding \<and>
      (\<forall>a. (ps @ [p']) ! u \<noteq> FBinding a)"
  proof
    fix u
    assume u: "u \<in> set (fs_readies s')"
    show "u < length (ps @ [p']) \<and> (ps @ [p']) ! u \<noteq> FBuilding \<and> (\<forall>a. (ps @ [p']) ! u \<noteq> FBinding a)"
    proof (cases "u = t")
      case True
      with u ready fresh later have "serving p' \<or> \<not> active p'" by (auto split: if_splits)
      then show ?thesis using True t by (cases p') auto
    next
      case False
      with u ready have "u \<in> set (fs_readies s)" by (auto split: if_splits)
      with inv runs have "u < length (ps @ [p])" "(ps @ [p]) ! u \<noteq> FBuilding \<and> (\<forall>a. (ps @ [p]) ! u \<noteq> FBinding a)"
        by (auto simp: fiber_inv_def)
      with False t show ?thesis by (auto simp: nth_append)
    qed
  qed
  moreover have "distinct (fs_readies s')"
    using inv ready fresh early by (auto simp: fiber_inv_def)
  ultimately show ?thesis
    using old app listen died runs' ready t by (auto simp: fiber_inv_def)
qed

text \<open>A step that leaves the runs, the component's app and flag, and the signals as they are.\<close>

lemma inv_same:
  assumes "fiber_inv s" and "fs_runs s' = fs_runs s" and "fs_comp s' = fs_comp s"
    and "fs_readies s' = fs_readies s"
  shows "fiber_inv s'"
proof -
  have "died_serving s' = died_serving s" using assms by (simp add: died_serving_def)
  with assms show ?thesis by (simp add: fiber_inv_def)
qed

lemma f_set_sel [simp]:
  "fs_runs (f_set t p s) = (fs_runs s)[t := p]" "fs_comp (f_set t p s) = fs_comp s"
  "fs_readies (f_set t p s) = fs_readies s"
  by (simp_all add: f_set_def)

lemmas fiber_sections = fiber_publish_def fiber_onListen_def fiber_listen_failed_def fiber_listen_done_def

lemma fiber_inv_step:
  assumes step: "fiber_step True e s = Some s'" and inv: "fiber_inv s"
  shows "fiber_inv s'"
proof (cases e)
  case FStart
  with step have idle: "\<And>p. p \<in> set (fs_runs s) \<Longrightarrow> \<not> active p"
    and s': "s' = s\<lparr>fs_runs := fs_runs s @ [FBuilding]\<rparr>"
    by (auto simp: active_iff split: if_splits)
  have "fs_runs s = [] \<or> \<not> active (last (fs_runs s))" using idle by auto
  then have app: "fi_app (fs_comp s) = None" and quiet: "\<not> (fs_runs s \<noteq> [] \<and> serving (last (fs_runs s)))"
    using inv by (cases "last (fs_runs s)"; auto simp: fiber_inv_def)+
  have "died_serving s'" if "died_serving s"
  proof -
    from that obtain t x where "t \<in> set (fs_readies s)" "t < length (fs_runs s)"
      "fs_runs s ! t = FReturned (Some x)" by (auto simp: died_serving_def)
    then show ?thesis
      unfolding died_serving_def s' by (intro bexI [of _ t] exI [of _ x]) (simp_all add: nth_append)
  qed
  with inv app quiet idle show ?thesis by (auto simp: s' fiber_inv_def nth_append)
next
  case (FPublish t)
  with step obtain app where "f_at s t = Some FBuilding" and "fs_runs s' = (fs_runs s)[t := FBinding app]"
    "fi_app (fs_comp s') = Some app" "fi_listening (fs_comp s') = fi_listening (fs_comp s)"
    "fs_readies s' = fs_readies s"
    by (auto simp: fiber_sections split: option.splits frun.splits)
  then show ?thesis by (intro move_last [OF inv]) auto
next
  case (FOnListen t)
  with step obtain app where at: "f_at s t = Some (FBinding app)" and s': "fs_runs s' = (fs_runs s)[t := FServing app]"
    "fs_comp s' = fiber_onListen (fs_comp s)" "fs_readies s' = fs_readies s @ [t]"
    by (auto split: option.splits frun.splits)
  obtain ps where "fs_runs s = ps @ [FBinding app]"
    by (rule active_last [OF inv at]) simp_all
  with inv have "fi_app (fs_comp s) = Some app" by (simp add: fiber_inv_def)
  then show ?thesis
    by (intro move_last [OF inv at _ s'(1)]) (simp_all add: s' fiber_sections)
next
  case (FListenErr t x)
  with step obtain p y where at: "f_at s t = Some p" and p: "active p"
    and s': "fs_runs s' = (fs_runs s)[t := FReturned (Some y)]"
    "fs_comp s' = fiber_listen_failed (fs_comp s)" "fs_readies s' = fs_readies s"
    by (auto split: option.splits frun.splits)
  show ?thesis by (intro move_last [OF inv at p s'(1)]) (simp_all add: s' fiber_sections)
next
  case (FListenEnd t)
  with step obtain p where at: "f_at s t = Some p" and p: "active p"
    and s': "fs_runs s' = (fs_runs s)[t := FReturned None]"
    "fs_comp s' = fiber_listen_done (fs_comp s)" "fs_readies s' = fs_readies s"
    by (auto split: option.splits frun.splits if_splits)
  show ?thesis by (intro move_last [OF inv at p s'(1)]) (simp_all add: s' fiber_sections)
qed (use step inv in \<open>auto simp: Let_def split: if_splits fwatch.splits fstop.splits intro: inv_same\<close>)

lemma fiber_inv_run: "fiber_run True es s = Some s' \<Longrightarrow> fiber_inv s \<Longrightarrow> fiber_inv s'"
  by (induction es arbitrary: s) (auto split: option.splits dest: fiber_inv_step)

lemma fiber_new_state:
  "fi_app (fiber_New cfg (map fiber_WithName names)) = None \<and>
   fi_listening (fiber_New cfg (map fiber_WithName names)) = False"
  by (simp add: fiber_New_def fiber_WithName_def
      fold_options [of fi_app fiber_WithName] fold_options [of fi_listening fiber_WithName])

lemma fiber_inv_init: "fiber_inv (fsys0 (fiber_New cfg (map fiber_WithName names)))"
  using fiber_new_state by (simp add: fiber_inv_def fsys0_def)

section \<open>Properties\<close>

text \<open>
  C15. What the component says of itself is true of its current run, for every interleaving under a
  supervisor: \<open>App\<close> is the app of the run that is binding or serving, and nil otherwise; while a run
  serves, \<open>listening\<close> is set; when it is set and no run serves, some run has signalled ready and
  then failed; and no run signals ready twice.
\<close>
theorem fiber_state_tracks_run:
  assumes "fiber_run True es (fsys0 (fiber_New cfg (map fiber_WithName names))) = Some s"
  shows "fiber_App (fs_comp s) = (if fs_runs s = [] then None else app_of (last (fs_runs s))) \<and>
    (if fs_runs s \<noteq> [] \<and> serving (last (fs_runs s)) then fi_listening (fs_comp s)
     else fi_listening (fs_comp s) = False \<or> died_serving s) \<and>
    distinct (fs_readies s)"
  using fiber_inv_run [OF assms fiber_inv_init] by (auto simp: fiber_inv_def fiber_App_def)

definition fiber_cfg0 :: fiber_config where
  "fiber_cfg0 = \<lparr>fc_Host = '''', fc_Port = 0, fc_PathPrefix = '''', fc_BodyLimitMB = 0,
     fc_CORSAllowOrigins = [], fc_CORSAllowMethods = [], fc_CORSAllowHeaders = [], fc_ReadTimeout = 0,
     fc_WriteTimeout = 0, fc_IdleTimeout = 0, fc_ShutdownTimeout = 0, fc_HealthTimeout = 0,
     fc_ReadBufferSize = 0, fc_ErrorHandler = None, fc_LoggerFormat = '''', fc_EnableSecurityHeaders = None,
     fc_CompressNext = None, fc_DisableCompress = False, fc_TrustProxy = False, fc_TrustProxyConfig = 0,
     fc_ProxyHeader = '''', fc_EnableIPValidation = False\<rparr>"

text \<open>A run, stopped, and a restart that is serving.\<close>

definition fiber_restart :: "fevent list" where
  "fiber_restart = [FStart, FPublish 0, FOnListen 0, FStop, FStopShut 0, FListenEnd 0, FWatchStop 0,
                    FStart, FPublish 1, FOnListen 1]"

lemmas fiber_eval = fsys0_def fiber_New_def newHealthClient_def f_at_def f_set_def fiber_sections Let_def

theorem fiber_state_tracks_run_witness:
  "\<exists>s. fiber_run True fiber_restart (fsys0 (fiber_New fiber_cfg0 (map fiber_WithName []))) = Some s \<and>
     fiber_App (fs_comp s) = Some 1 \<and> fi_listening (fs_comp s)"
proof -
  obtain s where run: "fiber_run True fiber_restart (fsys0 (fiber_New fiber_cfg0 (map fiber_WithName []))) = Some s"
    and "fs_runs s = [FReturned None, FServing 1]"
    by (simp add: fiber_restart_def fiber_eval)
  with fiber_state_tracks_run [OF run] show ?thesis by simp
qed

text \<open>Nothing is shut down on its own: it takes a \<open>Stop\<close> or a cancelled context.\<close>

definition asks_end :: "fevent list \<Rightarrow> bool" where
  "asks_end es \<longleftrightarrow> FStop \<in> set es \<or> (\<exists>t. FCancel t \<in> set es)"

definition fiber_quiet :: "fsys \<Rightarrow> bool" where
  "fiber_quiet s \<longleftrightarrow> fs_shut s = {} \<and> fs_ctx s = {} \<and> set (fs_stops s) \<subseteq> {FStopped} \<and>
     (\<forall>a. FShutting a \<notin> set (fs_watch s))"

lemma fiber_quiet_step:
  assumes "fiber_step solo e s = Some s'" and "fiber_quiet s" and "\<not> asks_end [e]"
  shows "fiber_quiet s'"
proof (cases e)
  case (FStopShut i)
  with assms(1,2) show ?thesis by (auto simp: fiber_quiet_def split: if_splits fstop.splits dest!: nth_mem)
next
  case (FWatchShut i)
  with assms(1,2) show ?thesis by (auto simp: fiber_quiet_def split: if_splits fwatch.splits dest!: nth_mem)
qed (use assms in \<open>auto simp: fiber_quiet_def asks_end_def f_set_def split: if_splits option.splits
       frun.splits fwatch.splits dest!: subsetD [OF set_update_subset_insert]\<close>)

lemma fiber_quiet_run:
  "fiber_run solo es s = Some s' \<Longrightarrow> fiber_quiet s \<Longrightarrow> \<not> asks_end es \<Longrightarrow> fiber_quiet s'"
proof (induction es arbitrary: s)
  case (Cons e es)
  then obtain s1 where "fiber_step solo e s = Some s1" "fiber_run solo es s1 = Some s'"
    by (auto split: option.splits)
  with Cons fiber_quiet_step show ?case by (fastforce simp: asks_end_def)
qed simp

text \<open>
  C35. How a serving run ends, for every interleaving under a supervisor: while the run of app \<open>a\<close>
  serves, any step leaves it serving, with \<open>App\<close> and \<open>listening\<close> as they are, or \<open>Listen\<close> returns
  nil, which it does only if \<open>a\<close> was shut down and a \<open>Stop\<close> or a cancellation has come before, and
  then \<open>App\<close> is nil and \<open>listening\<close> is reset; or \<open>Listen\<close> returns an error, and then \<open>App\<close> is nil
  but \<open>listening\<close> stays set. A \<open>Stop\<close> takes exactly this app to shut down, and the stop channel of
  the run, which its context watcher waits on, is closed.
\<close>
theorem fiber_run_ends:
  assumes "fiber_run True es (fsys0 (fiber_New cfg (map fiber_WithName names))) = Some s"
    and "fs_runs s = rs @ [FServing a]" and "fiber_step True e s = Some s'"
  shows "(fs_runs s' = fs_runs s \<and> fiber_App (fs_comp s') = Some a \<and> fi_listening (fs_comp s') \<or>
     fs_runs s' = rs @ [FReturned None] \<and> a \<in> fs_shut s \<and> asks_end es \<and>
       fiber_App (fs_comp s') = None \<and> \<not> fi_listening (fs_comp s') \<or>
     (\<exists>x. fs_runs s' = rs @ [FReturned (Some (Errorf ''fiber: listen: %w'' [] [x]))] \<and>
       fiber_App (fs_comp s') = None \<and> fi_listening (fs_comp s'))) \<and>
    (e = FStop \<longrightarrow> fs_stops s' = fs_stops s @ [FStopping a] \<and> fi_stopCh (fs_comp s) \<in> fs_closed s')"
proof -
  let ?new = "fsys0 (fiber_New cfg (map fiber_WithName names))"
  have inv: "fiber_inv s" by (rule fiber_inv_run [OF assms(1) fiber_inv_init])
  with assms(2) have app: "fi_app (fs_comp s) = Some a" and up: "fi_listening (fs_comp s)"
    by (simp_all add: fiber_inv_def)
  have asked: "asks_end es" if "a \<in> fs_shut s"
  proof (rule ccontr)
    assume "\<not> asks_end es"
    moreover have "fiber_quiet ?new" by (simp add: fiber_quiet_def fsys0_def)
    ultimately have "fiber_quiet s" using fiber_quiet_run [OF assms(1)] by blast
    with that show False by (simp add: fiber_quiet_def)
  qed
  have last: "t = length rs \<and> p = FServing a" if at: "f_at s t = Some p" and "active p" for t p
    using active_last [OF inv at \<open>active p\<close>] assms(2) by (metis append1_eq_conv)
  show ?thesis
  proof (cases e)
    case FStart
    with assms(2,3) show ?thesis by simp
  next
    case (FPublish t)
    with assms(3) last [of t FBuilding] show ?thesis by (auto split: option.splits frun.splits)
  next
    case (FOnListen t)
    with assms(3) last [of t "FBinding b" for b] show ?thesis by (auto split: option.splits frun.splits)
  next
    case (FListenErr t x)
    with assms(3) obtain p where p: "f_at s t = Some p" "active p"
      "s' = f_set t (FReturned (Some (Errorf ''fiber: listen: %w'' [] [x]))) (s\<lparr>fs_comp := fiber_listen_failed (fs_comp s)\<rparr>)"
      by (auto split: option.splits frun.splits)
    with last [OF p(1,2)] assms(2) up FListenErr show ?thesis
      by (simp add: fiber_sections fiber_App_def)
  next
    case (FListenEnd t)
    with assms(3) obtain p where p: "f_at s t = Some p" "active p" "p = FServing a \<longrightarrow> a \<in> fs_shut s"
      "s' = f_set t (FReturned None) (s\<lparr>fs_comp := fiber_listen_done (fs_comp s)\<rparr>)"
      by (auto split: option.splits frun.splits if_splits)
    with last [OF p(1,2)] assms(2) asked FListenEnd show ?thesis
      by (simp add: fiber_sections fiber_App_def)
  qed (use assms(2,3) app up in \<open>auto simp: fiber_App_def Let_def split: if_splits fwatch.splits fstop.splits\<close>)
qed

theorem fiber_run_ends_witness:
  "\<exists>s s'. fiber_run True (fiber_restart @ [FStop, FStopShut 1]) (fsys0 (fiber_New fiber_cfg0 (map fiber_WithName []))) = Some s \<and>
     fiber_step True (FListenEnd 1) s = Some s' \<and> fs_runs s' = [FReturned None, FReturned None] \<and>
     fiber_App (fs_comp s') = None \<and> \<not> fi_listening (fs_comp s')"
proof -
  obtain s where run: "fiber_run True (fiber_restart @ [FStop, FStopShut 1])
      (fsys0 (fiber_New fiber_cfg0 (map fiber_WithName []))) = Some s"
    and at: "fs_runs s = [FReturned None] @ [FServing 1]" "1 \<in> fs_shut s"
    by (simp add: fiber_restart_def fiber_eval)
  then obtain s' where step: "fiber_step True (FListenEnd 1) s = Some s'"
    and runs: "fs_runs s' = [FReturned None, FReturned None]"
    by (simp add: f_at_def)
  have "fiber_App (fs_comp s') = None" "\<not> fi_listening (fs_comp s')"
    using fiber_run_ends [OF run at(1) step] runs at(1) by auto
  with runs step run show ?thesis by blast
qed

text \<open>
  A \<open>Stop\<close> that comes before the app is published is lost: it finds no app and returns, and
  \<open>Start\<close> goes on to bind the port and serve; and a run that fails while serving leaves
  \<open>listening\<close> set although no app is left.
\<close>
theorem fiber_stop_gaps:
  "(\<exists>s. fiber_run True [FStart, FStop, FPublish 0, FOnListen 0] (fsys0 (fiber_New cfg [])) = Some s \<and>
      fs_stops s = [FStopped] \<and> fs_runs s = [FServing 0] \<and> fs_shut s = {} \<and>
      fi_stopCh (fs_comp s) \<notin> fs_closed s) \<and>
   (\<exists>s. fiber_run True [FStart, FPublish 0, FOnListen 0, FListenErr 0 e] (fsys0 (fiber_New cfg [])) = Some s \<and>
      fi_listening (fs_comp s) \<and> fiber_App (fs_comp s) = None \<and>
      fs_runs s = [FReturned (Some (Errorf ''fiber: listen: %w'' [] [e]))])"
  by (simp add: fiber_eval fiber_App_def)

text \<open>What \<open>Use\<close> collects: the non-empty calls, in order, each as it was made.\<close>

lemma use_collects: "fi_middleware (fold fiber_Use calls c) = fi_middleware c @ filter (\<lambda>as. as \<noteq> []) calls"
  by (induction calls arbitrary: c) (simp_all add: fiber_Use_def)

lemma use_keeps: "fi_cfg (fold fiber_Use calls c) = fi_cfg c \<and> fi_routes (fold fiber_Use calls c) = fi_routes c"
  by (induction calls arbitrary: c) (simp_all add: fiber_Use_def)

lemma handlers_seen_append:
  "handlers_seen serves path (xs @ ys) = handlers_seen serves path xs @ handlers_seen serves path ys"
  by (induction serves path xs rule: handlers_seen.induct) simp_all

lemma handlers_seen_none:
  "(\<And>x. x \<in> set xs \<Longrightarrow> \<forall>as. x \<noteq> AppUseArgs as) \<Longrightarrow> handlers_seen serves path xs = []"
  by (induction serves path xs rule: handlers_seen.induct) auto

lemma handlers_seen_calls:
  "handlers_seen serves path (map AppUseArgs calls) =
     concat (map (\<lambda>as. if serves (path_args as) path then handler_args as else []) calls)"
  by (induction calls) simp_all

lemma handler_args_nil:
  "concat (map (\<lambda>as. if serves (path_args as) path then handler_args as else []) (filter (\<lambda>as. as \<noteq> []) xs)) =
   concat (map (\<lambda>as. if serves (path_args as) path then handler_args as else []) xs)"
  by (induction xs) simp_all

lemma register_no_use: "x \<in> set (apply_register cfg fn) \<Longrightarrow> \<forall>as. x \<noteq> AppUseArgs as"
  by (auto simp: apply_register_def Let_def split: register_fn.splits)

text \<open>
  C21. Middleware scopes do not leak: the caller's handlers that see a path are those of each call of
  \<open>Use\<close> by itself, in the order of the calls, whatever paths the other calls name; so, where a call
  without a path serves every path, its handlers guard every path.
\<close>
theorem fiber_use_isolated:
  assumes "fi_middleware c = []"
  shows "handlers_seen serves path (fiber_install (fold fiber_Use calls c)) =
      concat (map (\<lambda>as. if serves (path_args as) path then handler_args as else []) calls)"
proof -
  let ?c = "fold fiber_Use calls c"
  have "handlers_seen serves path (fiber_builtins cfg) = []" for cfg
    by (rule handlers_seen_none) (auto simp: fiber_builtins_def split: if_splits)
  moreover have "handlers_seen serves path (concat (map (apply_register cfg) fns)) = []" for cfg fns
    by (rule handlers_seen_none) (auto dest: register_no_use)
  ultimately have "handlers_seen serves path (fiber_install ?c) =
      handlers_seen serves path (map AppUseArgs (fi_middleware ?c))"
    by (simp add: fiber_install_def Let_def handlers_seen_append)
  then show ?thesis
    using assms by (simp add: use_collects handlers_seen_calls handler_args_nil)
qed

theorem fiber_use_isolated_witness:
  "handlers_seen (\<lambda>ps path. ps = [] \<or> (\<exists>p \<in> set ps. p = path)) ''/users''
     (fiber_install (fold fiber_Use [[HandlerArg 1], [PathArg ''/docs'', HandlerArg 2], [], [HandlerArg 3]]
        (fiber_New fiber_cfg0 []))) = [1, 3]"
  using fiber_use_isolated [of "fiber_New fiber_cfg0 []" "\<lambda>ps path. ps = [] \<or> (\<exists>p \<in> set ps. p = path)"
      "''/users''" "[[HandlerArg 1], [PathArg ''/docs'', HandlerArg 2], [], [HandlerArg 3]]"]
  by (simp add: fiber_New_def)

lemma exclude_iff: "ExcludeRoutes routes c \<longleftrightarrow> \<lparr>rt_Method = rq_method c, rt_Path = rq_path c\<rparr> \<notin> set routes"
proof (induction routes)
  case (Cons r routes)
  have "(\<lparr>rt_Method = rq_method c, rt_Path = rq_path c\<rparr> = r) =
      (rq_method c = rt_Method r \<and> rq_path c = rt_Path r)"
    by (cases r) auto
  with Cons show ?case by auto
qed simp

text \<open>
  C22. \<open>ExcludeRoutes\<close> skips every request except those on a listed route, so the wiring its comment
  gives, to authenticate everything except the listed routes, authenticates exactly these.
\<close>
theorem fiber_exclude_inverted:
  "(documented_auth routes c \<longleftrightarrow> \<lparr>rt_Method = rq_method c, rt_Path = rq_path c\<rparr> \<in> set routes) \<and>
   (ExcludeRoutes routes c \<longleftrightarrow> \<lparr>rt_Method = rq_method c, rt_Path = rq_path c\<rparr> \<notin> set routes)"
  by (simp add: documented_auth_def exclude_iff)

text \<open>
  The default error handler answers with the status of the first fiber error in the chain,
  however deeply it is wrapped; without one with that of the first error that knows its
  status; without either with 500; and the body is always the text of the whole error.
\<close>
theorem fiber_error_status:
  "rs_error (DefaultErrorHandler text err) = text err \<and>
   ((\<exists>m. errors_is err (FiberError (rs_status (DefaultErrorHandler text err)) m)) \<or>
    errors_as is_fiber_error err = None \<and>
      ((\<exists>m. errors_is err (StatusError (rs_status (DefaultErrorHandler text err)) m)) \<or>
       errors_as is_statuser err = None \<and> rs_status (DefaultErrorHandler text err) = 500))"
proof (cases "errors_as is_fiber_error err")
  case (Some fe)
  with errors_as_chain [OF Some] show ?thesis
    by (cases fe) (auto simp: DefaultErrorHandler_def)
next
  case fiber: None
  show ?thesis
  proof (cases "errors_as is_statuser err")
    case (Some se)
    with fiber errors_as_chain [OF Some] show ?thesis
      by (cases se) (auto simp: DefaultErrorHandler_def)
  qed (simp add: fiber DefaultErrorHandler_def)
qed

end
