(* ===== verification/Prometheus.thy ===== *)
theory Prometheus
  imports Observe Lifecycle
begin

text \<open>
  The prometheus module: \<open>Config\<close>, \<open>New\<close> and its registry, the \<open>Observer\<close> that turns the
  supervisor's events into metrics, and \<open>Start\<close>, \<open>Stop\<close>, \<open>Health\<close> as a system of goroutines over
  one component and its port. The registry of client_golang is a parameter, the record
  \<open>prom_lib\<close>; of \<open>net\<close> and \<open>net/http\<close> the model uses that one listener at a time binds the address,
  and that it is open until the server is shut down or \<open>Serve\<close> fails.
\<close>

section \<open>Configuration\<close>

record prom_config =
  pc_Host :: string
  pc_Port :: int
  pc_Path :: string
  pc_ReadTimeout :: duration
  pc_WriteTimeout :: duration
  pc_DisableRuntimeCollectors :: bool

definition prom_port :: "prom_config \<Rightarrow> int" where
  "prom_port c = (if pc_Port c = 0 then 2112 else pc_Port c)"

definition prom_path :: "prom_config \<Rightarrow> string" where
  "prom_path c = (if pc_Path c = '''' then ''/metrics'' else pc_Path c)"

definition prom_addr :: "prom_config \<Rightarrow> string" where
  "prom_addr c = host_port (pc_Host c) (prom_port c)"

definition prom_readTimeout :: "prom_config \<Rightarrow> duration" where
  "prom_readTimeout c = (if pc_ReadTimeout c \<le> 0 then 5 * second else pc_ReadTimeout c)"

definition prom_writeTimeout :: "prom_config \<Rightarrow> duration" where
  "prom_writeTimeout c = (if pc_WriteTimeout c \<le> 0 then 30 * second else pc_WriteTimeout c)"

section \<open>The component\<close>

datatype collector =
    GoCollector
  | ProcessCollector
  | GaugeVec string
  | CounterVec string
  | HistogramVec string

text \<open>\<open>MustRegister\<close> panics, here None, when the registry refuses a collector.\<close>

record 'r prom_lib =
  pl_NewRegistry :: 'r
  pl_MustRegister :: "collector list \<Rightarrow> 'r \<Rightarrow> 'r option"

record 'r prom_comp =
  pm_cfg :: prom_config
  pm_name :: string
  pm_registry :: "'r option"
  pm_server :: "handle option"
  pm_stopCh :: chan

definition observer_collectors :: "collector list" where
  "observer_collectors =
     [GaugeVec ''samsara_component_up'', CounterVec ''samsara_component_starts_total'',
      CounterVec ''samsara_component_restarts_total'', CounterVec ''samsara_component_stop_errors_total'',
      HistogramVec ''samsara_component_health_check_duration_seconds'',
      CounterVec ''samsara_component_health_check_failures_total'']"

definition newObserver :: "'r prom_lib \<Rightarrow> 'r \<Rightarrow> 'r option" where
  "newObserver lib reg = pl_MustRegister lib observer_collectors reg"

definition prom_New ::
  "'r prom_lib \<Rightarrow> prom_config \<Rightarrow> ('r prom_comp \<Rightarrow> 'r prom_comp) list \<Rightarrow> 'r prom_comp option" where
  "prom_New lib cfg opts =
     (let c = fold (\<lambda>opt c. opt c) opts
        \<lparr>pm_cfg = cfg, pm_name = ''prometheus'', pm_registry = None, pm_server = None, pm_stopCh = 0\<rparr>;
          reg = (case pm_registry c of
             Some r \<Rightarrow> Some r
           | None \<Rightarrow>
               (if \<not> pc_DisableRuntimeCollectors cfg
                then pl_MustRegister lib [GoCollector, ProcessCollector] (pl_NewRegistry lib)
                else Some (pl_NewRegistry lib)))
      in case reg of None \<Rightarrow> None
         | Some r \<Rightarrow> map_option (\<lambda>r'. c\<lparr>pm_registry := Some r'\<rparr>) (newObserver lib r))"

definition prom_WithName :: "string \<Rightarrow> 'r prom_comp \<Rightarrow> 'r prom_comp" where
  "prom_WithName name c = c\<lparr>pm_name := name\<rparr>"

definition prom_WithRegistry :: "'r \<Rightarrow> 'r prom_comp \<Rightarrow> 'r prom_comp" where
  "prom_WithRegistry reg c = c\<lparr>pm_registry := Some reg\<rparr>"

definition prom_Name :: "'r prom_comp \<Rightarrow> string" where "prom_Name c = pm_name c"
definition prom_Registry :: "'r prom_comp \<Rightarrow> 'r option" where "prom_Registry c = pm_registry c"

definition prom_ErrNotReady :: goerr where "prom_ErrNotReady = Sentinel ''prometheus: not started''"

definition prom_Health :: "'r prom_comp \<Rightarrow> goerr option" where
  "prom_Health c = (if pm_server c = None then Some prom_ErrNotReady else None)"

text \<open>The server \<open>Start\<close> builds, and what \<open>Stop\<close> returns for the outcome of its shutdown.\<close>

record http_server =
  hs_Addr :: string
  hs_Route :: string
  hs_ReadTimeout :: duration
  hs_WriteTimeout :: duration

definition prom_server :: "prom_config \<Rightarrow> http_server" where
  "prom_server c = \<lparr>hs_Addr = prom_addr c, hs_Route = prom_path c,
     hs_ReadTimeout = prom_readTimeout c, hs_WriteTimeout = prom_writeTimeout c\<rparr>"

definition DeadlineExceeded :: goerr where "DeadlineExceeded = Sentinel ''context deadline exceeded''"
definition Canceled :: goerr where "Canceled = Sentinel ''context canceled''"

definition prom_stop_result :: "goerr option \<Rightarrow> goerr option \<Rightarrow> goerr option" where
  "prom_stop_result shutdown_err close_err =
     (case shutdown_err of
        None \<Rightarrow> None
      | Some e \<Rightarrow>
          (if errors_is e DeadlineExceeded \<or> errors_is e Canceled then close_err
           else Some (Errorf ''prometheus: shutdown: %w'' [] [e])))"

section \<open>The observer\<close>

text \<open>The series of one metric: a label that was never used has no series.\<close>

record observer =
  ob_up :: "string \<rightharpoonup> int"
  ob_starts :: "string \<rightharpoonup> nat"
  ob_restarts :: "string \<rightharpoonup> nat"
  ob_stopErrors :: "string \<rightharpoonup> nat"
  ob_healthDur :: "string \<rightharpoonup> duration list"
  ob_healthFailure :: "string \<rightharpoonup> nat"

definition observer0 :: observer where
  "observer0 = \<lparr>ob_up = Map.empty, ob_starts = Map.empty, ob_restarts = Map.empty,
     ob_stopErrors = Map.empty, ob_healthDur = Map.empty, ob_healthFailure = Map.empty\<rparr>"

definition inc :: "string \<Rightarrow> (string \<rightharpoonup> nat) \<Rightarrow> (string \<rightharpoonup> nat)" where
  "inc k m = m(k \<mapsto> (case m k of None \<Rightarrow> 1 | Some n \<Rightarrow> Suc n))"

definition sample :: "string \<Rightarrow> duration \<Rightarrow> (string \<rightharpoonup> duration list) \<Rightarrow> (string \<rightharpoonup> duration list)" where
  "sample k d m = m(k \<mapsto> (case m k of None \<Rightarrow> [d] | Some ds \<Rightarrow> ds @ [d]))"

definition ComponentStarted :: "string \<Rightarrow> observer \<Rightarrow> observer" where
  "ComponentStarted k ob = ob\<lparr>ob_up := (ob_up ob)(k \<mapsto> 1), ob_starts := inc k (ob_starts ob)\<rparr>"

definition ComponentStopped :: "string \<Rightarrow> goerr option \<Rightarrow> observer \<Rightarrow> observer" where
  "ComponentStopped k err ob =
     (let ob = ob\<lparr>ob_up := (ob_up ob)(k \<mapsto> 0)\<rparr>
      in if err \<noteq> None then ob\<lparr>ob_stopErrors := inc k (ob_stopErrors ob)\<rparr> else ob)"

definition ComponentRestarting :: "string \<Rightarrow> observer \<Rightarrow> observer" where
  "ComponentRestarting k ob = ob\<lparr>ob_up := (ob_up ob)(k \<mapsto> 0), ob_restarts := inc k (ob_restarts ob)\<rparr>"

definition HealthCheckCompleted :: "string \<Rightarrow> duration \<Rightarrow> goerr option \<Rightarrow> observer \<Rightarrow> observer" where
  "HealthCheckCompleted k d err ob =
     (let ob = ob\<lparr>ob_healthDur := sample k d (ob_healthDur ob)\<rparr>
      in if err \<noteq> None then ob\<lparr>ob_healthFailure := inc k (ob_healthFailure ob)\<rparr> else ob)"

text \<open>The supervisor's calls, as events.\<close>

datatype obs_event =
    EvStarted string
  | EvStopped string "goerr option"
  | EvRestarting string
  | EvHealth string duration "goerr option"

fun on_event :: "obs_event \<Rightarrow> observer \<Rightarrow> observer" where
  "on_event (EvStarted k) = ComponentStarted k"
| "on_event (EvStopped k e) = ComponentStopped k e"
| "on_event (EvRestarting k) = ComponentRestarting k"
| "on_event (EvHealth k d e) = HealthCheckCompleted k d e"

section \<open>The goroutines\<close>

definition prom_begin :: "chan \<Rightarrow> 'r prom_comp \<Rightarrow> 'r prom_comp" where
  "prom_begin ch c = c\<lparr>pm_stopCh := ch\<rparr>"

definition prom_publish :: "handle \<Rightarrow> 'r prom_comp \<Rightarrow> 'r prom_comp" where
  "prom_publish srv c = c\<lparr>pm_server := Some srv\<rparr>"

definition prom_swap :: "chan \<Rightarrow> 'r prom_comp \<Rightarrow> 'r prom_comp" where
  "prom_swap ch c = c\<lparr>pm_stopCh := ch, pm_server := None\<rparr>"

text \<open>
  A run of \<open>Start\<close> once it has published its server: before \<open>ready()\<close>; in the last \<open>select\<close>;
  returned. A run of \<open>Stop\<close>: past the critical section; about to close; about to shut down; gone.
\<close>

datatype ppc =
    PPublished chan handle
  | PBlocked chan handle
  | PReturned "goerr option"
  | PSwapped chan "handle option"
  | PClosing chan "handle option"
  | PSignalled "handle option"
  | PStopped

text \<open>
  \<open>ps_bound\<close> counts the listeners of runs that have bound the port and not yet published;
  \<open>ps_open\<close> are the servers whose listener is open, \<open>ps_failed\<close> what \<open>Serve\<close> sent to \<open>errCh\<close>.
\<close>

record 'r psys =
  ps_comp :: "'r prom_comp"
  ps_closed :: "chan set"
  ps_next_chan :: chan
  ps_next_srv :: handle
  ps_pcs :: "ppc list"
  ps_bound :: nat
  ps_open :: "handle set"
  ps_failed :: "handle \<rightharpoonup> goerr"
  ps_shut :: "handle list"
  ps_readies :: "nat list"
  ps_panicked :: bool

datatype pevent =
    PBind
  | PPublish
  | PReady nat
  | PServeFail handle goerr
  | PError nat
  | PServed nat
  | PWake nat
  | PCtx nat
  | PStop
  | PCheck nat
  | PClose nat
  | PShutdown nat

definition ps_at :: "'r psys \<Rightarrow> nat \<Rightarrow> ppc option" where
  "ps_at s t = (if t < length (ps_pcs s) then Some (ps_pcs s ! t) else None)"

definition ps_set :: "nat \<Rightarrow> ppc \<Rightarrow> 'r psys \<Rightarrow> 'r psys" where
  "ps_set t p s = s\<lparr>ps_pcs := (ps_pcs s)[t := p]\<rparr>"

text \<open>\<open>net.Listen\<close>: an address that a listener of this process holds cannot be bound again.\<close>

definition port_free :: "'r psys \<Rightarrow> bool" where
  "port_free s \<longleftrightarrow> ps_bound s = 0 \<and> ps_open s = {}"

fun prom_step :: "pevent \<Rightarrow> 'r psys \<Rightarrow> 'r psys option" where
  "prom_step PBind s = (if port_free s then Some (s\<lparr>ps_bound := Suc (ps_bound s)\<rparr>) else None)"
| "prom_step PPublish s =
     (case ps_bound s of
        0 \<Rightarrow> None
      | Suc n \<Rightarrow>
          Some (s\<lparr>ps_comp := prom_publish (ps_next_srv s) (prom_begin (ps_next_chan s) (ps_comp s)),
                  ps_next_chan := Suc (ps_next_chan s), ps_next_srv := Suc (ps_next_srv s),
                  ps_pcs := ps_pcs s @ [PPublished (ps_next_chan s) (ps_next_srv s)],
                  ps_bound := n, ps_open := insert (ps_next_srv s) (ps_open s)\<rparr>))"
| "prom_step (PReady t) s =
     (case ps_at s t of
        Some (PPublished ch srv) \<Rightarrow>
          Some (ps_set t (PBlocked ch srv) (s\<lparr>ps_readies := ps_readies s @ [t]\<rparr>))
      | _ \<Rightarrow> None)"
| "prom_step (PServeFail srv e) s =
     (if srv \<in> ps_open s
      then Some (s\<lparr>ps_open := ps_open s - {srv}, ps_failed := (ps_failed s)(srv \<mapsto> e)\<rparr>) else None)"
| "prom_step (PError t) s =
     (case ps_at s t of
        Some (PBlocked ch srv) \<Rightarrow>
          (case ps_failed s srv of
             None \<Rightarrow> None
           | Some e \<Rightarrow> Some (ps_set t (PReturned (Some (Errorf ''prometheus: serve: %w'' [] [e]))) s))
      | _ \<Rightarrow> None)"
| "prom_step (PServed t) s =
     (case ps_at s t of
        Some (PBlocked ch srv) \<Rightarrow>
          if srv \<in> set (ps_shut s) then Some (ps_set t (PReturned None) s) else None
      | _ \<Rightarrow> None)"
| "prom_step (PWake t) s =
     (case ps_at s t of
        Some (PBlocked ch srv) \<Rightarrow>
          if ch \<in> ps_closed s then Some (ps_set t (PReturned None) s) else None
      | _ \<Rightarrow> None)"
| "prom_step (PCtx t) s =
     (case ps_at s t of
        Some (PBlocked ch srv) \<Rightarrow> Some (ps_set t (PReturned None) s)
      | _ \<Rightarrow> None)"
| "prom_step PStop s =
     Some (s\<lparr>ps_comp := prom_swap (ps_next_chan s) (ps_comp s),
             ps_closed := insert (ps_next_chan s) (ps_closed s), ps_next_chan := Suc (ps_next_chan s),
             ps_pcs := ps_pcs s @ [PSwapped (pm_stopCh (ps_comp s)) (pm_server (ps_comp s))]\<rparr>)"
| "prom_step (PCheck t) s =
     (case ps_at s t of
        Some (PSwapped ch h) \<Rightarrow>
          Some (ps_set t (if ch \<in> ps_closed s then PSignalled h else PClosing ch h) s)
      | _ \<Rightarrow> None)"
| "prom_step (PClose t) s =
     (case ps_at s t of
        Some (PClosing ch h) \<Rightarrow>
          Some (ps_set t (PSignalled h)
            (s\<lparr>ps_closed := insert ch (ps_closed s), ps_panicked := ps_panicked s \<or> ch \<in> ps_closed s\<rparr>))
      | _ \<Rightarrow> None)"
| "prom_step (PShutdown t) s =
     (case ps_at s t of
        Some (PSignalled h) \<Rightarrow>
          Some (ps_set t PStopped
            (case h of None \<Rightarrow> s
             | Some srv \<Rightarrow> s\<lparr>ps_open := ps_open s - {srv}, ps_shut := ps_shut s @ [srv]\<rparr>))
      | _ \<Rightarrow> None)"

fun prom_run :: "pevent list \<Rightarrow> 'r psys \<Rightarrow> 'r psys option" where
  "prom_run [] s = Some s"
| "prom_run (e # es) s = (case prom_step e s of None \<Rightarrow> None | Some s' \<Rightarrow> prom_run es s')"

definition psys0 :: "'r prom_comp \<Rightarrow> 'r psys" where
  "psys0 c = \<lparr>ps_comp = c, ps_closed = {}, ps_next_chan = 1, ps_next_srv = 0, ps_pcs = [], ps_bound = 0,
     ps_open = {}, ps_failed = Map.empty, ps_shut = [], ps_readies = [], ps_panicked = False\<rparr>"

section \<open>The lifecycle\<close>

definition prom_ops :: "'r prom_comp lc_ops" where
  "prom_ops = \<lparr>op_stop_ch = pm_stopCh, op_handle = pm_server, op_begin = prom_begin,
               op_publish = prom_publish, op_swap = prom_swap\<rparr>"

definition prom_fresh :: "prom_config \<Rightarrow> string \<Rightarrow> 'r \<Rightarrow> 'r prom_comp" where
  "prom_fresh cfg name r =
     \<lparr>pm_cfg = cfg, pm_name = name, pm_registry = Some r, pm_server = None, pm_stopCh = 0\<rparr>"

lemma prom_New_fresh:
  "prom_New lib cfg (map prom_WithName names) = Some c \<Longrightarrow> \<exists>name r. c = prom_fresh cfg name r"
proof -
  have shape: "\<exists>name. fold (\<lambda>opt c. opt c) (map prom_WithName names)
      \<lparr>pm_cfg = cfg, pm_name = n, pm_registry = None, pm_server = None, pm_stopCh = 0\<rparr> =
      (\<lparr>pm_cfg = cfg, pm_name = name, pm_registry = None, pm_server = None, pm_stopCh = 0\<rparr> :: 'a prom_comp)"
    for n
    by (induction names arbitrary: n) (simp_all add: prom_WithName_def)
  from shape [of "''prometheus''"] obtain name where eq: "fold (\<lambda>opt c. opt c) (map prom_WithName names)
      \<lparr>pm_cfg = cfg, pm_name = ''prometheus'', pm_registry = None, pm_server = None, pm_stopCh = 0\<rparr> =
      (\<lparr>pm_cfg = cfg, pm_name = name, pm_registry = None, pm_server = None, pm_stopCh = 0\<rparr> :: 'a prom_comp)"
    by blast
  assume "prom_New lib cfg (map prom_WithName names) = Some c"
  then show ?thesis
    unfolding prom_New_def Let_def eq by (auto simp: prom_fresh_def split: option.splits if_splits)
qed

interpretation prom_lc: lifecycle prom_ops "prom_fresh cfg name r" for cfg name r
  by unfold_locales (simp_all add: prom_ops_def prom_fresh_def prom_begin_def prom_publish_def prom_swap_def)

interpretation prom_health: health_checked prom_ops "prom_fresh cfg name r"
    "\<lambda>c. pm_cfg c = cfg \<and> pm_registry c = Some r" "\<lambda>c (_ :: unit). prom_Health c" for cfg name r
  by unfold_locales
    (simp_all add: prom_ops_def prom_fresh_def prom_begin_def prom_publish_def prom_swap_def prom_Health_def)

text \<open>
  Publication is the opening section and the publishing section of the common protocol in one;
  a \<open>Start\<close> that returns, for whatever reason, is one that returned there.
\<close>

fun prom_pc :: "ppc \<Rightarrow> pc" where
  "prom_pc (PPublished ch srv) = Published ch"
| "prom_pc (PBlocked ch srv) = Blocked ch"
| "prom_pc (PReturned e) = Returned None"
| "prom_pc (PSwapped ch h) = Swapped ch h"
| "prom_pc (PClosing ch h) = Closing ch h"
| "prom_pc (PSignalled h) = Signalled h"
| "prom_pc PStopped = Stopped"

definition prom_sys :: "'r psys \<Rightarrow> 'r prom_comp sys" where
  "prom_sys s = \<lparr>comp = ps_comp s, closed = ps_closed s, next_chan = ps_next_chan s,
     next_handle = ps_next_srv s, pcs = map prom_pc (ps_pcs s), released = ps_shut s,
     readies = ps_readies s, panicked = ps_panicked s\<rparr>"

fun prom_events :: "pevent \<Rightarrow> 'r psys \<Rightarrow> event list" where
  "prom_events PPublish s = [StartBegin, ConnectOk (length (ps_pcs s))]"
| "prom_events (PReady t) s = [CallReady t]"
| "prom_events (PError t) s = [CtxDone t]"
| "prom_events (PServed t) s = [CtxDone t]"
| "prom_events (PWake t) s = [Wake t]"
| "prom_events (PCtx t) s = [CtxDone t]"
| "prom_events PStop s = [StopSwap]"
| "prom_events (PCheck t) s = [SignalCheck t]"
| "prom_events (PClose t) s = [SignalClose t]"
| "prom_events (PShutdown t) s = [Release t]"
| "prom_events _ s = []"

lemma update_last: "(map f xs @ [y])[length xs := z] = map f xs @ [z]"
  by (metis length_map list_update_length)

lemma prom_simulates:
  "prom_step e s = Some s' \<Longrightarrow> sys_run False prom_ops (prom_events e s) (prom_sys s) = Some (prom_sys s')"
  by (cases e)
    (auto simp: ps_at_def pc_at_def prom_sys_def ps_set_def set_pc_def prom_ops_def map_update nth_append
      update_last split: if_splits option.splits ppc.splits nat.splits)

lemma prom_reachable:
  "prom_run es s = Some s' \<Longrightarrow> reachable False prom_ops c0 (prom_sys s) \<Longrightarrow>
     reachable False prom_ops c0 (prom_sys s')"
proof (induction es arbitrary: s)
  case (Cons e es)
  then obtain s1 where "prom_step e s = Some s1" "prom_run es s1 = Some s'"
    by (auto split: option.splits)
  from reachable_run [OF Cons.prems(2) prom_simulates [OF this(1)]] this(2)
  show ?case by (rule Cons.IH [rotated])
qed simp

lemma prom_sys_init: "prom_sys (psys0 c) = init_sys c"
  by (simp add: prom_sys_def psys0_def init_sys_def)

lemma prom_run_reachable:
  "prom_run es (psys0 c0) = Some s \<Longrightarrow> reachable False prom_ops c0 (prom_sys s)"
  by (erule prom_reachable) (simp add: prom_sys_init reachable.start)

text \<open>
  Listeners and servers: one listener at a time; an open one is the component's or that of a
  \<open>Stop\<close> in progress; the component's server is open unless its \<open>Serve\<close> has failed.
\<close>

definition port_inv :: "'r psys \<Rightarrow> bool" where
  "port_inv s \<longleftrightarrow>
     (ps_bound s = 0 \<or> ps_bound s = 1 \<and> ps_open s = {}) \<and>
     (\<forall>srv \<in> ps_open s. pm_server (ps_comp s) = Some srv \<or> (\<exists>t. carrier (map prom_pc (ps_pcs s)) t srv)) \<and>
     (\<forall>srv. pm_server (ps_comp s) = Some srv \<longrightarrow> srv \<in> ps_open s \<or> ps_failed s srv \<noteq> None)"

lemma carried: "t < length ps \<Longrightarrow> carries (prom_pc (ps ! t)) = Some h \<Longrightarrow> carrier (map prom_pc ps) t h"
  by (simp add: carrier_def)

lemma carrier_moved:
  assumes "t < length ps" and "carries p = carries (prom_pc (ps ! t))"
  shows "carrier ((map prom_pc ps)[t := p]) u h = carrier (map prom_pc ps) u h"
  using assms by (simp add: carrier_simps(2)) (auto simp: carrier_def)

lemma port_inv_step:
  assumes "prom_step e s = Some s'" and inv: "port_inv s" and own: "handle_inv prom_ops (prom_sys s)"
  shows "port_inv s'"
proof (cases e)
  case (PShutdown t)
  with assms(1) obtain h where t: "t < length (ps_pcs s)" "ps_pcs s ! t = PSignalled h"
    and s': "s' = ps_set t PStopped (case h of None \<Rightarrow> s
      | Some srv \<Rightarrow> s\<lparr>ps_open := ps_open s - {srv}, ps_shut := ps_shut s @ [srv]\<rparr>)"
    by (auto simp: ps_at_def split: if_splits option.splits ppc.splits)
  show ?thesis
  proof (cases h)
    case None
    with t have "\<not> carrier (map prom_pc (ps_pcs s)) t x" for x by (simp add: carrier_def)
    with t inv None show ?thesis
      by (simp add: s' port_inv_def ps_set_def map_update) metis
  next
    case (Some srv)
    with t have mine: "carrier (map prom_pc (ps_pcs s)) t srv" by (simp add: carried)
    with own have away: "pm_server (ps_comp s) \<noteq> Some srv"
      by (auto simp: handle_inv_def prom_sys_def prom_ops_def)
    have others: "u \<noteq> t" if "carrier (map prom_pc (ps_pcs s)) u x" "x \<noteq> srv" for u x
      using that mine by (auto simp: carrier_def)
    from inv away show ?thesis using t Some
      by (auto simp: s' port_inv_def ps_set_def map_update carrier_simps(2)) (use others in blast)+
  qed
next
  case PPublish
  with assms(1) inv show ?thesis
    by (auto simp: port_inv_def prom_publish_def prom_begin_def split: nat.splits)
next
  case (PCheck t)
  with assms(1) obtain ch h p where t: "t < length (ps_pcs s)" "ps_pcs s ! t = PSwapped ch h"
    and s': "s' = ps_set t p s" and p: "carries (prom_pc p) = h"
    by (auto simp: ps_at_def split: if_splits option.splits ppc.splits)
  with inv show ?thesis
    by (simp add: s' port_inv_def ps_set_def map_update carrier_moved del: carrier_simps(2))
next
  case PStop
  with assms(1) inv show ?thesis by (fastforce simp: port_inv_def prom_swap_def)
qed (use assms(1) inv in \<open>auto simp: port_inv_def port_free_def ps_at_def ps_set_def map_update carrier_moved simp del: carrier_simps(2)
      split: if_splits option.splits ppc.splits\<close>)

lemma port_inv_run:
  "prom_run es s = Some s' \<Longrightarrow> reachable False prom_ops (prom_fresh cfg name r) (prom_sys s) \<Longrightarrow>
     port_inv s \<Longrightarrow> port_inv s'"
proof (induction es arbitrary: s)
  case (Cons e es)
  then obtain s1 where s1: "prom_step e s = Some s1" "prom_run es s1 = Some s'"
    by (auto split: option.splits)
  have "handle_inv prom_ops (prom_sys s)" by (rule prom_lc.reachable_handle_inv [OF Cons.prems(2)])
  with port_inv_step [OF s1(1) Cons.prems(3)]
  show ?case
    using Cons.IH [OF s1(2) reachable_run [OF Cons.prems(2) prom_simulates [OF s1(1)]]] by blast
qed simp

section \<open>Properties\<close>

text \<open>
  C14. The metrics endpoint follows the common lifecycle: whatever runs of \<open>Start\<close> and \<open>Stop\<close>
  interleave, no channel is closed twice, no server is shut down twice, each run signals ready
  at most once; a component that reports healthy has an open listener unless its \<open>Serve\<close> has
  failed, and every open listener is the component's or being shut down.
\<close>
theorem prom_protocol:
  assumes "prom_run es (psys0 (prom_fresh cfg name r)) = Some s"
  shows "\<not> ps_panicked s \<and> distinct (ps_shut s) \<and> distinct (ps_readies s) \<and>
    (if prom_Health (ps_comp s) = None
     then \<exists>srv. pm_server (ps_comp s) = Some srv \<and> srv \<notin> set (ps_shut s) \<and>
       (srv \<in> ps_open s \<or> (\<exists>e. ps_failed s srv = Some e)) else True) \<and>
    ps_open s \<subseteq> {srv. pm_server (ps_comp s) = Some srv \<or> (\<exists>t. carrier (map prom_pc (ps_pcs s)) t srv)}"
proof -
  note here = prom_run_reachable [OF assms]
  have "reachable False prom_ops (prom_fresh cfg name r) (prom_sys (psys0 (prom_fresh cfg name r)))"
    by (simp add: prom_sys_init reachable.start)
  then have port: "port_inv s"
    by (rule port_inv_run [OF assms]) (simp add: port_inv_def psys0_def prom_fresh_def)
  have "\<not> panicked (prom_sys s)" using here by (rule prom_lc.never_panics)
  moreover have "distinct (released (prom_sys s)) \<and>
      (\<forall>h. op_handle prom_ops (comp (prom_sys s)) = Some h \<longrightarrow> h \<notin> set (released (prom_sys s)))"
    using here by (rule prom_lc.released_once)
  moreover have "distinct (readies (prom_sys s))" by (rule prom_lc.ready_once [OF here, THEN conjunct1])
  ultimately show ?thesis using port
    by (auto simp: prom_sys_def prom_ops_def prom_Health_def port_inv_def split: if_splits)
qed

definition prom_cfg0 :: prom_config where
  "prom_cfg0 = \<lparr>pc_Host = '''', pc_Port = 0, pc_Path = '''', pc_ReadTimeout = 0, pc_WriteTimeout = 0,
     pc_DisableRuntimeCollectors = True\<rparr>"

text \<open>Two overlapping \<open>Stop\<close>s of one serving run.\<close>

definition two_stops :: "pevent list" where
  "two_stops = [PBind, PPublish, PReady 0, PStop, PStop, PCheck 1, PClose 1, PCheck 2, PShutdown 2,
                PShutdown 1, PWake 0]"

theorem prom_protocol_witness:
  "\<exists>s. prom_run two_stops (psys0 (prom_fresh prom_cfg0 ''m'' ())) = Some s \<and>
     \<not> ps_panicked s \<and> ps_shut s = [0] \<and> distinct (ps_shut s)"
proof -
  obtain s where run: "prom_run two_stops (psys0 (prom_fresh prom_cfg0 ''m'' ())) = Some s" "ps_shut s = [0]"
    by (simp add: two_stops_def psys0_def prom_fresh_def port_free_def ps_at_def ps_set_def
        prom_publish_def prom_begin_def prom_swap_def)
  with prom_protocol [OF run(1)] show ?thesis by blast
qed

text \<open>
  C33. Two ways to end \<open>Start\<close> leave the component healthy when it should not be. When its context
  is cancelled \<open>Start\<close> returns nil and leaves the server running, so that the next \<open>Start\<close> cannot
  bind the port; when \<open>Serve\<close> fails, \<open>Health\<close> goes on reporting nil though nothing listens.
\<close>
theorem prom_abandoned_server:
  "(\<exists>s. prom_run [PBind, PPublish, PReady 0, PCtx 0] (psys0 (prom_fresh cfg name r)) = Some s \<and>
      ps_pcs s = [PReturned None] \<and> prom_Health (ps_comp s) = None \<and> ps_open s = {0} \<and>
      prom_step PBind s = None) \<and>
   (\<exists>s. prom_run [PBind, PPublish, PReady 0, PServeFail 0 e, PError 0] (psys0 (prom_fresh cfg name r)) = Some s \<and>
      ps_pcs s = [PReturned (Some (Errorf ''prometheus: serve: %w'' [] [e]))] \<and>
      prom_Health (ps_comp s) = None \<and> ps_open s = {})"
  by (simp add: psys0_def prom_fresh_def port_free_def ps_at_def ps_set_def prom_publish_def
      prom_begin_def prom_Health_def)

text \<open>What the events say of one component, read off the list of them.\<close>

definition counted :: "'a list \<Rightarrow> nat option" where
  "counted xs = (if xs = [] then None else Some (length xs))"

fun up_after :: "string \<Rightarrow> obs_event \<Rightarrow> int option" where
  "up_after k (EvStarted k') = (if k' = k then Some 1 else None)"
| "up_after k (EvStopped k' e) = (if k' = k then Some 0 else None)"
| "up_after k (EvRestarting k') = (if k' = k then Some 0 else None)"
| "up_after k (EvHealth k' d e) = None"

definition last_up :: "string \<Rightarrow> obs_event list \<Rightarrow> int option" where
  "last_up k es = fold (\<lambda>e acc. case up_after k e of None \<Rightarrow> acc | Some v \<Rightarrow> Some v) es None"

fun stop_failed :: "string \<Rightarrow> obs_event \<Rightarrow> bool" where
  "stop_failed k (EvStopped k' e) = (k' = k \<and> e \<noteq> None)"
| "stop_failed k _ = False"

fun health_failed :: "string \<Rightarrow> obs_event \<Rightarrow> bool" where
  "health_failed k (EvHealth k' d e) = (k' = k \<and> e \<noteq> None)"
| "health_failed k _ = False"

fun durations :: "string \<Rightarrow> obs_event list \<Rightarrow> duration list" where
  "durations k [] = []"
| "durations k (EvHealth k' d e # es) = (if k' = k then d # durations k es else durations k es)"
| "durations k (_ # es) = durations k es"

lemma durations_append: "durations k (es @ fs) = durations k es @ durations k fs"
  by (induction k es rule: durations.induct) simp_all

lemma counted_snoc [simp]: "counted (xs @ [x]) = Some (Suc (length xs))" "counted [] = None"
  by (simp_all add: counted_def)

lemma counted_case [simp]:
  "(case counted xs of None \<Rightarrow> 1 | Some n \<Rightarrow> Suc n) = Suc (length xs)"
  by (simp add: counted_def)

text \<open>
  C36. The metrics say exactly what happened: after any sequence of supervisor events, and for each
  component on its own, the gauge is 1 just when the last start, stop or restart decision was a
  start, each counter is the number of its events, and the histogram holds every health-check
  duration; a series exists only once its first event has come.
\<close>
theorem prom_observer_counts:
  "ob_up (fold on_event es observer0) k = last_up k es \<and>
   ob_starts (fold on_event es observer0) k = counted (filter (\<lambda>e. e = EvStarted k) es) \<and>
   ob_restarts (fold on_event es observer0) k = counted (filter (\<lambda>e. e = EvRestarting k) es) \<and>
   ob_stopErrors (fold on_event es observer0) k = counted (filter (stop_failed k) es) \<and>
   ob_healthFailure (fold on_event es observer0) k = counted (filter (health_failed k) es) \<and>
   ob_healthDur (fold on_event es observer0) k = (if durations k es = [] then None else Some (durations k es))"
proof (induction es rule: rev_induct)
  case Nil
  show ?case by (simp add: observer0_def last_up_def)
next
  case (snoc e es)
  then show ?case
    by (cases e)
      (auto simp: last_up_def ComponentStarted_def ComponentStopped_def ComponentRestarting_def
        HealthCheckCompleted_def Let_def inc_def sample_def durations_append)
qed

end
