(* ===== verification/Spec2Isabelle.thy ===== *)
theory Spec2Isabelle
  imports Data_Modules Rabbit_Consumers Rabbit_Lifecycle Grpc Grpcclient Fiber Prometheus
begin

text \<open>
  A verification development for samsara-components, a set of nine independent Go modules that
  wrap a server or a client library as a component of the samsara supervisor. Every component has
  \<open>New\<close>, options, \<open>Name\<close>, \<open>Start(ctx, ready)\<close>, \<open>Stop(ctx)\<close> and \<open>Health(ctx)\<close>; \<open>Start\<close> blocks until
  the context is cancelled or \<open>Stop\<close> is called, and both may run again. The modules do not call
  each other: what they share is a discipline (a mutex, a stop channel renewed by every run, a
  handle published when it is usable) and repeated code (TLS settings, instrumentation, sizes).

  \<^bold>\<open>Theories and the code they model\<close>

  \<^item> \<open>Go_Prelude\<close>, \<open>Go_Errors\<close>, \<open>Float64\<close>, \<open>Net_Url\<close>, \<open>Tls\<close>: what the source uses of Go. 64-bit
    integers that wrap (\<open>wrap64\<close>), durations in nanoseconds, decimal formatting; error values
    with \<open>errors.Is\<close> over their \<open>%w\<close> chain; binary64 with rounding to even on rationals; the
    escaping, the composing and the parsing of \<open>net/url\<close>; \<open>crypto/tls\<close> values.
  \<^item> \<open>Observe\<close>: \<open>metrics.go\<close> of the five data modules. A world keeps the log and what was
    reported; \<open>record_op\<close> calls the sink and recovers a panic, \<open>observe_handle\<close> and its variants
    time an operation that needs a handle. The shapes differ
    in where the modules look for it.
  \<^item> \<open>Lifecycle\<close>: the protocol of \<open>Start\<close> and \<open>Stop\<close> as a relation between states of one component
    and any number of goroutines, each step a critical section or a blocking operation of the
    source. A tower of locales states what \<open>begin\<close>, \<open>publish\<close> and \<open>swap\<close> must do and proves the
    invariants once: \<open>stop_signal\<close> what they do to the stop channel, \<open>lifecycle\<close> to the handle,
    \<open>lifecycle_state\<close> to the rest, \<open>health_checked\<close> what \<open>Health\<close> says of it. The five modules that hold a
    handle and prometheus interpret them on their own definitions.
  \<^item> \<open>Paging\<close>: listings that arrive in pages, specified by the relation \<open>paged\<close>. The locale \<open>paging\<close> is
    the interface of a loop over pages; the loops of redis and s3 interpret it.
  \<^item> \<open>Redis\<close> (redis/redis.go, client.go, tls.go, metrics.go), \<open>Sqlite\<close> (sqlite/sqlite.go, config.go,
    db.go, metrics.go), \<open>Postgresql\<close> (postgresql/postgresql.go, db.go, metrics.go), \<open>S3\<close> (s3/s3.go,
    health.go, internal.go, upload.go, operations.go, storage.go, transfermanager_engine.go,
    metrics.go), \<open>Grpcclient\<close> (grpcclient/grpcclient.go, config.go, tls.go): the \<open>Config\<close> record and
    its defaults, the \<open>Component\<close> record, one function per exported method. A method takes the
    driver, the component and a pair of world and driver state, and returns the Go results and
    the new pair; its three critical sections \<open>X_begin\<close>, \<open>X_publish\<close>, \<open>X_swap\<close> are definitions of
    their own, from which \<open>X_Start\<close>, \<open>X_Stop\<close> and the lifecycle's steps are both made.
  \<^item> \<open>Rabbit_Policy\<close>, \<open>Rabbitmq\<close>, \<open>Rabbit_Proofs\<close>, \<open>Rabbit_Consumers\<close>, \<open>Rabbit_Lifecycle\<close>
    (rabbitmq/rabbitmq.go, messaging.go, metrics.go): retry policies and back-off, the component and
    its broker calls, what they guarantee, and two transition relations. \<open>consumer_step\<close> has the
    consumer goroutines beside the runs of \<open>Start\<close>, taken apart at every critical section, and any
    number of \<open>Subscribe\<close>s; \<open>rl_step\<close> has the runs of \<open>Start\<close> and \<open>Stop\<close>, whose second signal is the
    run's context.
  \<^item> \<open>Grpc\<close> (grpc/grpc.go, config.go, tls.go), \<open>Fiber\<close> (fiber/fiber.go, errors.go, helpers.go,
    routes.go, swagger.go), \<open>Prometheus\<close> (prometheus/prometheus.go, observer.go): the servers. Their
    \<open>Start\<close> blocks in the library's serve loop and has a goroutine that watches the context, so each
    has a transition relation of its own; that of \<open>Prometheus\<close> is simulated in \<open>Lifecycle\<close>'s.
  \<^item> \<open>Data_Modules\<close>: the properties that hold of every operation of the data modules, operation by
    operation. This theory puts the modules together.

  \<^bold>\<open>What the lemmas show\<close>

  The lifecycle group: under any schedule no channel and no handle is closed twice by the protocol,
  the component never holds a handle that a \<open>Stop\<close> has closed, \<open>ready\<close> is called at most once and
  only by a successful run; under a supervisor that starts a component only when no run is in
  progress, a blocked \<open>Start\<close> whose channel was replaced can return once every \<open>Stop\<close> is past its
  signal; \<open>Health\<close> passes only on a handle that a \<open>Start\<close> has opened and that no \<open>Stop\<close> has closed or
  is about to close. What operations do with a handle they fetched before a \<open>Stop\<close> is not covered. The
  start groups: on every branch of \<open>Start\<close> which error is returned, that a handle opened on the
  way is closed exactly then, and what the driver was asked. The data groups: each operation on
  each branch, the equality of \<open>Scan\<close> and \<open>ScanFunc\<close>, that listing returns all the keys of all
  the pages, that an upload hands on the bytes it was given although it read the first 512. The
  rabbitmq group: every delivery is settled exactly once, a failing message passes through
  the retry queue \<open>maxRetries\<close> times and then reaches the dead-letter queue, back-off is positive
  and bounded, a consumer's recorded death is visible in \<open>Health\<close> until the next run resets the
  record. The text group: connection strings and URIs parse back to the configuration they were
  built from, for host names of unreserved characters and ports that are not negative. The gaps: schedules in which the
  code does not do what its comments promise, each a theorem over the same definitions.

  \<^bold>\<open>Termination\<close>

  The loops over pages, cursors and connection states depend on an outside party and may not
  end: they are partial functions into options, None being a loop that does not return. What
  makes them return is a hypothesis on that party, and returning is then part of the
  conclusion: \<open>serves\<close> (a scan cursor comes back to 0 after finitely many batches),
  \<open>serves_pages\<close> (a listing has a last page). \<open>gcl_start_outcome\<close> says of a connection that
  \<open>waitReady\<close> returns if and only if \<open>comes_up\<close> or \<open>runs_out\<close> describes what it does.
  \<open>listings_refine\<close> says it exactly: a listing returns if and only if \<open>paged\<close> has a result;
  \<open>s3_list_diverges\<close> is a provider for which it has none.
  The back-off loop counts up to the attempt and is a total function. The only fuel is that of
  \<open>journey\<close>, the passage of a message through broker and consumer in \<open>rabbit_retry_pipeline\<close>: one unit
  for each delivery, and the theorem asks for more than \<open>maxRetries\<close>, which is what it takes.

  \<^bold>\<open>Parameters\<close>

  The client libraries are not part of the repository. Each is a record of functions over a state
  of arbitrary type (\<open>redis_driver\<close>, \<open>sql_driver\<close>, \<open>pgx_driver\<close>, \<open>s3_driver\<close>, \<open>dial_driver\<close>,
  \<open>amqp\<close>), so that a theorem holds for every behaviour of the library, failures included;
  \<open>tls_env\<close> gives files and certificates, and durations measured by the clock are arguments.
  Hooks that configure the library (\<open>AddOption\<close>, \<open>RegisterFunc\<close>, handlers) are functions or
  numbers that stand for them.

  \<^bold>\<open>Not modelled\<close>

  The supervisor itself. Key/value arguments of log lines, and which logger receives them; the
  dash in a log message is written as a hyphen. Memory and data races below the level of
  critical sections. The interior of the SDKs, of \<open>database/sql\<close> and of Fiber's router. The
  timing of timeouts: that a deadline expires is a step or an argument, not a clock. Tests,
  scripts and container files.
\<close>

section \<open>The common lifecycle\<close>

text \<open>
  C1. The five modules that hold a driver handle keep the common Start/Stop protocol: whatever
  number of \<open>Start\<close>s and \<open>Stop\<close>s interleave in whatever order, no channel is closed twice, no handle
  is closed twice, a component never holds a closed handle, ready is signalled at most once by
  a run and never by one that fails, and a \<open>Stop\<close> that has not returned always has a next step of its
  own. For schedules that start no run while another is in progress: a blocked \<open>Start\<close> whose stop
  channel was replaced can return once every \<open>Stop\<close> is past its signal.
\<close>
theorem lifecycle_everywhere:
  "lifecycle_contract redis_ops (redis_New rd (map redis_WithName names)) \<and>
   lifecycle_contract pg_ops (pg_New pg (map pg_WithName names)) \<and>
   lifecycle_contract sqlite_ops (sqlite_New sq (map sqlite_WithName names)) \<and>
   lifecycle_contract s3_ops (s3_New s3 (map s3_WithName names)) \<and>
   lifecycle_contract gcl_ops (gcl_New cl (map gcl_WithName names))"
  by (intro conjI redis_lc.contract pg_lc.contract sqlite_lc.contract s3_lc.contract gcl_lc.contract)

text \<open>
  C31. All five share one gap: a \<open>Stop\<close> that runs while \<open>Start\<close> is still connecting finds no handle;
  \<open>Start\<close> then publishes its handle, signals ready and returns nil at once, so that every run has
  finished and the handle is still open and published.
\<close>
theorem lifecycle_early_stop:
  "leaks_on_early_stop redis_ops (redis_New rd (map redis_WithName names)) \<and>
   leaks_on_early_stop pg_ops (pg_New pg (map pg_WithName names)) \<and>
   leaks_on_early_stop sqlite_ops (sqlite_New sq (map sqlite_WithName names)) \<and>
   leaks_on_early_stop s3_ops (s3_New s3 (map s3_WithName names)) \<and>
   leaks_on_early_stop gcl_ops (gcl_New cl (map gcl_WithName names))"
  by (intro conjI redis_lc.early_stop_leaks pg_lc.early_stop_leaks sqlite_lc.early_stop_leaks
      s3_lc.early_stop_leaks gcl_lc.early_stop_leaks)

text \<open>
  C6. \<open>Health\<close> and the lifecycle agree, whatever the schedule and whatever the driver answers:
  \<open>Health\<close> of these five modules, and of prometheus, passes only while the component holds a handle that a \<open>Start\<close> has
  opened, that no \<open>Stop\<close> has closed and that none is about to close; right after the critical
  section of any \<open>Stop\<close> it fails. It does not say that nothing else has closed the handle: a
  prometheus server whose \<open>Serve\<close> failed is still healthy, see \<open>prom_abandoned_server\<close>. No run changes the configuration, and the three handles of s3
  are there together or not at all, the upload engine being the one of the configured part size.
\<close>
theorem health_follows_lifecycle:
  "health_contract redis_ops (redis_New rc (map redis_WithName names)) (\<lambda>c. rc_cfg c = rc)
     (\<lambda>c s. fst (redis_Health rd c s)) \<and>
   health_contract pg_ops (pg_New pc (map pg_WithName names)) (\<lambda>c. pg_cfg c = pc)
     (\<lambda>c s. fst (pg_Health pd c s)) \<and>
   health_contract sqlite_ops (sqlite_New qc (map sqlite_WithName names)) (\<lambda>c. sc_cfg c = qc)
     (\<lambda>c s. fst (sqlite_Health sq c s)) \<and>
   health_contract s3_ops (s3_New bc (map s3_WithName names)) (s3_whole bc)
     (\<lambda>c s. fst (s3_Health sd c s)) \<and>
   health_contract gcl_ops (gcl_New lc (map gcl_WithName names)) (\<lambda>c. gl_cfg c = lc)
     (\<lambda>c s. fst (gcl_Health gd c s)) \<and>
   health_contract prom_ops (prom_fresh mc name reg) (\<lambda>c. pm_cfg c = mc \<and> pm_registry c = Some reg)
     (\<lambda>c (_ :: unit). prom_Health c)"
  by (intro conjI redis_health.checked pg_health.checked sqlite_health.checked s3_health.checked
      gcl_health.checked prom_health.checked)

section \<open>The data modules\<close>

text \<open>
  C7. Instrumentation does not change behaviour: for all thirty operations of the five data modules
  and any \<open>OnOperation\<close> sink, a panicking one included, each call that returns is reported exactly
  once, under its fixed name and with the error the caller gets, nothing logged or observed before
  is lost, and neither its result, nor
  whether it returns, nor what it does to the driver depends on the sink.
\<close>
theorem operations_instrumented:
  "instrumented opSet (\<lambda>f. redis_Set rd (redis_with_sink f r) k v t el) \<and>
   instrumented opSetNX (\<lambda>f. redis_SetNX rd (redis_with_sink f r) k v t el) \<and>
   instrumented opGet (\<lambda>f. redis_Get rd (redis_with_sink f r) k el) \<and>
   instrumented opDel (\<lambda>f. redis_Del rd (redis_with_sink f r) ks el) \<and>
   instrumented opExists (\<lambda>f. redis_Exists rd (redis_with_sink f r) ks el) \<and>
   instrumented opIncr (\<lambda>f. redis_Incr rd (redis_with_sink f r) k el) \<and>
   instrumented opExpire (\<lambda>f. redis_Expire rd (redis_with_sink f r) k t el) \<and>
   instrumented opTTL (\<lambda>f. redis_TTL rd (redis_with_sink f r) k el) \<and>
   instrumented_loop opScan (\<lambda>f. redis_Scan rd (redis_with_sink f r) k el) \<and>
   instrumented_loop opScanFunc (\<lambda>f. redis_ScanFunc rd (redis_with_sink f r) k fn el) \<and>
   instrumented opPublish (\<lambda>f. rabbit_Publish mq (rabbit_with_sink f m) now x k ct body el) \<and>
   instrumented opPublishWithType
     (\<lambda>f. rabbit_PublishWithType mq (rabbit_with_sink f m) now x k ct mt body el) \<and>
   instrumented opPublishWithHeaders
     (\<lambda>f. rabbit_PublishWithHeaders mq (rabbit_with_sink f m) now x k ct hs body el) \<and>
   instrumented ''sqlite.select'' (\<lambda>f. sqlite_Select sq (sqlite_with_sink f q) qy el) \<and>
   instrumented ''sqlite.get'' (\<lambda>f. sqlite_Get sq (sqlite_with_sink f q) qy el) \<and>
   instrumented ''sqlite.exec'' (\<lambda>f. sqlite_Exec sq (sqlite_with_sink f q) qy el) \<and>
   instrumented ''sqlite.begin_tx'' (\<lambda>f. sqlite_BeginTx sq (sqlite_with_sink f q) opts el) \<and>
   instrumented ''sqlite.commit_tx'' (\<lambda>f. sqlite_CommitTx sq (sqlite_with_sink f q) tx e el) \<and>
   instrumented ''postgres.select'' (\<lambda>f. pg_Select pd (pg_with_sink f p) pq el) \<and>
   instrumented ''postgres.get'' (\<lambda>f. pg_Get pd (pg_with_sink f p) pq el) \<and>
   instrumented ''postgres.exec'' (\<lambda>f. pg_Exec pd (pg_with_sink f p) pq el) \<and>
   instrumented ''postgres.begin_tx'' (\<lambda>f. pg_BeginTx pd (pg_with_sink f p) opts el) \<and>
   instrumented ''postgres.commit_tx'' (\<lambda>f. pg_CommitTx pd (pg_with_sink f p) tx e el) \<and>
   instrumented ''s3.upload'' (\<lambda>f. s3_Upload sd (s3_with_sink f b) ur el) \<and>
   instrumented ''s3.download'' (\<lambda>f. s3_Download sd (s3_with_sink f b) bkt k el) \<and>
   instrumented ''s3.delete'' (\<lambda>f. s3_Delete sd (s3_with_sink f b) bkt k el) \<and>
   instrumented ''s3.presign_download'' (\<lambda>f. s3_PresignDownload sd (s3_with_sink f b) pr el) \<and>
   instrumented ''s3.presign_upload'' (\<lambda>f. s3_PresignUpload sd (s3_with_sink f b) pr el) \<and>
   instrumented_loop ''s3.delete_by_prefix'' (\<lambda>f. s3_DeleteByPrefix sd (s3_with_sink f b) bkt k el) \<and>
   instrumented_loop ''s3.list_keys'' (\<lambda>f. s3_ListKeys sd (s3_with_sink f b) bkt k el)"
  by (intro conjI redis_instrumented redis_scans_instrumented rabbit_instrumented sqlite_instrumented
      pg_instrumented s3_instrumented)

text \<open>
  C39. Before \<open>Start\<close> and after \<open>Stop\<close> the stores refuse: with no live handle every operation of
  sqlite, postgresql and s3 that needs one returns the zero value and the module's \<open>ErrNotReady\<close>,
  leaves the driver alone, reports a zero duration, and \<open>Health\<close> fails.
\<close>
theorem stores_refuse:
  assumes "sc_db q = None" and "pg_pool p = None"
    and "s3_client b = None" and "s3_engine b = None" and "s3_presigner b = None"
  shows "refuses ''sqlite.select'' sqlite_ErrNotReady (sqlite_record q) () (sqlite_Select sq q qy el) \<and>
    refuses ''sqlite.get'' sqlite_ErrNotReady (sqlite_record q) () (sqlite_Get sq q qy el) \<and>
    refuses ''sqlite.exec'' sqlite_ErrNotReady (sqlite_record q) None (sqlite_Exec sq q qy el) \<and>
    refuses ''sqlite.begin_tx'' sqlite_ErrNotReady (sqlite_record q) None (sqlite_BeginTx sq q opts el) \<and>
    fst (sqlite_Health sq q s) \<noteq> None \<and>
    refuses ''postgres.select'' pg_ErrNotReady (pg_record p) () (pg_Select pd p pq el) \<and>
    refuses ''postgres.get'' pg_ErrNotReady (pg_record p) () (pg_Get pd p pq el) \<and>
    refuses ''postgres.exec'' pg_ErrNotReady (pg_record p) '''' (pg_Exec pd p pq el) \<and>
    refuses ''postgres.begin_tx'' pg_ErrNotReady (pg_record p) None (pg_BeginTx pd p opts el) \<and>
    fst (pg_Health pd p s') \<noteq> None \<and>
    refuses ''s3.upload'' s3_ErrNotReady (s3_record b) () (s3_Upload sd b ur el) \<and>
    refuses ''s3.download'' s3_ErrNotReady (s3_record b) None (s3_Download sd b bkt k el) \<and>
    refuses ''s3.delete'' s3_ErrNotReady (s3_record b) () (s3_Delete sd b bkt k el) \<and>
    refuses ''s3.presign_download'' s3_ErrNotReady (s3_record b) '''' (s3_PresignDownload sd b pr el) \<and>
    refuses ''s3.presign_upload'' s3_ErrNotReady (s3_record b) '''' (s3_PresignUpload sd b pr el) \<and>
    s3_ListKeys sd b bkt k el (w, t) =
       Some (([], Some s3_ErrNotReady), (s3_record b ''s3.list_keys'' 0 (Some s3_ErrNotReady) w, t)) \<and>
    s3_DeleteByPrefix sd b bkt k el (w, t) =
       Some ((0, Some s3_ErrNotReady), (s3_record b ''s3.delete_by_prefix'' 0 (Some s3_ErrNotReady) w, t)) \<and>
    fst (s3_Health sd b t) = Some s3_ErrNotReady"
  by (intro conjI sqlite_refuses [OF assms(1)] pg_refuses [OF assms(2)] s3_refuses [OF assms(3-5)])

theorem stores_refuse_witness:
  "\<forall>(pd :: unit pgx_driver) (sq :: unit sql_driver).
     refuses ''postgres.exec'' pg_ErrNotReady (pg_record (pg_New pg_cfg0 [])) ''''
       (pg_Exec pd (pg_New pg_cfg0 []) (''SELECT 1'', []) 0) \<and>
     fst (sqlite_Health sq (sqlite_New sqlite_cfg0 []) ()) \<noteq> None"
proof -
  have fresh: "sc_db (sqlite_New sqlite_cfg0 []) = None" "pg_pool (pg_New pg_cfg0 []) = None"
    "s3_client (s3_New s3_cfg0 []) = None" "s3_engine (s3_New s3_cfg0 []) = None"
    "s3_presigner (s3_New s3_cfg0 []) = None"
    by (simp_all add: sqlite_New_def pg_New_def s3_New_def)
  show ?thesis by (simp add: stores_refuse [OF fresh] del: not_None_eq)
qed

text \<open>
  C8. \<open>CommitTx\<close> of sqlite and of postgresql keep the same promise: without an error exactly the
  commit is called, with one exactly the rollback, and both errors stay in the chain of the
  result; only sqlite drops a rollback error, the one that says the transaction was over.
\<close>
theorem commit_tx_finalises:
  "finalises (\<lambda>x. errors_is x sql_ErrTxDone) (q_Commit sq tx) (q_Rollback sq tx)
     (\<lambda>e s. case sqlite_CommitTx sq q tx e el (w, s) of ((u, err), (w', s')) \<Rightarrow> (err, s')) \<and>
   finalises (\<lambda>x. False) (p_Commit pd tx) (p_Rollback pd tx)
     (\<lambda>e s. case pg_CommitTx pd p tx e el (w, s) of ((u, err), (w', s')) \<Rightarrow> (err, s'))"
  by (intro conjI sqlite_finalises pg_finalises)

text \<open>
  C9. Listings are refined exactly: \<open>Scan\<close> of redis and \<open>ListKeys\<close> of s3 return if and only if the
  server's answers, each asked for with the cursor of the one before, come to an end or an error;
  they then return the keys of all the answers in order, or no keys and that error, and leave the
  server as these requests leave it.
\<close>
theorem listings_refine:
  assumes "redis_getClient r = Some h" and "s3_client b = Some k" and "bkt \<noteq> ''''"
  shows "lists (redis_fetch rd h p) (redis_scan_wrap p) 0
       (\<lambda>s. map_option (\<lambda>(ret, w, s). (ret, s)) (redis_Scan rd r p el (w, s))) \<and>
     lists (s3_fetch sd k bkt p) (s3_list_wrap bkt p) None
       (\<lambda>s. map_option (\<lambda>(ret, w, s). (ret, s)) (s3_ListKeys sd b bkt p el (w, s)))"
  by (intro conjI redis_lists [OF assms(1)] s3_lists [OF assms(2,3)])

theorem listings_refine_witness:
  "map_option (\<lambda>(ret, w, s). (ret, s)) (s3_ListKeys two_pages s3_live ''bkt'' ''p'' 0 (world0, [])) =
     Some (([''a'', ''b'', ''c''], None), []) \<and>
   lists (redis_fetch idle_driver 1 ''p'') (redis_scan_wrap ''p'') 0
     (\<lambda>s. map_option (\<lambda>(ret, w, s). (ret, s)) (redis_Scan idle_driver redis_live ''p'' 0 (world0, s)))"
proof -
  have live: "redis_getClient redis_live = Some 1" "s3_client s3_live = Some 0" "''bkt'' \<noteq> ''''"
    by (simp_all add: redis_live_def redis_publish_def redis_getClient_def s3_live_def s3_publish_def)
  have last: "paged (s3_fetch two_pages 0 ''bkt'' ''p'') (Some ''t'') [] (Inr [''c'']) []"
    by (rule paged.ends) (simp add: s3_fetch_def two_pages_def)
  have "s3_fetch two_pages 0 ''bkt'' ''p'' None [] = (Inr ([''a'', ''b''], Some (Some ''t'')), [])"
    by (simp add: s3_fetch_def two_pages_def)
  from paged.goes_on [OF this last]
  have pages: "paged (s3_fetch two_pages 0 ''bkt'' ''p'') None [] (Inr [''a'', ''b'', ''c'']) []" by simp
  note both = listings_refine [OF live, of idle_driver "''p''" 0 world0 two_pages]
  from conjunct2 [OF both] pages
  have "map_option (\<lambda>(ret, w, s). (ret, s)) (s3_ListKeys two_pages s3_live ''bkt'' ''p'' 0 (world0, [])) =
      Some (page_ret (s3_list_wrap ''bkt'' ''p'') [] (Inr [''a'', ''b'', ''c'']), [])"
    unfolding lists_def by blast
  then show ?thesis using conjunct1 [OF both] by simp
qed

section \<open>Sizes in megabytes\<close>

text \<open>The bytes a setting of so many megabytes means, without the width of the machine.\<close>

definition megabytes :: "int \<Rightarrow> int" where
  "megabytes n = (if n > 0 then n else 4) * 2 ^ 20"

text \<open>A byte count \<open>b\<close> for a setting \<open>n\<close>: 64 bits, exact below 2 to the 43, negative there.\<close>

definition sized :: "int \<Rightarrow> int \<Rightarrow> bool" where
  "sized n b \<longleftrightarrow> is_int64 b \<and>
     (if n < 2 ^ 43 then b = megabytes n else if n = 2 ^ 43 then b < 0 else True)"

lemma fits_int64: "n < 2 ^ 43 \<Longrightarrow> 0 < n \<Longrightarrow> wrap64 (wrap64 (n * 1024) * 1024) = n * 2 ^ 20"
  by (subst (2) wrap64_id; simp add: is_int64_def wrap64_id)

lemma mb_size: "sized n (if n > 0 then wrap64 (wrap64 (n * 1024) * 1024) else 4 * 1024 * 1024)"
proof (cases "n < 2 ^ 43")
  case True
  then show ?thesis
    using fits_int64 [of n] by (auto simp: sized_def megabytes_def is_int64_def)
next
  case False
  have "wrap64 (wrap64 (2 ^ 43 * 1024) * 1024) < 0" by (simp add: wrap64_def)
  with False show ?thesis by (auto simp: sized_def wrap64_range)
qed

text \<open>
  C40. The size limits of the two grpc modules and of fiber are always 64-bit values, and exactly the
  configured megabytes, 4 by default, for every setting below 2 to the 43; at 2 to the 43 the
  product wraps around and the limit is negative.
\<close>
theorem sizes_typed:
  "sized (gc_MaxRecvMsgSizeMB g) (grpc_maxRecvMsgSizeBytes g) \<and>
   sized (gc_MaxSendMsgSizeMB g) (grpc_maxSendMsgSizeBytes g) \<and>
   sized (cl_MaxRecvMsgSizeMB c) (gcl_maxRecvMsgSizeBytes c) \<and>
   sized (cl_MaxSendMsgSizeMB c) (gcl_maxSendMsgSizeBytes c) \<and>
   sized (fc_BodyLimitMB f) (fiber_bodyLimitBytes f)"
  unfolding grpc_maxRecvMsgSizeBytes_def grpc_maxSendMsgSizeBytes_def gcl_maxRecvMsgSizeBytes_def
    gcl_maxSendMsgSizeBytes_def fiber_bodyLimitBytes_def
  by (intro conjI mb_size)

end
